theory Spec2Isabelle
  imports Complex_Main
begin

section \<open>Numbers\<close>

text \<open>
  The notebook computes with numpy's float64. The model keeps the three special values that
  decide the control flow of the code (a division by zero gives an infinity or NaN and raises
  nothing; NaN marks a missing observation) and idealises the finite values as exact
  rationals: no rounding, no overflow, no signed zero.
\<close>

datatype fl = Fin rat | PInf | NInf | NaN

definition inf_of_sign :: "rat \<Rightarrow> fl" where
  "inf_of_sign s = (if s = 0 then NaN else if 0 < s then PInf else NInf)"

instantiation fl :: "{zero,one,plus,minus,uminus,times,inverse}"
begin

definition zero_fl :: fl where
  "zero_fl = Fin 0"

definition one_fl :: fl where
  "one_fl = Fin 1"

fun plus_fl :: "fl \<Rightarrow> fl \<Rightarrow> fl" where
  "plus_fl (Fin a) (Fin b) = Fin (a + b)"
| "plus_fl NaN _ = NaN"
| "plus_fl _ NaN = NaN"
| "plus_fl PInf NInf = NaN"
| "plus_fl NInf PInf = NaN"
| "plus_fl PInf _ = PInf"
| "plus_fl _ PInf = PInf"
| "plus_fl NInf _ = NInf"
| "plus_fl _ NInf = NInf"

fun uminus_fl :: "fl \<Rightarrow> fl" where
  "uminus_fl (Fin a) = Fin (- a)"
| "uminus_fl PInf = NInf"
| "uminus_fl NInf = PInf"
| "uminus_fl NaN = NaN"

definition minus_fl :: "fl \<Rightarrow> fl \<Rightarrow> fl" where
  "minus_fl a b = a + (- b)"

fun times_fl :: "fl \<Rightarrow> fl \<Rightarrow> fl" where
  "times_fl (Fin a) (Fin b) = Fin (a * b)"
| "times_fl NaN _ = NaN"
| "times_fl _ NaN = NaN"
| "times_fl PInf (Fin b) = inf_of_sign b"
| "times_fl NInf (Fin b) = inf_of_sign (- b)"
| "times_fl (Fin a) PInf = inf_of_sign a"
| "times_fl (Fin a) NInf = inf_of_sign (- a)"
| "times_fl PInf PInf = PInf"
| "times_fl NInf NInf = PInf"
| "times_fl PInf NInf = NInf"
| "times_fl NInf PInf = NInf"

fun inverse_fl :: "fl \<Rightarrow> fl" where
  "inverse_fl (Fin b) = (if b = 0 then PInf else Fin (1 / b))"
| "inverse_fl PInf = Fin 0"
| "inverse_fl NInf = Fin 0"
| "inverse_fl NaN = NaN"

definition divide_fl :: "fl \<Rightarrow> fl \<Rightarrow> fl" where
  "divide_fl a b = a * inverse b"

instance ..

end

definition isnan :: "fl \<Rightarrow> bool" where
  "isnan x = (x = NaN)"

definition is_finite :: "fl \<Rightarrow> bool" where
  \<comment> \<open>\<open>np.isfinite\<close>\<close>
  "is_finite x = (case x of Fin a \<Rightarrow> True | _ \<Rightarrow> False)"

definition fsum :: "fl list \<Rightarrow> fl" where
  "fsum xs = foldl (+) 0 xs"

section \<open>Errors\<close>

text \<open>
  The exceptions a call can end in. \<open>UnboundLocalError\<close> carries the name of the local
  variable that is read before it is assigned. \<open>ValueError\<close> is numpy's error for a negative
  dimension and for operands that cannot be broadcast together, \<open>IndexError\<close> its error for
  a column index outside an array, \<open>LinAlgError\<close> the error of \<open>np.linalg.pinv\<close>, and
  \<open>ZeroDivisionError\<close> Python's error for dividing one \<open>int\<close> by the \<open>int\<close> zero.
\<close>

datatype error =
    UnboundLocalError string
  | ValueError
  | IndexError
  | LinAlgError
  | ZeroDivisionError

section \<open>Arrays\<close>

text \<open>
  A two-dimensional ndarray is its shape together with its entries, row by row. The shape is
  kept apart from the entries because the code builds arrays with no rows or no columns
  (\<open>np.zeros((0, n))\<close>), whose shape the entries alone do not determine. A one-dimensional
  array is a list.

  The operations of this section are the values numpy computes on operands whose shapes fit
  together; they check nothing. The next section puts numpy's checks in front of them, and
  the functions of the notebook are written with the checked operations. The unchecked
  ones are used where an array is built from arrays the same expression has just made
  (\<open>np.append\<close> of \<open>np.zeros\<close> and \<open>np.eye\<close> blocks of one height, a slice of an array).
\<close>

record 'a mat =
  nrows :: nat
  ncols :: nat
  rows :: "'a list list"

definition mk_mat :: "nat \<Rightarrow> nat \<Rightarrow> (nat \<Rightarrow> nat \<Rightarrow> 'a) \<Rightarrow> 'a mat" where
  "mk_mat r c f = \<lparr>nrows = r, ncols = c, rows = map (\<lambda>i. map (f i) [0..<c]) [0..<r]\<rparr>"

definition elt :: "'a mat \<Rightarrow> nat \<Rightarrow> nat \<Rightarrow> 'a" where
  "elt M i j = rows M ! i ! j"

definition wf_mat :: "'a mat \<Rightarrow> bool" where
  "wf_mat M = (length (rows M) = nrows M \<and> list_all (\<lambda>row. length row = ncols M) (rows M))"

definition col :: "'a mat \<Rightarrow> nat \<Rightarrow> 'a list" where
  \<comment> \<open>\<open>M[:, j]\<close>\<close>
  "col M j = map (\<lambda>i. elt M i j) [0..<nrows M]"

definition zeros :: "nat \<Rightarrow> nat \<Rightarrow> fl mat" where
  \<comment> \<open>\<open>np.zeros((r, c))\<close>\<close>
  "zeros r c = mk_mat r c (\<lambda>i j. 0)"

definition eye :: "nat \<Rightarrow> fl mat" where
  \<comment> \<open>\<open>np.eye(n)\<close>\<close>
  "eye n = mk_mat n n (\<lambda>i j. if i = j then 1 else 0)"

definition mT :: "'a mat \<Rightarrow> 'a mat" where
  \<comment> \<open>\<open>M.T\<close>\<close>
  "mT M = mk_mat (ncols M) (nrows M) (\<lambda>i j. elt M j i)"

definition mprod :: "fl mat \<Rightarrow> fl mat \<Rightarrow> fl mat" where
  \<comment> \<open>the matrix product, for \<open>ncols A = nrows B\<close>\<close>
  "mprod A B =
     mk_mat (nrows A) (ncols B) (\<lambda>i j. fsum (map (\<lambda>k. elt A i k * elt B k j) [0..<ncols A]))"

definition mvprod :: "fl mat \<Rightarrow> fl list \<Rightarrow> fl list" where
  \<comment> \<open>a matrix times a one-dimensional array of length \<open>ncols A\<close>\<close>
  "mvprod A v = map (\<lambda>i. fsum (map (\<lambda>k. elt A i k * v ! k) [0..<ncols A])) [0..<nrows A]"

definition madd :: "fl mat \<Rightarrow> fl mat \<Rightarrow> fl mat" where
  \<comment> \<open>the entrywise sum of two arrays of one shape\<close>
  "madd A B = mk_mat (nrows A) (ncols A) (\<lambda>i j. elt A i j + elt B i j)"

definition msub :: "fl mat \<Rightarrow> fl mat \<Rightarrow> fl mat" where
  \<comment> \<open>the entrywise difference of two arrays of one shape\<close>
  "msub A B = mk_mat (nrows A) (ncols A) (\<lambda>i j. elt A i j - elt B i j)"

definition smul :: "fl \<Rightarrow> fl mat \<Rightarrow> fl mat" where
  \<comment> \<open>\<open>s * A\<close> for a scalar \<open>s\<close>\<close>
  "smul s A = mk_mat (nrows A) (ncols A) (\<lambda>i j. s * elt A i j)"

definition mul_ind :: "fl mat \<Rightarrow> bool mat \<Rightarrow> fl mat" where
  \<comment> \<open>the entrywise product with a boolean array of the same shape: \<open>True\<close> counts as 1
      and \<open>False\<close> as 0\<close>
  "mul_ind A ind = mk_mat (nrows A) (ncols A) (\<lambda>i j. elt A i j * (if elt ind i j then 1 else 0))"

definition hstack :: "'a mat \<Rightarrow> 'a mat \<Rightarrow> 'a mat" where
  \<comment> \<open>\<open>np.append(A, B, axis = 1)\<close> for two arrays of one height\<close>
  "hstack A B =
     mk_mat (nrows A) (ncols A + ncols B)
       (\<lambda>i j. if j < ncols A then elt A i j else elt B i (j - ncols A))"

definition slice_cols :: "'a mat \<Rightarrow> nat \<Rightarrow> nat \<Rightarrow> 'a mat" where
  \<comment> \<open>\<open>M[:, a:b]\<close> for \<open>0 \<le> a\<close> and \<open>0 \<le> b\<close>: both bounds are clipped to the width\<close>
  "slice_cols M a b =
     mk_mat (nrows M) (min b (ncols M) - min a (ncols M)) (\<lambda>i j. elt M i (min a (ncols M) + j))"

definition set_rows :: "'a mat \<Rightarrow> nat \<Rightarrow> nat \<Rightarrow> 'a mat \<Rightarrow> 'a mat" where
  \<comment> \<open>\<open>M[a:b, :] = B\<close> for a \<open>B\<close> of the shape of the slice\<close>
  "set_rows M a b B =
     mk_mat (nrows M) (ncols M) (\<lambda>i j. if a \<le> i \<and> i < b then elt B (i - a) j else elt M i j)"

definition set_cols :: "'a mat \<Rightarrow> nat \<Rightarrow> nat \<Rightarrow> 'a mat \<Rightarrow> 'a mat" where
  \<comment> \<open>\<open>M[:, a:b] = B\<close> for a \<open>B\<close> of the shape of the slice\<close>
  "set_cols M a b B =
     mk_mat (nrows M) (ncols M) (\<lambda>i j. if a \<le> j \<and> j < b then elt B i (j - a) else elt M i j)"

definition set_col :: "'a mat \<Rightarrow> nat \<Rightarrow> 'a list \<Rightarrow> 'a mat" where
  \<comment> \<open>\<open>M[:, c] = v\<close> for a \<open>v\<close> of length \<open>nrows M\<close>\<close>
  "set_col M c v = mk_mat (nrows M) (ncols M) (\<lambda>i j. if j = c then v ! i else elt M i j)"

definition vecF :: "'a mat \<Rightarrow> 'a list" where
  \<comment> \<open>\<open>np.reshape(M, -1, order = 'F')\<close>: the columns one after the other\<close>
  "vecF M = concat (map (col M) [0..<ncols M])"

definition unvecF :: "'a list \<Rightarrow> nat \<Rightarrow> nat \<Rightarrow> 'a mat" where
  \<comment> \<open>\<open>np.reshape(v, (r, c), order = 'F')\<close> for a \<open>v\<close> of length \<open>r \<cdot> c\<close>\<close>
  "unvecF v r c = mk_mat r c (\<lambda>i j. v ! (j * r + i))"

definition dot :: "fl list \<Rightarrow> fl list \<Rightarrow> fl" where
  \<comment> \<open>\<open>np.dot(u, v)\<close>\<close>
  "dot u v = fsum (map2 (*) u v)"

definition vadd :: "fl list \<Rightarrow> fl list \<Rightarrow> fl list" where
  "vadd u v = map2 (+) u v"

definition vsub :: "fl list \<Rightarrow> fl list \<Rightarrow> fl list" where
  "vsub u v = map2 (-) u v"

definition vsmul :: "fl \<Rightarrow> fl list \<Rightarrow> fl list" where
  "vsmul s v = map ((*) s) v"

section \<open>Shape checks\<close>

text \<open>
  What numpy does with operands of any shapes. The matrix product and \<open>np.inner\<close> raise
  \<open>ValueError\<close> unless the inner dimensions agree. An entrywise operation stretches an axis
  of length one to the length of the other operand's axis (broadcasting) and raises
  \<open>ValueError\<close> for two different lengths neither of which is one. An assignment to a slice,
  and an update in place, stretch the value to the shape of the target and raise
  \<open>ValueError\<close> if it cannot be stretched. \<open>np.reshape\<close> raises \<open>ValueError\<close> unless the
  sizes agree, and an index beyond the end of a list raises \<open>IndexError\<close>.

  \<open>ebind\<close> runs the next statement on the value of the statement before and hands an
  exception on.
\<close>

definition ebind :: "error + 'a \<Rightarrow> ('a \<Rightarrow> error + 'b) \<Rightarrow> error + 'b" where
  "ebind m f = (case m of Inl e \<Rightarrow> Inl e | Inr x \<Rightarrow> f x)"

definition matmul :: "fl mat \<Rightarrow> fl mat \<Rightarrow> error + fl mat" where
  \<comment> \<open>\<open>A @ B\<close>\<close>
  "matmul A B = (if ncols A = nrows B then Inr (mprod A B) else Inl ValueError)"

definition matvec :: "fl mat \<Rightarrow> fl list \<Rightarrow> error + fl list" where
  \<comment> \<open>\<open>A @ v\<close> for a one-dimensional \<open>v\<close>\<close>
  "matvec A v = (if ncols A = length v then Inr (mvprod A v) else Inl ValueError)"

definition inner :: "fl list \<Rightarrow> fl list \<Rightarrow> error + fl" where
  \<comment> \<open>\<open>np.inner(u, v)\<close>\<close>
  "inner u v = (if length u = length v then Inr (dot u v) else Inl ValueError)"

definition bdim :: "nat \<Rightarrow> nat \<Rightarrow> error + nat" where
  \<comment> \<open>the common length of two axes\<close>
  "bdim a b =
     (if a = b then Inr a else if a = 1 then Inr b else if b = 1 then Inr a else Inl ValueError)"

definition fits_into :: "nat \<Rightarrow> nat \<Rightarrow> bool" where
  \<comment> \<open>an axis of length \<open>n\<close> can be stretched to the length \<open>m\<close>\<close>
  "fits_into n m = (n = m \<or> n = 1)"

definition bcast :: "'a mat \<Rightarrow> nat \<Rightarrow> nat \<Rightarrow> 'a mat" where
  \<comment> \<open>\<open>np.broadcast_to(M, (r, c))\<close>\<close>
  "bcast M r c =
     mk_mat r c (\<lambda>i j. elt M (if nrows M = 1 then 0 else i) (if ncols M = 1 then 0 else j))"

definition bcast1 :: "'a list \<Rightarrow> nat \<Rightarrow> 'a list" where
  \<comment> \<open>\<open>np.broadcast_to(v, (n,))\<close>\<close>
  "bcast1 v n = (if length v = 1 then replicate n (v ! 0) else v)"

definition np_add :: "fl mat \<Rightarrow> fl mat \<Rightarrow> error + fl mat" where
  \<comment> \<open>\<open>A + B\<close>\<close>
  "np_add A B =
     ebind (bdim (nrows A) (nrows B)) (\<lambda>r.
     ebind (bdim (ncols A) (ncols B)) (\<lambda>c.
     Inr (madd (bcast A r c) (bcast B r c))))"

definition np_sub :: "fl mat \<Rightarrow> fl mat \<Rightarrow> error + fl mat" where
  \<comment> \<open>\<open>A - B\<close>\<close>
  "np_sub A B =
     ebind (bdim (nrows A) (nrows B)) (\<lambda>r.
     ebind (bdim (ncols A) (ncols B)) (\<lambda>c.
     Inr (msub (bcast A r c) (bcast B r c))))"

definition np_mul_ind :: "fl mat \<Rightarrow> bool mat \<Rightarrow> error + fl mat" where
  \<comment> \<open>\<open>A * ind\<close> for a boolean array\<close>
  "np_mul_ind A ind =
     ebind (bdim (nrows A) (nrows ind)) (\<lambda>r.
     ebind (bdim (ncols A) (ncols ind)) (\<lambda>c.
     Inr (mul_ind (bcast A r c) (bcast ind r c))))"

definition np_and :: "('a \<Rightarrow> bool) \<Rightarrow> ('b \<Rightarrow> bool) \<Rightarrow> 'a mat \<Rightarrow> 'b mat \<Rightarrow> error + bool mat" where
  \<comment> \<open>\<open>p(A) & q(B)\<close> for two entrywise tests \<open>p\<close> and \<open>q\<close>\<close>
  "np_and p q A B =
     ebind (bdim (nrows A) (nrows B)) (\<lambda>r.
     ebind (bdim (ncols A) (ncols B)) (\<lambda>c.
     Inr (mk_mat r c (\<lambda>i j. p (elt (bcast A r c) i j) \<and> q (elt (bcast B r c) i j)))))"

definition np_add1 :: "fl list \<Rightarrow> fl list \<Rightarrow> error + fl list" where
  \<comment> \<open>\<open>u + v\<close> for one-dimensional arrays\<close>
  "np_add1 u v = ebind (bdim (length u) (length v)) (\<lambda>n. Inr (vadd (bcast1 u n) (bcast1 v n)))"

definition np_sub1 :: "fl list \<Rightarrow> fl list \<Rightarrow> error + fl list" where
  \<comment> \<open>\<open>u - v\<close> for one-dimensional arrays\<close>
  "np_sub1 u v = ebind (bdim (length u) (length v)) (\<lambda>n. Inr (vsub (bcast1 u n) (bcast1 v n)))"

definition iadd :: "fl mat \<Rightarrow> fl mat \<Rightarrow> error + fl mat" where
  \<comment> \<open>\<open>M += B\<close>: the sum has to have the shape of \<open>M\<close>\<close>
  "iadd M B =
     (if fits_into (nrows B) (nrows M) \<and> fits_into (ncols B) (ncols M)
      then Inr (madd M (bcast B (nrows M) (ncols M)))
      else Inl ValueError)"

definition assign_rows :: "fl mat \<Rightarrow> nat \<Rightarrow> nat \<Rightarrow> fl mat \<Rightarrow> error + fl mat" where
  \<comment> \<open>\<open>M[a:b, :] = B\<close>: the bounds of the slice are clipped to the height\<close>
  "assign_rows M a b B =
     (let r = min b (nrows M) - min a (nrows M)
      in if fits_into (nrows B) r \<and> fits_into (ncols B) (ncols M)
         then Inr (set_rows M a b (bcast B r (ncols M)))
         else Inl ValueError)"

definition assign_cols :: "fl mat \<Rightarrow> nat \<Rightarrow> nat \<Rightarrow> fl mat \<Rightarrow> error + fl mat" where
  \<comment> \<open>\<open>M[:, a:b] = B\<close>: the bounds of the slice are clipped to the width\<close>
  "assign_cols M a b B =
     (let c = min b (ncols M) - min a (ncols M)
      in if fits_into (nrows B) (nrows M) \<and> fits_into (ncols B) c
         then Inr (set_cols M a b (bcast B (nrows M) c))
         else Inl ValueError)"

definition assign_col :: "fl mat \<Rightarrow> nat \<Rightarrow> fl list \<Rightarrow> error + fl mat" where
  \<comment> \<open>\<open>M[:, c] = v\<close> for a column \<open>c\<close> of \<open>M\<close>\<close>
  "assign_col M c v =
     (if fits_into (length v) (nrows M) then Inr (set_col M c (bcast1 v (nrows M)))
      else Inl ValueError)"

definition reshapeF :: "'a list \<Rightarrow> nat \<Rightarrow> nat \<Rightarrow> error + 'a mat" where
  \<comment> \<open>\<open>np.reshape(v, (r, c), order = 'F')\<close>\<close>
  "reshapeF v r c = (if length v = r * c then Inr (unvecF v r c) else Inl ValueError)"

definition list_get :: "'a list \<Rightarrow> nat \<Rightarrow> error + 'a" where
  \<comment> \<open>\<open>xs[k]\<close> for \<open>0 \<le> k\<close>\<close>
  "list_get xs k = (if k < length xs then Inr (xs ! k) else Inl IndexError)"

definition where_true :: "bool mat \<Rightarrow> (nat \<times> nat) list" where
  \<comment> \<open>\<open>np.where(M)\<close>: the positions of the entries that are \<open>True\<close>, row by row\<close>
  "where_true M =
     concat (map (\<lambda>i. map (\<lambda>j. (i, j)) (filter (\<lambda>j. elt M i j) [0..<ncols M])) [0..<nrows M])"

definition take_at :: "'a mat \<Rightarrow> (nat \<times> nat) list \<Rightarrow> error + 'a list" where
  \<comment> \<open>\<open>M[pos]\<close> for the positions that \<open>np.where\<close> returned\<close>
  "take_at M pos =
     (if list_all (\<lambda>p. fst p < nrows M \<and> snd p < ncols M) pos
      then Inr (map (\<lambda>p. elt M (fst p) (snd p)) pos)
      else Inl IndexError)"

section \<open>Conjugate gradient\<close>

type_synonym cg_state = "fl list \<times> fl list \<times> fl list \<times> fl"

type_synonym cg_update = "fl list \<Rightarrow> fl list \<Rightarrow> fl list \<Rightarrow> fl list \<Rightarrow> fl \<Rightarrow> error + cg_state"

text \<open>
  \<open>update_cg\<close> of the section on temporal matrix factorization. Its first parameter is
  named \<open>ver\<close>, so \<open>var\<close> is a local variable of the body that has no value when the second
  statement reads it. The first statement has run by then: \<open>np.inner\<close> has checked the
  lengths of \<open>q\<close> and \<open>Aq\<close>. The division is numpy's and raises nothing.
\<close>

definition update_cg_ver :: cg_update where
  "update_cg_ver ver r q Aq rold =
     ebind (inner q Aq) (\<lambda>qAq.
       let alpha = rold / qAq;
           var_local = (None :: fl list option)
       in case var_local of
            None \<Rightarrow> Inl (UnboundLocalError ''var'')
          | Some var \<Rightarrow>
              ebind (np_add1 var (vsmul alpha q)) (\<lambda>var.
              ebind (np_sub1 r (vsmul alpha Aq)) (\<lambda>r.
              ebind (inner r r) (\<lambda>rnew.
              ebind (np_add1 r (vsmul (rnew / rold) q)) (\<lambda>q.
              Inr (var, r, q, rnew))))))"

text \<open>\<open>update_cg\<close> of the section on the nonstationary model: the parameter is \<open>var\<close>.\<close>

definition update_cg :: cg_update where
  "update_cg var r q Aq rold =
     ebind (inner q Aq) (\<lambda>qAq.
       let alpha = rold / qAq
       in ebind (np_add1 var (vsmul alpha q)) (\<lambda>var.
          ebind (np_sub1 r (vsmul alpha Aq)) (\<lambda>r.
          ebind (inner r r) (\<lambda>rnew.
          ebind (np_add1 r (vsmul (rnew / rold) q)) (\<lambda>q.
          Inr (var, r, q, rnew))))))"

definition ell_w :: "bool mat \<Rightarrow> fl mat \<Rightarrow> fl mat \<Rightarrow> fl \<Rightarrow> error + fl mat" where
  "ell_w ind W X rho =
     ebind (matmul (mT W) X) (\<lambda>WX.
     ebind (np_mul_ind WX ind) (\<lambda>M.
     ebind (matmul X (mT M)) (\<lambda>XM.
     np_add XM (smul rho W))))"

text \<open>
  \<open>conj_grad_w\<close> and \<open>conj_grad_x\<close> have the same text in both sections. They call the
  global name \<open>update_cg\<close>, which Python looks up when the call is made: the binding is the
  parameter \<open>upd\<close>. \<open>cg_start_w\<close> is the part of \<open>conj_grad_w\<close> before its loop and
  \<open>cg_loop_w\<close> the loop.
\<close>

definition cg_start_w :: "fl mat \<Rightarrow> bool mat \<Rightarrow> fl mat \<Rightarrow> fl mat \<Rightarrow> fl \<Rightarrow> error + cg_state" where
  "cg_start_w sparse_mat ind W X rho =
     (let w = vecF W
      in ebind (matmul X (mT sparse_mat)) (\<lambda>XS.
         ebind (ell_w ind W X rho) (\<lambda>L.
         ebind (np_sub XS L) (\<lambda>R.
           let r = vecF R; q = r
           in ebind (inner r r) (\<lambda>rold. Inr (w, r, q, rold))))))"

fun cg_loop_w :: "cg_update \<Rightarrow> bool mat \<Rightarrow> fl mat \<Rightarrow> fl \<Rightarrow> nat \<Rightarrow> nat \<Rightarrow> nat \<Rightarrow> cg_state
    \<Rightarrow> error + cg_state" where
  "cg_loop_w upd ind X rho rank dim1 0 s = Inr s"
| "cg_loop_w upd ind X rho rank dim1 (Suc n) (w, r, q, rold) =
     ebind (reshapeF q rank dim1) (\<lambda>Q.
     ebind (ell_w ind Q X rho) (\<lambda>L.
     ebind (upd w r q (vecF L) rold) (\<lambda>s.
     cg_loop_w upd ind X rho rank dim1 n s)))"

definition conj_grad_w :: "cg_update \<Rightarrow> fl mat \<Rightarrow> bool mat \<Rightarrow> fl mat \<Rightarrow> fl mat \<Rightarrow> fl \<Rightarrow> nat
    \<Rightarrow> error + fl mat" where
  "conj_grad_w upd sparse_mat ind W X rho maxiter =
     (let rank = nrows W; dim1 = ncols W
      in ebind (cg_start_w sparse_mat ind W X rho) (\<lambda>s.
         ebind (cg_loop_w upd ind X rho rank dim1 maxiter s) (\<lambda>(w, r, q, rold).
         reshapeF w rank dim1)))"

text \<open>
  The two loops of \<open>ell_x\<close>. \<open>stack_loop\<close> writes the blocks \<open>X @ Psi[k].T\<close> into \<open>temp\<close>;
  \<open>tmf\<close>, \<open>notmf\<close> and \<open>notmf_dic\<close> run the same loop. \<open>lag_loop\<close> adds up \<open>temp2\<close>.
\<close>

fun stack_loop :: "fl mat \<Rightarrow> fl mat list \<Rightarrow> nat \<Rightarrow> nat list \<Rightarrow> fl mat \<Rightarrow> error + fl mat" where
  "stack_loop X Psi rank [] temp = Inr temp"
| "stack_loop X Psi rank (k # ks) temp =
     ebind (list_get Psi k) (\<lambda>Psi_k.
     ebind (matmul X (mT Psi_k)) (\<lambda>B.
     ebind (assign_rows temp ((k - 1) * rank) (k * rank) B) (\<lambda>temp.
     stack_loop X Psi rank ks temp)))"

fun lag_loop :: "fl mat \<Rightarrow> fl mat list \<Rightarrow> nat \<Rightarrow> fl mat \<Rightarrow> nat list \<Rightarrow> fl mat \<Rightarrow> error + fl mat" where
  "lag_loop A Psi rank temp1 [] temp2 = Inr temp2"
| "lag_loop A Psi rank temp1 (k # ks) temp2 =
     ebind (matmul (mT (slice_cols A (k * rank) ((k + 1) * rank))) temp1) (\<lambda>M.
     ebind (list_get Psi (k + 1)) (\<lambda>Psi_k.
     ebind (matmul M Psi_k) (\<lambda>N.
     ebind (iadd temp2 N) (\<lambda>temp2.
     lag_loop A Psi rank temp1 ks temp2))))"

definition ell_x :: "bool mat \<Rightarrow> fl mat \<Rightarrow> fl mat \<Rightarrow> fl mat \<Rightarrow> fl mat list \<Rightarrow> nat \<Rightarrow> fl \<Rightarrow> fl
    \<Rightarrow> error + fl mat" where
  "ell_x ind W X A Psi d lambda0 rho =
     (let rank = nrows X; dim2 = ncols X
      in ebind (list_get Psi 0) (\<lambda>Psi0.
         ebind (stack_loop X Psi rank [1..<d + 1] (zeros (d * rank) (nrows Psi0))) (\<lambda>temp.
         ebind (matmul X (mT Psi0)) (\<lambda>XP.
         ebind (matmul A temp) (\<lambda>AT.
         ebind (np_sub XP AT) (\<lambda>temp1.
         ebind (lag_loop A Psi rank temp1 [0..<d] (zeros rank dim2)) (\<lambda>temp2.
         ebind (matmul (mT W) X) (\<lambda>WX.
         ebind (np_mul_ind WX ind) (\<lambda>M.
         ebind (matmul W M) (\<lambda>WM.
         ebind (np_add WM (smul rho X)) (\<lambda>S.
         ebind (matmul temp1 Psi0) (\<lambda>TP.
         ebind (np_sub TP temp2) (\<lambda>D.
         np_add S (smul lambda0 D))))))))))))))"

definition cg_start_x :: "fl mat \<Rightarrow> bool mat \<Rightarrow> fl mat \<Rightarrow> fl mat \<Rightarrow> fl mat \<Rightarrow> fl mat list \<Rightarrow> nat
    \<Rightarrow> fl \<Rightarrow> fl \<Rightarrow> error + cg_state" where
  "cg_start_x sparse_mat ind W X A Psi d lambda0 rho =
     (let x = vecF X
      in ebind (matmul W sparse_mat) (\<lambda>WS.
         ebind (ell_x ind W X A Psi d lambda0 rho) (\<lambda>L.
         ebind (np_sub WS L) (\<lambda>R.
           let r = vecF R; q = r
           in ebind (inner r r) (\<lambda>rold. Inr (x, r, q, rold))))))"

fun cg_loop_x :: "cg_update \<Rightarrow> bool mat \<Rightarrow> fl mat \<Rightarrow> fl mat \<Rightarrow> fl mat list \<Rightarrow> nat \<Rightarrow> fl \<Rightarrow> fl
    \<Rightarrow> nat \<Rightarrow> nat \<Rightarrow> nat \<Rightarrow> cg_state \<Rightarrow> error + cg_state" where
  "cg_loop_x upd ind W A Psi d lambda0 rho rank dim2 0 s = Inr s"
| "cg_loop_x upd ind W A Psi d lambda0 rho rank dim2 (Suc n) (x, r, q, rold) =
     ebind (reshapeF q rank dim2) (\<lambda>Q.
     ebind (ell_x ind W Q A Psi d lambda0 rho) (\<lambda>L.
     ebind (upd x r q (vecF L) rold) (\<lambda>s.
     cg_loop_x upd ind W A Psi d lambda0 rho rank dim2 n s)))"

definition conj_grad_x :: "cg_update \<Rightarrow> fl mat \<Rightarrow> bool mat \<Rightarrow> fl mat \<Rightarrow> fl mat \<Rightarrow> fl mat
    \<Rightarrow> fl mat list \<Rightarrow> nat \<Rightarrow> fl \<Rightarrow> fl \<Rightarrow> nat \<Rightarrow> error + fl mat" where
  "conj_grad_x upd sparse_mat ind W X A Psi d lambda0 rho maxiter =
     (let rank = nrows X; dim2 = ncols X
      in ebind (cg_start_x sparse_mat ind W X A Psi d lambda0 rho) (\<lambda>s.
         ebind (cg_loop_x upd ind W A Psi d lambda0 rho rank dim2 maxiter s) (\<lambda>(x, r, q, rold).
         reshapeF x rank dim2)))"

section \<open>Temporal operators\<close>

text \<open>
  \<open>np.zeros\<close> and \<open>np.eye\<close> raise \<open>ValueError\<close> for a negative dimension. The dimensions
  asked for are \<open>T - d\<close> (with the season: \<open>T - d - season\<close>), \<open>d\<close>, \<open>d - k\<close>, \<open>k\<close> and
  \<open>season\<close> with \<open>0 \<le> k \<le> d\<close>, so the first array of the first round raises exactly when
  the number of rows is negative. All the blocks of one operator have that number of rows,
  and the two summands of the seasonal block have the same shape, so the operators are
  written with the unchecked operations.
\<close>

definition generate_Psi :: "nat \<Rightarrow> nat \<Rightarrow> error + fl mat list" where
  "generate_Psi T d =
     (if T < d then Inl ValueError
      else Inr (map (\<lambda>k.
             if k = 0 then hstack (zeros (T - d) d) (eye (T - d))
             else hstack (hstack (zeros (T - d) (d - k)) (eye (T - d))) (zeros (T - d) k))
           [0..<d + 1]))"

definition season_block :: "nat \<Rightarrow> nat \<Rightarrow> fl mat" where
  \<comment> \<open>\<open>np.append(-1 * np.eye(n), np.zeros((n, season)), axis = 1)
        + np.append(np.zeros((n, season)), np.eye(n), axis = 1)\<close>\<close>
  "season_block n season =
     madd (hstack (smul (- 1) (eye n)) (zeros n season)) (hstack (zeros n season) (eye n))"

definition generate_Psi_season :: "nat \<Rightarrow> nat \<Rightarrow> nat \<Rightarrow> error + fl mat list" where
  "generate_Psi_season T d season =
     (if T < d + season then Inl ValueError
      else Inr (map (\<lambda>k.
             if k = 0 then hstack (zeros (T - d - season) d) (season_block (T - d - season) season)
             else hstack (hstack (zeros (T - d - season) (d - k))
                            (season_block (T - d - season) season))
                    (zeros (T - d - season) k))
           [0..<d + 1]))"

definition row_count :: "fl mat \<Rightarrow> nat \<Rightarrow> fl \<Rightarrow> nat" where
  \<comment> \<open>how many entries of row \<open>i\<close> equal \<open>v\<close>\<close>
  "row_count M i v = length (filter (\<lambda>j. elt M i j = v) [0..<ncols M])"

section \<open>The factorization engine\<close>

text \<open>
  \<open>np.random.randn\<close> is the parameter \<open>rnd\<close>: \<open>rnd k i j\<close> is the entry \<open>(i, j)\<close> of the
  \<open>k\<close>-th array drawn. \<open>np.linalg.pinv\<close> is the parameter \<open>pinv\<close>; it may raise
  \<open>LinAlgError\<close>. The inner solves run with their default \<open>maxiter = 5\<close>. \<open>rank\<close>, \<open>d\<close>,
  \<open>season\<close> and \<open>maxiter\<close> are natural numbers.

  \<open>tmf\<close> stands in the section on temporal matrix factorization, whose \<open>update_cg\<close> is
  \<open>update_cg_ver\<close>. The name is looked up when \<open>tmf\<close> runs, so its binding is the parameter
  \<open>upd\<close>; \<open>tmf update_cg_ver\<close> is the function as its own section defines it. \<open>notmf\<close> and
  \<open>notmf_dic\<close> stand after the second \<open>update_cg\<close> and run with it.
\<close>

type_synonym fit_state = "fl mat option \<times> fl mat \<times> fl mat \<times> fl mat \<times> fl mat"

fun tmf_loop :: "cg_update \<Rightarrow> (fl mat \<Rightarrow> error + fl mat) \<Rightarrow> fl mat \<Rightarrow> bool mat \<Rightarrow> fl mat list
    \<Rightarrow> nat \<Rightarrow> nat \<Rightarrow> fl \<Rightarrow> fl \<Rightarrow> nat \<Rightarrow> fit_state \<Rightarrow> error + fit_state" where
  "tmf_loop upd pinv sparse_mat ind Psi rank d lambda0 rho 0 st = Inr st"
| "tmf_loop upd pinv sparse_mat ind Psi rank d lambda0 rho (Suc n) (mat_hat, W, X, A, temp) =
     ebind (conj_grad_w upd sparse_mat ind W X rho 5) (\<lambda>W.
     ebind (conj_grad_x upd sparse_mat ind W X A Psi d lambda0 rho 5) (\<lambda>X.
     ebind (stack_loop X Psi rank [1..<d + 1] temp) (\<lambda>temp.
     ebind (list_get Psi 0) (\<lambda>Psi0.
     ebind (matmul X (mT Psi0)) (\<lambda>XP.
     ebind (pinv temp) (\<lambda>P.
     ebind (matmul XP P) (\<lambda>A.
     ebind (matmul (mT W) X) (\<lambda>mat_hat.
     tmf_loop upd pinv sparse_mat ind Psi rank d lambda0 rho n
       (Some mat_hat, W, X, A, temp)))))))))"

definition tmf :: "cg_update \<Rightarrow> (nat \<Rightarrow> nat \<Rightarrow> nat \<Rightarrow> fl) \<Rightarrow> (fl mat \<Rightarrow> error + fl mat) \<Rightarrow> fl mat
    \<Rightarrow> nat \<Rightarrow> nat \<Rightarrow> fl \<Rightarrow> fl \<Rightarrow> nat \<Rightarrow> error + (fl mat \<times> fl mat \<times> fl mat \<times> fl mat)" where
  "tmf upd rnd pinv sparse_mat rank d lambda0 rho maxiter =
     (let dim1 = nrows sparse_mat; dim2 = ncols sparse_mat;
          ind = mk_mat dim1 dim2 (\<lambda>i j. elt sparse_mat i j \<noteq> 0);
          W = smul (Fin (1 / 100)) (mk_mat rank dim1 (rnd 0));
          X = smul (Fin (1 / 100)) (mk_mat rank dim2 (rnd 1));
          A = smul (Fin (1 / 100)) (mk_mat rank (d * rank) (rnd 2))
      in ebind (generate_Psi dim2 d) (\<lambda>Psi.
         let temp = zeros (d * rank) (dim2 - d)
         in ebind (tmf_loop upd pinv sparse_mat ind Psi rank d lambda0 rho maxiter
                     (None, W, X, A, temp)) (\<lambda>(mat_hat, W, X, A, temp).
            case mat_hat of
              None \<Rightarrow> Inl (UnboundLocalError ''mat_hat'')
            | Some mat_hat \<Rightarrow> Inr (mat_hat, W, X, A))))"

definition has_nan :: "fl mat \<Rightarrow> bool" where
  \<comment> \<open>\<open>np.isnan(M).any()\<close>\<close>
  "has_nan M = list_ex (list_ex isnan) (rows M)"

definition fill_nan :: "fl mat \<Rightarrow> fl mat" where
  \<comment> \<open>\<open>M[np.isnan(M)] = 0\<close>\<close>
  "fill_nan M = mk_mat (nrows M) (ncols M) (\<lambda>i j. if isnan (elt M i j) then 0 else elt M i j)"

text \<open>
  \<open>notmf\<close> reads \<open>dense_mat\<close> before its loop: \<open>pos_test\<close> holds the positions where
  \<open>dense_mat\<close> has an entry and \<open>sparse_mat\<close> has none, and \<open>dense_test\<close> the entries of
  \<open>dense_mat\<close> there. The comparison raises \<open>ValueError\<close> when the two shapes cannot be
  broadcast together, and the indexing raises \<open>IndexError\<close> when broadcasting has stretched
  \<open>dense_mat\<close> and a position lies outside it. Every hundredth round reads \<open>mat_hat\<close> at
  \<open>pos_test\<close> and prints two error measures; the reading is modelled, the printing is not.
  The two arguments are distinct arrays: setting the NaN entries of \<open>sparse_mat\<close> to zero
  leaves \<open>dense_mat\<close> as it is.
\<close>

fun notmf_loop :: "(fl mat \<Rightarrow> error + fl mat) \<Rightarrow> fl mat \<Rightarrow> bool mat \<Rightarrow> fl mat list
    \<Rightarrow> (nat \<times> nat) list \<Rightarrow> nat \<Rightarrow> nat \<Rightarrow> fl \<Rightarrow> fl \<Rightarrow> nat list \<Rightarrow> fit_state \<Rightarrow> error + fit_state" where
  "notmf_loop pinv sparse_mat ind Psi pos_test rank d lambda0 rho [] st = Inr st"
| "notmf_loop pinv sparse_mat ind Psi pos_test rank d lambda0 rho (it # its)
       (mat_hat, W, X, A, temp) =
     ebind (conj_grad_w update_cg sparse_mat ind W X rho 5) (\<lambda>W.
     ebind (conj_grad_x update_cg sparse_mat ind W X A Psi d lambda0 rho 5) (\<lambda>X.
     ebind (stack_loop X Psi rank [1..<d + 1] temp) (\<lambda>temp.
     ebind (list_get Psi 0) (\<lambda>Psi0.
     ebind (matmul X (mT Psi0)) (\<lambda>XP.
     ebind (pinv temp) (\<lambda>P.
     ebind (matmul XP P) (\<lambda>A.
     ebind (matmul (mT W) X) (\<lambda>mat_hat.
     ebind (if (it + 1) mod 100 = 0 then take_at mat_hat pos_test else Inr []) (\<lambda>temp_hat.
     notmf_loop pinv sparse_mat ind Psi pos_test rank d lambda0 rho its
       (Some mat_hat, W, X, A, temp))))))))))"

definition notmf :: "(nat \<Rightarrow> nat \<Rightarrow> nat \<Rightarrow> fl) \<Rightarrow> (fl mat \<Rightarrow> error + fl mat) \<Rightarrow> fl mat \<Rightarrow> fl mat
    \<Rightarrow> nat \<Rightarrow> nat \<Rightarrow> fl \<Rightarrow> fl \<Rightarrow> nat \<Rightarrow> nat
    \<Rightarrow> error + (fl mat \<times> fl mat \<times> fl mat \<times> fl mat)" where
  "notmf rnd pinv dense_mat sparse_mat rank d lambda0 rho season maxiter =
     (let dim1 = nrows sparse_mat; dim2 = ncols sparse_mat;
          W = smul (Fin (1 / 100)) (mk_mat rank dim1 (rnd 0));
          X = smul (Fin (1 / 100)) (mk_mat rank dim2 (rnd 1));
          A = smul (Fin (1 / 100)) (mk_mat rank (d * rank) (rnd 2))
      in ebind (if \<not> has_nan sparse_mat
                then ebind (np_and (\<lambda>a. a \<noteq> 0) (\<lambda>b. b = 0) dense_mat sparse_mat) (\<lambda>test.
                     Inr (mk_mat dim1 dim2 (\<lambda>i j. elt sparse_mat i j \<noteq> 0), where_true test,
                          sparse_mat))
                else ebind (np_and (\<lambda>a. a \<noteq> 0) isnan dense_mat sparse_mat) (\<lambda>test.
                     Inr (mk_mat dim1 dim2 (\<lambda>i j. \<not> isnan (elt sparse_mat i j)), where_true test,
                          fill_nan sparse_mat))) (\<lambda>(ind, pos_test, sparse_mat).
         ebind (take_at dense_mat pos_test) (\<lambda>dense_test.
         ebind (generate_Psi_season dim2 d season) (\<lambda>Psi.
         let temp = zeros (d * rank) (dim2 - d - season)
         in ebind (notmf_loop pinv sparse_mat ind Psi pos_test rank d lambda0 rho [0..<maxiter]
                     (None, W, X, A, temp)) (\<lambda>(mat_hat, W, X, A, temp).
            case mat_hat of
              None \<Rightarrow> Inl (UnboundLocalError ''mat_hat'')
            | Some mat_hat \<Rightarrow> Inr (mat_hat, W, X, A))))))"

definition notmf_dic :: "(fl mat \<Rightarrow> error + fl mat) \<Rightarrow> fl mat \<Rightarrow> fl mat \<Rightarrow> fl mat \<Rightarrow> fl mat \<Rightarrow> nat
    \<Rightarrow> fl \<Rightarrow> fl \<Rightarrow> nat \<Rightarrow> error + (fl mat \<times> fl mat)" where
  "notmf_dic pinv obs W X A d lambda0 rho season =
     (let dim1 = nrows obs; dim2 = ncols obs;
          rank = nrows X;
          ind = (if \<not> has_nan obs
                 then mk_mat dim1 dim2 (\<lambda>i j. elt obs i j \<noteq> 0)
                 else mk_mat dim1 dim2 (\<lambda>i j. \<not> isnan (elt obs i j)));
          obs = (if \<not> has_nan obs then obs else fill_nan obs)
      in ebind (generate_Psi_season dim2 d season) (\<lambda>Psi.
         ebind (conj_grad_x update_cg obs ind W X A Psi d lambda0 rho 5) (\<lambda>X.
         ebind (stack_loop X Psi rank [1..<d + 1] (zeros (d * rank) (dim2 - d - season))) (\<lambda>temp.
         ebind (list_get Psi 0) (\<lambda>Psi0.
         ebind (matmul X (mT Psi0)) (\<lambda>XP.
         ebind (pinv temp) (\<lambda>P.
         ebind (matmul XP P) (\<lambda>A.
         Inr (X, A)))))))))"

section \<open>Forecasting\<close>

definition py_index :: "nat \<Rightarrow> int \<Rightarrow> error + nat" where
  \<comment> \<open>an index on an axis of length \<open>n\<close>: a negative index counts from the end\<close>
  "py_index n i =
     (if 0 \<le> i \<and> i < int n then Inr (nat i)
      else if - int n \<le> i \<and> i < 0 then Inr (nat (int n + i))
      else Inl IndexError)"

fun gather_cols :: "fl mat \<Rightarrow> int list \<Rightarrow> error + fl list" where
  \<comment> \<open>\<open>M[:, cs].T.reshape(-1)\<close>: the chosen columns one after the other\<close>
  "gather_cols M [] = Inr []"
| "gather_cols M (c # cs) =
     ebind (py_index (ncols M) c) (\<lambda>j.
     ebind (gather_cols M cs) (\<lambda>v.
     Inr (col M j @ v)))"

definition lags :: "int \<Rightarrow> nat \<Rightarrow> int list" where
  \<comment> \<open>\<open>c - np.arange(1, d + 1)\<close>\<close>
  "lags c d = map (\<lambda>k. c - int k) [1..<d + 1]"

definition last_cols :: "'a mat \<Rightarrow> nat \<Rightarrow> 'a mat" where
  \<comment> \<open>\<open>M[:, - delta :]\<close>: the start \<open>-0\<close> is the start \<open>0\<close>\<close>
  "last_cols M delta = slice_cols M (if delta = 0 then 0 else ncols M - delta) (ncols M)"

fun var4cast_loop :: "fl mat \<Rightarrow> nat \<Rightarrow> nat \<Rightarrow> nat list \<Rightarrow> fl mat \<Rightarrow> error + fl mat" where
  "var4cast_loop A d dim2 [] X_hat = Inr X_hat"
| "var4cast_loop A d dim2 (t # ts) X_hat =
     ebind (gather_cols X_hat (lags (int dim2 + int t) d)) (\<lambda>v.
     ebind (matvec A v) (\<lambda>y.
     ebind (assign_col X_hat (dim2 + t) y) (\<lambda>X_hat.
     var4cast_loop A d dim2 ts X_hat)))"

definition var4cast :: "fl mat \<Rightarrow> fl mat \<Rightarrow> nat \<Rightarrow> nat \<Rightarrow> error + fl mat" where
  "var4cast X A d delta =
     (let dim1 = nrows X; dim2 = ncols X;
          X_hat = hstack X (zeros dim1 delta)
      in ebind (var4cast_loop A d dim2 [0..<delta] X_hat) (\<lambda>X_hat.
         Inr (last_cols X_hat delta)))"

text \<open>
  The seasonal \<open>var4cast\<close>. With \<open>season = 0\<close> the slice \<open>X[:, : -season]\<close> is
  \<open>X[:, :0]\<close>, which has no column, while \<open>X[:, season:]\<close> is all of \<open>X\<close>: the
  subtraction raises \<open>ValueError\<close> unless \<open>X\<close> has at most one column, and then broadcasting
  gives an array with no column.
\<close>

definition py_stop :: "nat \<Rightarrow> int \<Rightarrow> nat" where
  \<comment> \<open>a bound \<open>k\<close> of a slice on an axis of length \<open>n\<close>\<close>
  "py_stop n k = (if k < 0 then nat (max (int n + k) 0) else min (nat k) n)"

definition cols_upto :: "'a mat \<Rightarrow> int \<Rightarrow> 'a mat" where
  \<comment> \<open>\<open>M[:, : k]\<close>\<close>
  "cols_upto M k = slice_cols M 0 (py_stop (ncols M) k)"

fun season_loop1 :: "fl mat \<Rightarrow> nat \<Rightarrow> int \<Rightarrow> nat list \<Rightarrow> fl mat \<Rightarrow> error + fl mat" where
  "season_loop1 A d base [] X_hat = Inr X_hat"
| "season_loop1 A d base (t # ts) X_hat =
     ebind (gather_cols X_hat (lags (base + int t) d)) (\<lambda>v.
     ebind (matvec A v) (\<lambda>y.
     ebind (py_index (ncols X_hat) (base + int t)) (\<lambda>c.
     ebind (assign_col X_hat c y) (\<lambda>X_hat.
     season_loop1 A d base ts X_hat))))"

fun season_loop2 :: "nat \<Rightarrow> int \<Rightarrow> nat list \<Rightarrow> fl mat \<Rightarrow> fl mat \<Rightarrow> error + fl mat" where
  "season_loop2 dim2 base [] X_hat X = Inr X"
| "season_loop2 dim2 base (t # ts) X_hat X =
     ebind (py_index (ncols X) (base + int t)) (\<lambda>c.
     ebind (py_index (ncols X_hat) (base + int t)) (\<lambda>c'.
     ebind (np_add1 (col X c) (col X_hat c')) (\<lambda>y.
     ebind (assign_col X (dim2 + t) y) (\<lambda>X.
     season_loop2 dim2 base ts X_hat X))))"

definition var4cast_season :: "fl mat \<Rightarrow> fl mat \<Rightarrow> nat \<Rightarrow> nat \<Rightarrow> nat \<Rightarrow> error + fl mat" where
  "var4cast_season X A d delta season =
     (let dim1 = nrows X; dim2 = ncols X
      in ebind (np_sub (slice_cols X season dim2) (cols_upto X (- int season))) (\<lambda>diff.
         let X_hat = hstack diff (zeros dim1 delta)
         in ebind (season_loop1 A d (int dim2 - int season) [0..<delta] X_hat) (\<lambda>X_hat.
            let X = hstack X (zeros dim1 delta)
            in season_loop2 dim2 (int dim2 - int season) [0..<delta] X_hat X)))"

section \<open>Rolling forecasts\<close>

definition write_back :: "fl mat \<Rightarrow> int \<Rightarrow> fl mat" where
  \<comment> \<open>\<open>M[:, : k]\<close> is a view: when a callee sets the NaN entries of the view to zero, the
      entries of \<open>M\<close> change\<close>
  "write_back M k =
     (if has_nan (cols_upto M k)
      then set_cols M 0 (py_stop (ncols M) k) (fill_nan (cols_upto M k))
      else M)"

text \<open>
  The loop of \<open>rolling4cast\<close>. \<open>W\<close>, \<open>X\<close>, \<open>A\<close> and \<open>X_new\<close> have no value before the round
  \<open>t = 0\<close>. The progress bar is left out.
\<close>

type_synonym roll_vars = "fl mat \<times> fl mat \<times> fl mat \<times> fl mat"

type_synonym roll_state = "fl mat \<times> fl mat \<times> roll_vars option"

fun rolling_loop :: "(nat \<Rightarrow> nat \<Rightarrow> nat \<Rightarrow> fl) \<Rightarrow> (fl mat \<Rightarrow> error + fl mat) \<Rightarrow> fl mat \<Rightarrow> int \<Rightarrow> nat
    \<Rightarrow> nat \<Rightarrow> nat \<Rightarrow> fl \<Rightarrow> fl \<Rightarrow> nat \<Rightarrow> nat \<Rightarrow> nat list \<Rightarrow> roll_state \<Rightarrow> error + roll_state" where
  "rolling_loop rnd pinv dense_mat start_time delta rank d lambda0 rho season maxiter [] st =
     Inr st"
| "rolling_loop rnd pinv dense_mat start_time delta rank d lambda0 rho season maxiter (t # ts)
       (mat_hat, sparse_mat, vars) =
     ebind (if t = 0
            then ebind (notmf rnd pinv (cols_upto dense_mat start_time)
                          (cols_upto sparse_mat start_time) rank d lambda0 rho season maxiter)
                   (\<lambda>(mat_hat0, W, X, A). Inr (W, X, A, write_back sparse_mat start_time))
            else (case vars of
                    None \<Rightarrow> Inl (UnboundLocalError ''W'')
                  | Some (W, X, A, X_new) \<Rightarrow>
                      ebind (notmf_dic pinv
                               (cols_upto sparse_mat (start_time + int t * int delta))
                               W X_new A d lambda0 rho season)
                        (\<lambda>(X, A). Inr (W, X, A,
                                       write_back sparse_mat (start_time + int t * int delta)))))
       (\<lambda>(W, X, A, sparse_mat).
     ebind (var4cast_season X A d delta season) (\<lambda>X_new.
     ebind (matmul (mT W) (last_cols X_new delta)) (\<lambda>B.
     ebind (assign_cols mat_hat (t * delta) ((t + 1) * delta) B) (\<lambda>mat_hat.
     rolling_loop rnd pinv dense_mat start_time delta rank d lambda0 rho season maxiter ts
       (mat_hat, sparse_mat, Some (W, X, A, X_new))))))"

text \<open>
  After its loop \<open>rolling4cast\<close> compares the forecasts with the columns of \<open>dense_mat\<close> it
  held out. \<open>held_out\<close> is the pair \<open>(small_dense_mat[pos], mat_hat[pos])\<close> that is handed to
  \<open>compute_mape\<close> and to \<open>compute_rmse\<close>; reading \<open>mat_hat\<close> at \<open>pos\<close> raises \<open>IndexError\<close>
  for a position outside \<open>mat_hat\<close>. The two error measures are numpy arithmetic on that
  pair, which raises nothing, and they are printed, not returned.
\<close>

definition held_out :: "fl mat \<Rightarrow> int \<Rightarrow> nat \<Rightarrow> fl mat \<Rightarrow> error + (fl list \<times> fl list)" where
  "held_out dense_mat start_time T mat_hat =
     (let small_dense_mat = slice_cols dense_mat (py_stop (ncols dense_mat) start_time)
                              (py_stop (ncols dense_mat) (int T));
          pos = where_true (mk_mat (nrows small_dense_mat) (ncols small_dense_mat)
                  (\<lambda>i j. elt small_dense_mat i j \<noteq> 0 \<and> \<not> isnan (elt small_dense_mat i j)))
      in ebind (take_at small_dense_mat pos) (\<lambda>var.
         ebind (take_at mat_hat pos) (\<lambda>var_hat.
         Inr (var, var_hat))))"

definition rolling4cast :: "(nat \<Rightarrow> nat \<Rightarrow> nat \<Rightarrow> fl) \<Rightarrow> (fl mat \<Rightarrow> error + fl mat) \<Rightarrow> fl mat
    \<Rightarrow> fl mat \<Rightarrow> nat \<Rightarrow> nat \<Rightarrow> nat \<Rightarrow> nat \<Rightarrow> fl \<Rightarrow> fl \<Rightarrow> nat \<Rightarrow> nat
    \<Rightarrow> error + (fl mat \<times> fl mat \<times> fl mat \<times> fl mat)" where
  "rolling4cast rnd pinv dense_mat sparse_mat pred_step delta rank d lambda0 rho season maxiter =
     (let dim1 = nrows sparse_mat; T = ncols sparse_mat;
          start_time = int T - int pred_step
      in if delta = 0 then Inl ZeroDivisionError
         else
           (let max_count = (pred_step + delta - 1) div delta;
                mat_hat = zeros dim1 (max_count * delta)
            in ebind (rolling_loop rnd pinv dense_mat start_time delta rank d lambda0 rho season
                        maxiter [0..<max_count] (mat_hat, sparse_mat, None))
                 (\<lambda>(mat_hat, sparse_mat, vars).
               ebind (held_out dense_mat start_time T mat_hat) (\<lambda>scored.
               case vars of
                 None \<Rightarrow> Inl (UnboundLocalError ''W'')
               | Some (W, X, A, X_new) \<Rightarrow> Inr (mat_hat, W, X, A)))))"

section \<open>The closed form of the coefficient update\<close>



section \<open>Sample inputs\<close>

text \<open>
  Stand-ins for the random draws and for \<open>np.linalg.pinv\<close> in the sample runs. The theorems
  hold for every \<open>rnd\<close> and every \<open>pinv\<close>.
\<close>

definition rnd_demo :: "nat \<Rightarrow> nat \<Rightarrow> nat \<Rightarrow> fl" where
  "rnd_demo k i j = Fin (of_nat (k + i + j + 1))"

definition pinv_demo :: "fl mat \<Rightarrow> error + fl mat" where
  "pinv_demo M = Inr (mT M)"

definition demo6 :: "fl mat" where
  "demo6 = \<lparr>nrows = 1, ncols = 6, rows = [[Fin 1, Fin 2, Fin 3, Fin 5, Fin 4, Fin 7]]\<rparr>"

text \<open>
  One series of three observations with its indicator, a \<open>1 \<times> 1\<close> factor, and the two
  operators of order \<open>d = 1\<close> on three time steps.
\<close>

definition obs3 :: "fl mat" where
  "obs3 = \<lparr>nrows = 1, ncols = 3, rows = [[Fin 1, Fin 2, Fin 3]]\<rparr>"

definition ind3 :: "bool mat" where
  "ind3 = \<lparr>nrows = 1, ncols = 3, rows = [[True, True, True]]\<rparr>"

definition one1 :: "fl mat" where
  "one1 = \<lparr>nrows = 1, ncols = 1, rows = [[Fin 1]]\<rparr>"

definition psi3 :: "fl mat list" where
  "psi3 = [\<lparr>nrows = 2, ncols = 3, rows = [[Fin 0, Fin 1, Fin 0], [Fin 0, Fin 0, Fin 1]]\<rparr>,
           \<lparr>nrows = 2, ncols = 3, rows = [[Fin 1, Fin 0, Fin 0], [Fin 0, Fin 1, Fin 0]]\<rparr>]"

text \<open>
  One observed entry \<open>2\<close> with its indicator, the zero factor, and the coefficients and the
  operator of order \<open>d = 0\<close> on one time step.
\<close>

definition two1 :: "fl mat" where
  "two1 = \<lparr>nrows = 1, ncols = 1, rows = [[Fin 2]]\<rparr>"

definition zero1 :: "fl mat" where
  "zero1 = \<lparr>nrows = 1, ncols = 1, rows = [[Fin 0]]\<rparr>"

definition true1 :: "bool mat" where
  "true1 = \<lparr>nrows = 1, ncols = 1, rows = [[True]]\<rparr>"

definition no_lags :: "fl mat" where
  "no_lags = \<lparr>nrows = 1, ncols = 0, rows = [[]]\<rparr>"

section \<open>Shapes that fit\<close>

text \<open>
  The shapes of the arrays of a fit: \<open>W\<close> is \<open>R \<times> N\<close>, \<open>X\<close> is \<open>R \<times> T\<close>, the data and the
  indicator are \<open>N \<times> T\<close>, \<open>A\<close> is \<open>R \<times> d R\<close>, and the \<open>d + 1\<close> operators have one height and
  the width \<open>T\<close>. The pseudoinverse of an \<open>m \<times> n\<close> array is \<open>n \<times> m\<close>.
\<close>

definition w_fits :: "fl mat \<Rightarrow> bool mat \<Rightarrow> fl mat \<Rightarrow> fl mat \<Rightarrow> bool" where
  "w_fits sparse_mat ind W X =
     (nrows X = nrows W \<and> nrows sparse_mat = ncols W \<and> ncols sparse_mat = ncols X
      \<and> nrows ind = ncols W \<and> ncols ind = ncols X)"

definition psi_fits :: "fl mat list \<Rightarrow> nat \<Rightarrow> nat \<Rightarrow> nat \<Rightarrow> bool" where
  "psi_fits Psi d n T =
     (length Psi = d + 1 \<and> list_all (\<lambda>P. nrows P = n \<and> ncols P = T) Psi)"

definition x_fits :: "fl mat \<Rightarrow> bool mat \<Rightarrow> fl mat \<Rightarrow> fl mat \<Rightarrow> fl mat \<Rightarrow> fl mat list \<Rightarrow> nat
    \<Rightarrow> bool" where
  "x_fits sparse_mat ind W X A Psi d =
     (w_fits sparse_mat ind W X \<and> nrows A = nrows X \<and> ncols A = d * nrows X
      \<and> psi_fits Psi d (nrows (hd Psi)) (ncols X))"

definition fit_fits :: "fl mat \<Rightarrow> bool mat \<Rightarrow> fl mat list \<Rightarrow> nat \<Rightarrow> nat \<Rightarrow> fit_state \<Rightarrow> bool" where
  "fit_fits sparse_mat ind Psi rank d st =
     (case st of (mat_hat, W, X, A, temp) \<Rightarrow>
        nrows W = rank \<and> x_fits sparse_mat ind W X A Psi d
        \<and> nrows temp = d * rank \<and> ncols temp = nrows (hd Psi))"

definition pinv_shape :: "(fl mat \<Rightarrow> error + fl mat) \<Rightarrow> bool" where
  "pinv_shape pinv = (\<forall>M P. pinv M = Inr P \<longrightarrow> nrows P = ncols M \<and> ncols P = nrows M)"

section \<open>Loop invariants\<close>

text \<open>
  The state of the loop of \<open>var4cast\<close> after \<open>n\<close> rounds: the array keeps its shape and the
  columns of \<open>X\<close>, and each column filled so far is \<open>A\<close> applied to the \<open>d\<close> columns before
  it, the nearest first.
\<close>

definition forecast_inv :: "fl mat \<Rightarrow> fl mat \<Rightarrow> nat \<Rightarrow> nat \<Rightarrow> nat \<Rightarrow> fl mat \<Rightarrow> bool" where
  "forecast_inv X A d delta n H =
     (nrows H = nrows X \<and> ncols H = ncols X + delta
      \<and> (\<forall>j < ncols X. col H j = col X j)
      \<and> (\<forall>t < n. col H (ncols X + t)
             = mvprod A (concat (map (\<lambda>k. col H (ncols X + t - k)) [1..<d + 1]))))"


section \<open>Facts about arrays\<close>

lemma nrows_mk_mat [simp]: "nrows (mk_mat r c f) = r"
  by (simp add: mk_mat_def)

lemma ncols_mk_mat [simp]: "ncols (mk_mat r c f) = c"
  by (simp add: mk_mat_def)

lemma elt_mk_mat [simp]: "i < r \<Longrightarrow> j < c \<Longrightarrow> elt (mk_mat r c f) i j = f i j"
  by (simp add: mk_mat_def elt_def)

lemma wf_mk_mat [simp]: "wf_mat (mk_mat r c f)"
  by (simp add: mk_mat_def wf_mat_def list_all_iff)

lemma mk_mat_cong:
  assumes "\<And>i j. i < r \<Longrightarrow> j < c \<Longrightarrow> f i j = g i j"
  shows "mk_mat r c f = mk_mat r c g"
  using assms by (simp add: mk_mat_def)

lemma mk_mat_elt:
  assumes "wf_mat M"
  shows "mk_mat (nrows M) (ncols M) (elt M) = M"
proof -
  have len: "length (rows M) = nrows M"
    and row: "\<And>i. i < nrows M \<Longrightarrow> length (rows M ! i) = ncols M"
    using assms by (auto simp: wf_mat_def list_all_iff)
  have "map (\<lambda>i. map (elt M i) [0..<ncols M]) [0..<nrows M] = rows M"
  proof (rule nth_equalityI)
    show "length (map (\<lambda>i. map (elt M i) [0..<ncols M]) [0..<nrows M]) = length (rows M)"
      by (simp add: len)
  next
    fix i assume "i < length (map (\<lambda>i. map (elt M i) [0..<ncols M]) [0..<nrows M])"
    then have i: "i < nrows M" by simp
    have "map (elt M i) [0..<ncols M] = rows M ! i"
      by (rule nth_equalityI) (simp_all add: row [OF i] elt_def)
    with i show "map (\<lambda>i. map (elt M i) [0..<ncols M]) [0..<nrows M] ! i = rows M ! i"
      by simp
  qed
  then show ?thesis
    by (simp add: mk_mat_def)
qed

lemma concat_nth_uniform:
  "\<forall>x \<in> set xs. length x = r \<Longrightarrow> j < length xs \<Longrightarrow> i < r
    \<Longrightarrow> concat xs ! (j * r + i) = xs ! j ! i"
proof (induction xs arbitrary: j)
  case Nil
  then show ?case by simp
next
  case (Cons x xs)
  show ?case
  proof (cases j)
    case 0
    with Cons.prems show ?thesis by (simp add: nth_append)
  next
    case (Suc k)
    with Cons.prems have "concat xs ! (k * r + i) = xs ! k ! i"
      by (intro Cons.IH) auto
    moreover have "length x = r" using Cons.prems by simp
    ultimately show ?thesis using Suc by (simp add: nth_append)
  qed
qed

lemma length_col [simp]: "length (col M j) = nrows M"
  by (simp add: col_def)

lemma col_nth [simp]: "i < nrows M \<Longrightarrow> col M j ! i = elt M i j"
  by (simp add: col_def)

lemma unvecF_vecF:
  assumes "wf_mat M"
  shows "unvecF (vecF M) (nrows M) (ncols M) = M"
proof -
  have "mk_mat (nrows M) (ncols M) (\<lambda>i j. vecF M ! (j * nrows M + i))
        = mk_mat (nrows M) (ncols M) (elt M)"
  proof (rule mk_mat_cong)
    fix i j assume ij: "i < nrows M" "j < ncols M"
    have "concat (map (col M) [0..<ncols M]) ! (j * nrows M + i)
          = map (col M) [0..<ncols M] ! j ! i"
      by (rule concat_nth_uniform) (use ij in auto)
    with ij show "vecF M ! (j * nrows M + i) = elt M i j"
      by (simp add: vecF_def)
  qed
  then show ?thesis
    by (simp add: unvecF_def mk_mat_elt [OF assms])
qed

lemma nrows_zeros [simp]: "nrows (zeros r c) = r"
  by (simp add: zeros_def)

lemma ncols_zeros [simp]: "ncols (zeros r c) = c"
  by (simp add: zeros_def)

lemma wf_zeros [simp]: "wf_mat (zeros r c)"
  by (simp add: zeros_def)

lemma elt_zeros [simp]: "i < r \<Longrightarrow> j < c \<Longrightarrow> elt (zeros r c) i j = 0"
  by (simp add: zeros_def)

lemma nrows_eye [simp]: "nrows (eye n) = n"
  by (simp add: eye_def)

lemma ncols_eye [simp]: "ncols (eye n) = n"
  by (simp add: eye_def)

lemma elt_eye [simp]: "i < n \<Longrightarrow> j < n \<Longrightarrow> elt (eye n) i j = (if i = j then 1 else 0)"
  by (simp add: eye_def)

lemma nrows_mT [simp]: "nrows (mT A) = ncols A"
  by (simp add: mT_def)

lemma ncols_mT [simp]: "ncols (mT A) = nrows A"
  by (simp add: mT_def)

lemma wf_mT [simp]: "wf_mat (mT A)"
  by (simp add: mT_def)

lemma nrows_mprod [simp]: "nrows (mprod A B) = nrows A"
  by (simp add: mprod_def)

lemma ncols_mprod [simp]: "ncols (mprod A B) = ncols B"
  by (simp add: mprod_def)

lemma wf_mprod [simp]: "wf_mat (mprod A B)"
  by (simp add: mprod_def)

lemma length_mvprod [simp]: "length (mvprod A v) = nrows A"
  by (simp add: mvprod_def)

lemma nrows_madd [simp]: "nrows (madd A B) = nrows A"
  by (simp add: madd_def)

lemma ncols_madd [simp]: "ncols (madd A B) = ncols A"
  by (simp add: madd_def)

lemma wf_madd [simp]: "wf_mat (madd A B)"
  by (simp add: madd_def)

lemma elt_madd [simp]:
  "i < nrows A \<Longrightarrow> j < ncols A \<Longrightarrow> elt (madd A B) i j = elt A i j + elt B i j"
  by (simp add: madd_def)

lemma nrows_msub [simp]: "nrows (msub A B) = nrows A"
  by (simp add: msub_def)

lemma ncols_msub [simp]: "ncols (msub A B) = ncols A"
  by (simp add: msub_def)

lemma wf_msub [simp]: "wf_mat (msub A B)"
  by (simp add: msub_def)

lemma nrows_smul [simp]: "nrows (smul s A) = nrows A"
  by (simp add: smul_def)

lemma ncols_smul [simp]: "ncols (smul s A) = ncols A"
  by (simp add: smul_def)

lemma wf_smul [simp]: "wf_mat (smul s A)"
  by (simp add: smul_def)

lemma elt_smul [simp]: "i < nrows A \<Longrightarrow> j < ncols A \<Longrightarrow> elt (smul s A) i j = s * elt A i j"
  by (simp add: smul_def)

lemma nrows_mul_ind [simp]: "nrows (mul_ind A ind) = nrows A"
  by (simp add: mul_ind_def)

lemma ncols_mul_ind [simp]: "ncols (mul_ind A ind) = ncols A"
  by (simp add: mul_ind_def)

lemma wf_mul_ind [simp]: "wf_mat (mul_ind A ind)"
  by (simp add: mul_ind_def)

lemma nrows_hstack [simp]: "nrows (hstack A B) = nrows A"
  by (simp add: hstack_def)

lemma ncols_hstack [simp]: "ncols (hstack A B) = ncols A + ncols B"
  by (simp add: hstack_def)

lemma wf_hstack [simp]: "wf_mat (hstack A B)"
  by (simp add: hstack_def)

lemma elt_hstack:
  "i < nrows A \<Longrightarrow> j < ncols A + ncols B
    \<Longrightarrow> elt (hstack A B) i j = (if j < ncols A then elt A i j else elt B i (j - ncols A))"
  by (simp add: hstack_def)

lemma nrows_slice_cols [simp]: "nrows (slice_cols M a b) = nrows M"
  by (simp add: slice_cols_def)

lemma ncols_slice_cols [simp]: "ncols (slice_cols M a b) = min b (ncols M) - min a (ncols M)"
  by (simp add: slice_cols_def)

lemma wf_slice_cols [simp]: "wf_mat (slice_cols M a b)"
  by (simp add: slice_cols_def)

lemma nrows_set_rows [simp]: "nrows (set_rows M a b B) = nrows M"
  by (simp add: set_rows_def)

lemma ncols_set_rows [simp]: "ncols (set_rows M a b B) = ncols M"
  by (simp add: set_rows_def)

lemma wf_set_rows [simp]: "wf_mat (set_rows M a b B)"
  by (simp add: set_rows_def)


lemma nrows_set_cols [simp]: "nrows (set_cols M a b B) = nrows M"
  by (simp add: set_cols_def)

lemma ncols_set_cols [simp]: "ncols (set_cols M a b B) = ncols M"
  by (simp add: set_cols_def)

lemma wf_set_cols [simp]: "wf_mat (set_cols M a b B)"
  by (simp add: set_cols_def)

lemma elt_set_cols:
  "i < nrows M \<Longrightarrow> c < ncols M
    \<Longrightarrow> elt (set_cols M a b B) i c = (if a \<le> c \<and> c < b then elt B i (c - a) else elt M i c)"
  by (simp add: set_cols_def)

lemma nrows_set_col [simp]: "nrows (set_col M c v) = nrows M"
  by (simp add: set_col_def)

lemma ncols_set_col [simp]: "ncols (set_col M c v) = ncols M"
  by (simp add: set_col_def)

lemma wf_set_col [simp]: "wf_mat (set_col M c v)"
  by (simp add: set_col_def)

lemma nrows_unvecF [simp]: "nrows (unvecF v r c) = r"
  by (simp add: unvecF_def)

lemma ncols_unvecF [simp]: "ncols (unvecF v r c) = c"
  by (simp add: unvecF_def)

lemma wf_unvecF [simp]: "wf_mat (unvecF v r c)"
  by (simp add: unvecF_def)

lemma length_concat_uniform:
  "\<forall>x \<in> set xs. length x = r \<Longrightarrow> length (concat xs) = length xs * r"
  by (induction xs) simp_all

lemma length_vecF [simp]: "length (vecF M) = ncols M * nrows M"
proof -
  have "length (concat (map (col M) [0..<ncols M])) = length (map (col M) [0..<ncols M]) * nrows M"
    by (rule length_concat_uniform) simp
  then show ?thesis
    by (simp add: vecF_def)
qed

lemma length_vadd [simp]: "length (vadd u v) = min (length u) (length v)"
  by (simp add: vadd_def)

lemma length_vsub [simp]: "length (vsub u v) = min (length u) (length v)"
  by (simp add: vsub_def)

lemma length_vsmul [simp]: "length (vsmul s v) = length v"
  by (simp add: vsmul_def)

lemma mat_eqI:
  assumes "wf_mat A" "wf_mat B" "nrows A = nrows B" "ncols A = ncols B"
    and "\<And>i j. i < nrows A \<Longrightarrow> j < ncols A \<Longrightarrow> elt A i j = elt B i j"
  shows "A = B"
proof -
  have "A = mk_mat (nrows A) (ncols A) (elt A)"
    by (rule mk_mat_elt [OF assms(1), symmetric])
  also have "\<dots> = mk_mat (nrows A) (ncols A) (elt B)"
    by (rule mk_mat_cong) (rule assms(5))
  also have "\<dots> = mk_mat (nrows B) (ncols B) (elt B)"
    by (simp only: assms(3,4))
  also have "\<dots> = B"
    by (rule mk_mat_elt [OF assms(2)])
  finally show ?thesis .
qed

section \<open>Facts about the shape checks\<close>

lemma ebind_Inr [simp]: "ebind (Inr x) f = f x"
  by (simp add: ebind_def)

lemma ebind_Inl [simp]: "ebind (Inl e) f = Inl e"
  by (simp add: ebind_def)

lemma ebind_eq_Inr: "(ebind m f = Inr y) = (\<exists>x. m = Inr x \<and> f x = Inr y)"
  by (cases m) simp_all

lemma ebind_returns: "m = Inr x \<Longrightarrow> f x = Inr y \<Longrightarrow> ebind m f = Inr y"
  by simp

lemma bdim_same [simp]: "bdim a a = Inr a"
  by (simp add: bdim_def)

lemma fits_into_same [simp]: "fits_into a a"
  by (simp add: fits_into_def)

lemma nrows_bcast [simp]: "nrows (bcast M r c) = r"
  by (simp add: bcast_def)

lemma ncols_bcast [simp]: "ncols (bcast M r c) = c"
  by (simp add: bcast_def)

lemma wf_bcast [simp]: "wf_mat (bcast M r c)"
  by (simp add: bcast_def)

lemma stretch_same: "i < n \<Longrightarrow> (if n = 1 then 0 else i) = (i::nat)"
  by auto

lemma elt_bcast_same:
  "i < nrows M \<Longrightarrow> j < ncols M \<Longrightarrow> elt (bcast M (nrows M) (ncols M)) i j = elt M i j"
  by (simp add: bcast_def stretch_same del: One_nat_def)

lemma elt_bcast_fit:
  "nrows M = r \<Longrightarrow> ncols M = c \<Longrightarrow> i < r \<Longrightarrow> j < c \<Longrightarrow> elt (bcast M r c) i j = elt M i j"
  using elt_bcast_same [of i M j] by simp

lemma bcast_same: "wf_mat M \<Longrightarrow> bcast M (nrows M) (ncols M) = M"
  by (rule mat_eqI) (simp_all add: elt_bcast_same)

lemma bcast1_same [simp]: "bcast1 v (length v) = v"
proof (cases "length v = 1")
  case True
  then obtain x where "v = [x]"
    by (cases v) simp_all
  then show ?thesis
    by (simp add: bcast1_def)
next
  case False
  then show ?thesis
    by (simp add: bcast1_def)
qed

lemma length_bcast1: "fits_into (length v) n \<Longrightarrow> length (bcast1 v n) = n"
  by (auto simp: bcast1_def fits_into_def)

lemma matmul_fits: "ncols A = nrows B \<Longrightarrow> matmul A B = Inr (mprod A B)"
  by (simp add: matmul_def)


lemma matvec_fits: "ncols A = length v \<Longrightarrow> matvec A v = Inr (mvprod A v)"
  by (simp add: matvec_def)

lemma matvec_Inr: "(matvec A v = Inr y) = (ncols A = length v \<and> y = mvprod A v)"
  by (auto simp: matvec_def)

lemma inner_fits: "length u = length v \<Longrightarrow> inner u v = Inr (dot u v)"
  by (simp add: inner_def)

lemma inner_self [simp]: "inner u u = Inr (dot u u)"
  by (simp add: inner_def)

lemma inner_Inr: "(inner u v = Inr x) = (length u = length v \<and> x = dot u v)"
  by (auto simp: inner_def)

lemma madd_bcast_same:
  "nrows A = nrows B \<Longrightarrow> ncols A = ncols B
    \<Longrightarrow> madd (bcast A (nrows A) (ncols A)) (bcast B (nrows A) (ncols A)) = madd A B"
  unfolding madd_def by (simp, rule mk_mat_cong) (simp add: elt_bcast_fit)

lemma msub_bcast_same:
  "nrows A = nrows B \<Longrightarrow> ncols A = ncols B
    \<Longrightarrow> msub (bcast A (nrows A) (ncols A)) (bcast B (nrows A) (ncols A)) = msub A B"
  unfolding msub_def by (simp, rule mk_mat_cong) (simp add: elt_bcast_fit)

lemma mul_ind_bcast_same:
  "nrows A = nrows B \<Longrightarrow> ncols A = ncols B
    \<Longrightarrow> mul_ind (bcast A (nrows A) (ncols A)) (bcast B (nrows A) (ncols A)) = mul_ind A B"
  unfolding mul_ind_def by (simp, rule mk_mat_cong) (simp add: elt_bcast_fit)

lemma np_add_fits: "nrows A = nrows B \<Longrightarrow> ncols A = ncols B \<Longrightarrow> np_add A B = Inr (madd A B)"
  using madd_bcast_same [of A B] by (simp add: np_add_def)

lemma np_sub_fits: "nrows A = nrows B \<Longrightarrow> ncols A = ncols B \<Longrightarrow> np_sub A B = Inr (msub A B)"
  using msub_bcast_same [of A B] by (simp add: np_sub_def)

lemma np_mul_ind_fits:
  "nrows A = nrows ind \<Longrightarrow> ncols A = ncols ind \<Longrightarrow> np_mul_ind A ind = Inr (mul_ind A ind)"
  using mul_ind_bcast_same [of A ind] by (simp add: np_mul_ind_def)

lemma np_add1_fits: "length u = length v \<Longrightarrow> np_add1 u v = Inr (vadd u v)"
  using bcast1_same [of u] bcast1_same [of v] by (simp add: np_add1_def)

lemma np_sub1_fits: "length u = length v \<Longrightarrow> np_sub1 u v = Inr (vsub u v)"
  using bcast1_same [of u] bcast1_same [of v] by (simp add: np_sub1_def)

lemma reshapeF_fits: "length v = r * c \<Longrightarrow> reshapeF v r c = Inr (unvecF v r c)"
  by (simp add: reshapeF_def)

lemma reshapeF_Inr: "(reshapeF v r c = Inr M) = (length v = r * c \<and> M = unvecF v r c)"
  by (auto simp: reshapeF_def)

lemma list_get_fits: "k < length xs \<Longrightarrow> list_get xs k = Inr (xs ! k)"
  by (simp add: list_get_def)


lemma iadd_fits:
  "nrows B = nrows M \<Longrightarrow> ncols B = ncols M \<Longrightarrow> iadd M B = Inr (madd M B)"
proof -
  assume s: "nrows B = nrows M" "ncols B = ncols M"
  have "madd M (bcast B (nrows M) (ncols M)) = madd M B"
    unfolding madd_def by (rule mk_mat_cong) (simp add: elt_bcast_fit s)
  with s show ?thesis
    by (simp add: iadd_def)
qed

lemma assign_rows_fits:
  assumes "wf_mat B" "nrows B = b - a" "ncols B = ncols M" "a \<le> b" "b \<le> nrows M"
  shows "assign_rows M a b B = Inr (set_rows M a b B)"
proof -
  have r: "min b (nrows M) - min a (nrows M) = b - a"
    using assms(4,5) by simp
  have "bcast B (b - a) (ncols M) = B"
    using bcast_same [OF assms(1)] assms(2,3) by simp
  then show ?thesis
    using assms(2,3) by (simp add: assign_rows_def Let_def r)
qed

lemma assign_cols_fits:
  assumes "wf_mat B" "nrows B = nrows M" "ncols B = b - a" "a \<le> b" "b \<le> ncols M"
  shows "assign_cols M a b B = Inr (set_cols M a b B)"
proof -
  have c: "min b (ncols M) - min a (ncols M) = b - a"
    using assms(4,5) by simp
  have "bcast B (nrows M) (b - a) = B"
    using bcast_same [OF assms(1)] assms(2,3) by simp
  then show ?thesis
    using assms(2,3) by (simp add: assign_cols_def Let_def c)
qed

lemma assign_col_fits: "length v = nrows M \<Longrightarrow> assign_col M c v = Inr (set_col M c v)"
  using bcast1_same [of v] by (simp add: assign_col_def)


section \<open>The two operators on arrays that fit\<close>

lemma ell_w_fits:
  assumes "nrows X = nrows W" "nrows ind = ncols W" "ncols ind = ncols X"
  shows "ell_w ind W X rho
         = Inr (madd (mprod X (mT (mul_ind (mprod (mT W) X) ind))) (smul rho W))"
  using assms by (simp add: ell_w_def matmul_fits np_mul_ind_fits np_add_fits)

lemma ell_w_shape:
  assumes "nrows X = nrows W" "nrows ind = ncols W" "ncols ind = ncols X"
  shows "\<exists>L. ell_w ind W X rho = Inr L \<and> nrows L = nrows W \<and> ncols L = ncols W"
  using assms by (simp add: ell_w_fits)

lemma psi_fits_nth:
  "psi_fits Psi d n T \<Longrightarrow> k \<le> d \<Longrightarrow> k < length Psi \<and> nrows (Psi ! k) = n \<and> ncols (Psi ! k) = T"
  by (simp add: psi_fits_def list_all_length)

lemma block_height: "Suc 0 \<le> k \<Longrightarrow> k * rank - (k - Suc 0) * rank = (rank::nat)"
  by (cases k) simp_all

lemma stack_loop_fits:
  assumes "nrows X = rank"
    and "\<forall>k \<in> set ks. 1 \<le> k \<and> k \<le> d \<and> k < length Psi
            \<and> ncols (Psi ! k) = ncols X \<and> nrows (Psi ! k) = ncols temp"
    and "nrows temp = d * rank"
  shows "stack_loop X Psi rank ks temp
         = Inr (foldl (\<lambda>temp k. set_rows temp ((k - 1) * rank) (k * rank) (mprod X (mT (Psi ! k))))
                  temp ks)"
  using assms(2,3)
proof (induction ks arbitrary: temp)
  case Nil
  then show ?case by simp
next
  case (Cons k ks)
  from Cons.prems(1) have k: "1 \<le> k" "k \<le> d" "k < length Psi" "ncols (Psi ! k) = ncols X"
    "nrows (Psi ! k) = ncols temp"
    by simp_all
  let ?B = "mprod X (mT (Psi ! k))"
  have le: "(k - 1) * rank \<le> k * rank" "k * rank \<le> nrows temp"
    using k(2) Cons.prems(2) by (simp_all add: mult_le_mono1)
  have put: "assign_rows temp ((k - 1) * rank) (k * rank) ?B
             = Inr (set_rows temp ((k - 1) * rank) (k * rank) ?B)"
    by (rule assign_rows_fits) (use k le assms(1) in \<open>simp_all add: block_height\<close>)
  have g: "list_get Psi k = Inr (Psi ! k)"
    by (rule list_get_fits) (rule k(3))
  have m: "matmul X (mT (Psi ! k)) = Inr ?B"
    by (rule matmul_fits) (use k in simp)
  have step: "stack_loop X Psi rank (k # ks) temp
              = stack_loop X Psi rank ks (set_rows temp ((k - 1) * rank) (k * rank) ?B)"
    by (simp only: stack_loop.simps g m put ebind_Inr)
  have "stack_loop X Psi rank ks (set_rows temp ((k - 1) * rank) (k * rank) ?B)
        = Inr (foldl (\<lambda>temp k. set_rows temp ((k - 1) * rank) (k * rank) (mprod X (mT (Psi ! k))))
                 (set_rows temp ((k - 1) * rank) (k * rank) ?B) ks)"
    by (rule Cons.IH) (use Cons.prems in simp_all)
  then show ?case
    unfolding step by simp
qed

lemma nrows_foldl_set_rows [simp]:
  "nrows (foldl (\<lambda>temp k. set_rows temp (a k) (b k) (B k)) temp ks) = nrows temp"
  by (induction ks arbitrary: temp) simp_all

lemma ncols_foldl_set_rows [simp]:
  "ncols (foldl (\<lambda>temp k. set_rows temp (a k) (b k) (B k)) temp ks) = ncols temp"
  by (induction ks arbitrary: temp) simp_all


lemma lag_loop_fits:
  assumes "nrows A = nrows temp1" "ncols A = d * rank"
    and "\<forall>k \<in> set ks. k < d \<and> k + 1 < length Psi
            \<and> nrows (Psi ! (k + 1)) = ncols temp1 \<and> ncols (Psi ! (k + 1)) = ncols temp2"
    and "nrows temp2 = rank"
  shows "\<exists>temp2'. lag_loop A Psi rank temp1 ks temp2 = Inr temp2'
                  \<and> nrows temp2' = nrows temp2 \<and> ncols temp2' = ncols temp2"
  using assms(3,4)
proof (induction ks arbitrary: temp2)
  case Nil
  then show ?case by simp
next
  case (Cons k ks)
  from Cons.prems(1) have k: "k < d" "k + 1 < length Psi" "nrows (Psi ! (k + 1)) = ncols temp1"
    "ncols (Psi ! (k + 1)) = ncols temp2"
    by simp_all
  let ?S = "slice_cols A (k * rank) ((k + 1) * rank)"
  let ?M = "mprod (mT ?S) temp1"
  let ?N = "mprod ?M (Psi ! (k + 1))"
  have "(k + 1) * rank \<le> d * rank"
    using k(1) by (intro mult_le_mono1) simp
  then have width: "ncols ?S = rank"
    using assms(2) by simp
  have m1: "matmul (mT ?S) temp1 = Inr ?M"
    by (rule matmul_fits) (simp add: assms(1))
  have g: "list_get Psi (k + 1) = Inr (Psi ! (k + 1))"
    by (rule list_get_fits) (rule k(2))
  have m2: "matmul ?M (Psi ! (k + 1)) = Inr ?N"
    by (rule matmul_fits) (use k(3) in simp)
  have add: "iadd temp2 ?N = Inr (madd temp2 ?N)"
    by (rule iadd_fits) (use width k Cons.prems(2) in simp_all)
  have step: "lag_loop A Psi rank temp1 (k # ks) temp2
              = lag_loop A Psi rank temp1 ks (madd temp2 ?N)"
    by (simp only: lag_loop.simps m1 g m2 add ebind_Inr)
  have "\<exists>temp2'. lag_loop A Psi rank temp1 ks (madd temp2 ?N) = Inr temp2'
          \<and> nrows temp2' = nrows (madd temp2 ?N) \<and> ncols temp2' = ncols (madd temp2 ?N)"
    by (rule Cons.IH) (use Cons.prems in simp_all)
  then show ?case
    unfolding step by simp
qed

lemma ell_x_shape:
  assumes W: "nrows X = nrows W" and ind: "nrows ind = ncols W" "ncols ind = ncols X"
    and A: "nrows A = nrows X" "ncols A = d * nrows X"
    and Psi: "psi_fits Psi d n (ncols X)"
  shows "\<exists>L. ell_x ind W X A Psi d lambda0 rho = Inr L \<and> nrows L = nrows X \<and> ncols L = ncols X"
proof -
  note nth = psi_fits_nth [OF Psi]
  have P0: "nrows (Psi ! 0) = n" "ncols (Psi ! 0) = ncols X"
    using nth [of 0] by simp_all
  have g0: "list_get Psi 0 = Inr (Psi ! 0)"
    using nth [of 0] by (simp add: list_get_fits)
  define Z where "Z = foldl (\<lambda>temp k. set_rows temp ((k - 1) * nrows X) (k * nrows X)
                         (mprod X (mT (Psi ! k)))) (zeros (d * nrows X) (nrows (Psi ! 0)))
                         [1..<d + 1]"
  have stack: "stack_loop X Psi (nrows X) [1..<d + 1] (zeros (d * nrows X) (nrows (Psi ! 0)))
               = Inr Z"
    unfolding Z_def by (rule stack_loop_fits [where d = d]) (use nth P0 in auto)
  have Z: "nrows Z = d * nrows X" "ncols Z = n"
    by (simp_all add: Z_def P0 del: upt_Suc)
  let ?XP = "mprod X (mT (Psi ! 0))"
  let ?AT = "mprod A Z"
  let ?T1 = "msub ?XP ?AT"
  have m1: "matmul X (mT (Psi ! 0)) = Inr ?XP"
    by (rule matmul_fits) (use P0 in simp)
  have m2: "matmul A Z = Inr ?AT"
    by (rule matmul_fits) (simp add: A Z)
  have sub: "np_sub ?XP ?AT = Inr ?T1"
    by (rule np_sub_fits) (simp_all add: A Z P0)
  have "\<exists>temp2. lag_loop A Psi (nrows X) ?T1 [0..<d] (zeros (nrows X) (ncols X)) = Inr temp2
          \<and> nrows temp2 = nrows (zeros (nrows X) (ncols X))
          \<and> ncols temp2 = ncols (zeros (nrows X) (ncols X))"
    by (rule lag_loop_fits [where d = d]) (use A P0 nth in auto)
  then obtain T2 where lag: "lag_loop A Psi (nrows X) ?T1 [0..<d] (zeros (nrows X) (ncols X))
                             = Inr T2"
    and T2: "nrows T2 = nrows X" "ncols T2 = ncols X"
    by auto
  let ?WX = "mprod (mT W) X"
  let ?M = "mul_ind ?WX ind"
  let ?WM = "mprod W ?M"
  let ?S = "madd ?WM (smul rho X)"
  let ?TP = "mprod ?T1 (Psi ! 0)"
  let ?D = "msub ?TP T2"
  have m3: "matmul (mT W) X = Inr ?WX"
    by (rule matmul_fits) (simp add: W)
  have mi: "np_mul_ind ?WX ind = Inr ?M"
    by (rule np_mul_ind_fits) (simp_all add: ind)
  have m4: "matmul W ?M = Inr ?WM"
    by (rule matmul_fits) simp
  have a1: "np_add ?WM (smul rho X) = Inr ?S"
    by (rule np_add_fits) (simp_all add: W)
  have m5: "matmul ?T1 (Psi ! 0) = Inr ?TP"
    by (rule matmul_fits) (use P0 in simp)
  have s2: "np_sub ?TP T2 = Inr ?D"
    by (rule np_sub_fits) (use T2 P0 in simp_all)
  have a2: "np_add ?S (smul lambda0 ?D) = Inr (madd ?S (smul lambda0 ?D))"
    by (rule np_add_fits) (use W P0 in simp_all)
  have "ell_x ind W X A Psi d lambda0 rho = Inr (madd ?S (smul lambda0 ?D))"
    by (simp only: ell_x_def Let_def g0 stack m1 m2 sub lag m3 mi m4 a1 m5 s2 a2 ebind_Inr)
  then show ?thesis
    by (simp add: W)
qed

section \<open>The start and the end of a solve\<close>

lemma cg_start_w_fits:
  assumes "w_fits sparse_mat ind W X"
  shows "\<exists>r. cg_start_w sparse_mat ind W X rho = Inr (vecF W, r, r, dot r r)
              \<and> length r = nrows W * ncols W"
proof -
  from assms have s: "nrows X = nrows W" "nrows sparse_mat = ncols W" "ncols sparse_mat = ncols X"
    "nrows ind = ncols W" "ncols ind = ncols X"
    by (simp_all add: w_fits_def)
  let ?XS = "mprod X (mT sparse_mat)"
  let ?L = "madd (mprod X (mT (mul_ind (mprod (mT W) X) ind))) (smul rho W)"
  have m: "matmul X (mT sparse_mat) = Inr ?XS"
    by (rule matmul_fits) (use s in simp)
  have l: "ell_w ind W X rho = Inr ?L"
    by (rule ell_w_fits) (rule s)+
  have sub: "np_sub ?XS ?L = Inr (msub ?XS ?L)"
    by (rule np_sub_fits) (use s in simp_all)
  have "cg_start_w sparse_mat ind W X rho
        = Inr (vecF W, vecF (msub ?XS ?L), vecF (msub ?XS ?L),
               dot (vecF (msub ?XS ?L)) (vecF (msub ?XS ?L)))"
    by (simp only: cg_start_w_def Let_def m l sub ebind_Inr inner_self)
  moreover have "length (vecF (msub ?XS ?L)) = nrows W * ncols W"
    using s by (simp add: mult.commute)
  ultimately show ?thesis
    by blast
qed

lemma cg_start_x_fits:
  assumes "x_fits sparse_mat ind W X A Psi d"
  shows "\<exists>r. cg_start_x sparse_mat ind W X A Psi d lambda0 rho = Inr (vecF X, r, r, dot r r)
              \<and> length r = nrows X * ncols X"
proof -
  from assms have s: "nrows X = nrows W" "nrows sparse_mat = ncols W" "ncols sparse_mat = ncols X"
    "nrows ind = ncols W" "ncols ind = ncols X" "nrows A = nrows X" "ncols A = d * nrows X"
    and Psi: "psi_fits Psi d (nrows (hd Psi)) (ncols X)"
    by (simp_all add: x_fits_def w_fits_def)
  let ?WS = "mprod W sparse_mat"
  from ell_x_shape [OF s(1) s(4) s(5) s(6) s(7) Psi]
  obtain L where l: "ell_x ind W X A Psi d lambda0 rho = Inr L"
    and L: "nrows L = nrows X" "ncols L = ncols X"
    by blast
  have m: "matmul W sparse_mat = Inr ?WS"
    by (rule matmul_fits) (use s in simp)
  have sub: "np_sub ?WS L = Inr (msub ?WS L)"
    by (rule np_sub_fits) (use s L in simp_all)
  have "cg_start_x sparse_mat ind W X A Psi d lambda0 rho
        = Inr (vecF X, vecF (msub ?WS L), vecF (msub ?WS L),
               dot (vecF (msub ?WS L)) (vecF (msub ?WS L)))"
    by (simp only: cg_start_x_def Let_def m l sub ebind_Inr inner_self)
  moreover have "length (vecF (msub ?WS L)) = nrows X * ncols X"
    using s by (simp add: mult.commute)
  ultimately show ?thesis
    by blast
qed

lemma cg_start_w_state:
  "cg_start_w sparse_mat ind W X rho = Inr (w, r, q, rold) \<Longrightarrow> w = vecF W"
  by (auto simp: cg_start_w_def Let_def ebind_eq_Inr)

lemma cg_start_x_state:
  "cg_start_x sparse_mat ind W X A Psi d lambda0 rho = Inr (x, r, q, rold) \<Longrightarrow> x = vecF X"
  by (auto simp: cg_start_x_def Let_def ebind_eq_Inr)

lemma conj_grad_w_shape:
  assumes "conj_grad_w upd sparse_mat ind W X rho n = Inr W'"
  shows "nrows W' = nrows W \<and> ncols W' = ncols W \<and> wf_mat W'"
  using assms by (auto simp: conj_grad_w_def Let_def ebind_eq_Inr reshapeF_Inr)


section \<open>The first \<open>update_cg\<close>\<close>

lemma update_cg_ver_result:
  "update_cg_ver ver r q Aq rold =
     (if length q = length Aq then Inl (UnboundLocalError ''var'') else Inl ValueError)"
  by (simp add: update_cg_ver_def inner_def Let_def)

lemma update_cg_ver_never: "update_cg_ver ver r q Aq rold \<noteq> Inr s"
  by (simp add: update_cg_ver_result)

lemma cg_loop_w_ver_never: "cg_loop_w update_cg_ver ind X rho rank dim1 (Suc n) s \<noteq> Inr s'"
  by (cases s) (auto simp: ebind_eq_Inr update_cg_ver_never)

lemma cg_loop_x_ver_never:
  "cg_loop_x update_cg_ver ind W A Psi d lambda0 rho rank dim2 (Suc n) s \<noteq> Inr s'"
  by (cases s) (auto simp: ebind_eq_Inr update_cg_ver_never)

lemma conj_grad_w_ver_never:
  "0 < maxiter \<Longrightarrow> conj_grad_w update_cg_ver sparse_mat ind W X rho maxiter \<noteq> Inr W'"
  by (cases maxiter) (auto simp: conj_grad_w_def Let_def ebind_eq_Inr cg_loop_w_ver_never
      simp del: cg_loop_w.simps)

lemma conj_grad_x_ver_never:
  "0 < maxiter
    \<Longrightarrow> conj_grad_x update_cg_ver sparse_mat ind W X A Psi d lambda0 rho maxiter \<noteq> Inr X'"
  by (cases maxiter) (auto simp: conj_grad_x_def Let_def ebind_eq_Inr cg_loop_x_ver_never
      simp del: cg_loop_x.simps)

lemma cg_loop_w_ver_fits:
  assumes "length q = rank * dim1" "nrows X = rank" "nrows ind = dim1" "ncols ind = ncols X"
  shows "cg_loop_w update_cg_ver ind X rho rank dim1 (Suc n) (w, r, q, rold)
         = Inl (UnboundLocalError ''var'')"
proof -
  let ?Q = "unvecF q rank dim1"
  let ?L = "madd (mprod X (mT (mul_ind (mprod (mT ?Q) X) ind))) (smul rho ?Q)"
  have q: "reshapeF q rank dim1 = Inr ?Q"
    by (rule reshapeF_fits) (rule assms(1))
  have l: "ell_w ind ?Q X rho = Inr ?L"
    by (rule ell_w_fits) (use assms in simp_all)
  have "length (vecF ?L) = length q"
    using assms by (simp add: mult.commute)
  then have u: "update_cg_ver w r q (vecF ?L) rold = Inl (UnboundLocalError ''var'')"
    by (simp add: update_cg_ver_result)
  show ?thesis
    by (simp only: cg_loop_w.simps q l u ebind_Inr ebind_Inl)
qed

lemma cg_loop_x_ver_fits:
  assumes "length q = rank * dim2" "nrows W = rank" "nrows ind = ncols W" "ncols ind = dim2"
    and "nrows A = rank" "ncols A = d * rank" "psi_fits Psi d n dim2"
  shows "cg_loop_x update_cg_ver ind W A Psi d lambda0 rho rank dim2 (Suc k) (x, r, q, rold)
         = Inl (UnboundLocalError ''var'')"
proof -
  let ?Q = "unvecF q rank dim2"
  have q: "reshapeF q rank dim2 = Inr ?Q"
    by (rule reshapeF_fits) (rule assms(1))
  have "\<exists>L. ell_x ind W ?Q A Psi d lambda0 rho = Inr L \<and> nrows L = nrows ?Q \<and> ncols L = ncols ?Q"
    by (rule ell_x_shape [where n = n]) (use assms in simp_all)
  then obtain L where l: "ell_x ind W ?Q A Psi d lambda0 rho = Inr L"
    and L: "nrows L = rank" "ncols L = dim2"
    by auto
  have "length (vecF L) = length q"
    using assms(1) L by (simp add: mult.commute)
  then have u: "update_cg_ver x r q (vecF L) rold = Inl (UnboundLocalError ''var'')"
    by (simp add: update_cg_ver_result)
  show ?thesis
    by (simp only: cg_loop_x.simps q l u ebind_Inr ebind_Inl)
qed

lemma conj_grad_w_ver:
  assumes "w_fits sparse_mat ind W X"
  shows "conj_grad_w update_cg_ver sparse_mat ind W X rho maxiter =
     (if maxiter = 0 then Inr (unvecF (vecF W) (nrows W) (ncols W))
      else Inl (UnboundLocalError ''var''))"
proof -
  from cg_start_w_fits [OF assms]
  obtain r where start: "cg_start_w sparse_mat ind W X rho = Inr (vecF W, r, r, dot r r)"
    and r: "length r = nrows W * ncols W"
    by blast
  from assms have s: "nrows X = nrows W" "nrows ind = ncols W" "ncols ind = ncols X"
    by (simp_all add: w_fits_def)
  show ?thesis
  proof (cases maxiter)
    case 0
    have "reshapeF (vecF W) (nrows W) (ncols W) = Inr (unvecF (vecF W) (nrows W) (ncols W))"
      by (rule reshapeF_fits) (simp add: mult.commute)
    with 0 show ?thesis
      by (simp add: conj_grad_w_def Let_def start)
  next
    case (Suc n)
    have "cg_loop_w update_cg_ver ind X rho (nrows W) (ncols W) (Suc n) (vecF W, r, r, dot r r)
          = Inl (UnboundLocalError ''var'')"
      by (rule cg_loop_w_ver_fits) (use r s in simp_all)
    with Suc show ?thesis
      by (simp add: conj_grad_w_def Let_def start del: cg_loop_w.simps)
  qed
qed

lemma conj_grad_x_ver:
  assumes "x_fits sparse_mat ind W X A Psi d"
  shows "conj_grad_x update_cg_ver sparse_mat ind W X A Psi d lambda0 rho maxiter =
     (if maxiter = 0 then Inr (unvecF (vecF X) (nrows X) (ncols X))
      else Inl (UnboundLocalError ''var''))"
proof -
  from cg_start_x_fits [OF assms]
  obtain r where start: "cg_start_x sparse_mat ind W X A Psi d lambda0 rho
                         = Inr (vecF X, r, r, dot r r)"
    and r: "length r = nrows X * ncols X"
    by blast
  from assms have s: "nrows X = nrows W" "nrows ind = ncols W" "ncols ind = ncols X"
    "nrows A = nrows X" "ncols A = d * nrows X" "psi_fits Psi d (nrows (hd Psi)) (ncols X)"
    by (simp_all add: x_fits_def w_fits_def)
  show ?thesis
  proof (cases maxiter)
    case 0
    have "reshapeF (vecF X) (nrows X) (ncols X) = Inr (unvecF (vecF X) (nrows X) (ncols X))"
      by (rule reshapeF_fits) (simp add: mult.commute)
    with 0 show ?thesis
      by (simp add: conj_grad_x_def Let_def start)
  next
    case (Suc n)
    have "cg_loop_x update_cg_ver ind W A Psi d lambda0 rho (nrows X) (ncols X) (Suc n)
            (vecF X, r, r, dot r r) = Inl (UnboundLocalError ''var'')"
      by (rule cg_loop_x_ver_fits [where n = "nrows (hd Psi)"]) (use r s in simp_all)
    with Suc show ?thesis
      by (simp add: conj_grad_x_def Let_def start del: cg_loop_x.simps)
  qed
qed

text \<open>
  C10, as stated, fails: the first statement of \<open>update_cg\<close> runs before \<open>var\<close> is read, and
  for a \<open>q\<close> and an \<open>Aq\<close> of different lengths \<open>np.inner\<close> raises \<open>ValueError\<close> there.
\<close>

theorem update_cg_ver_lengths_counterexample:
  "update_cg_ver [] [] [Fin 1, Fin 2] [Fin 1] (Fin 1) = Inl ValueError
   \<and> update_cg_ver [] [] [Fin 1, Fin 2] [Fin 1] (Fin 1) \<noteq> Inl (UnboundLocalError ''var'')"
  by (simp add: update_cg_ver_def inner_def)

text \<open>
  C10, amended: the \<open>update_cg\<close> whose first parameter is \<open>ver\<close> returns from no call. It
  ends in the \<open>UnboundLocalError\<close> for \<open>var\<close> whenever \<open>q\<close> and \<open>Aq\<close> have one length, and
  in the \<open>ValueError\<close> of \<open>np.inner\<close> otherwise. \<open>conj_grad_w\<close> and \<open>conj_grad_x\<close> running
  with it return for no \<open>maxiter\<close> of at least one. On arrays whose shapes fit they end in
  the \<open>UnboundLocalError\<close> for every such \<open>maxiter\<close>, and with \<open>maxiter = 0\<close> they do not
  reach \<open>update_cg\<close> and return the reshaped starting point.
\<close>

theorem update_cg_ver_unbound:
  "update_cg_ver ver r q Aq rold =
       (if length q = length Aq then Inl (UnboundLocalError ''var'') else Inl ValueError)
   \<and> (0 < maxiter
        \<longrightarrow> (\<forall>W1. conj_grad_w update_cg_ver sparse_mat ind W X rho maxiter \<noteq> Inr W1)
          \<and> (\<forall>X1. conj_grad_x update_cg_ver sparse_mat ind W X A Psi d lambda0 rho maxiter
                    \<noteq> Inr X1))
   \<and> (w_fits sparse_mat ind W X
        \<longrightarrow> conj_grad_w update_cg_ver sparse_mat ind W X rho maxiter =
              (if maxiter = 0 then Inr (unvecF (vecF W) (nrows W) (ncols W))
               else Inl (UnboundLocalError ''var'')))
   \<and> (x_fits sparse_mat ind W X A Psi d
        \<longrightarrow> conj_grad_x update_cg_ver sparse_mat ind W X A Psi d lambda0 rho maxiter =
              (if maxiter = 0 then Inr (unvecF (vecF X) (nrows X) (ncols X))
               else Inl (UnboundLocalError ''var'')))"
proof (intro conjI impI allI)
  show "update_cg_ver ver r q Aq rold =
       (if length q = length Aq then Inl (UnboundLocalError ''var'') else Inl ValueError)"
    by (rule update_cg_ver_result)
next
  fix W1 assume "0 < maxiter"
  then show "conj_grad_w update_cg_ver sparse_mat ind W X rho maxiter \<noteq> Inr W1"
    by (rule conj_grad_w_ver_never)
next
  fix X1 assume "0 < maxiter"
  then show "conj_grad_x update_cg_ver sparse_mat ind W X A Psi d lambda0 rho maxiter \<noteq> Inr X1"
    by (rule conj_grad_x_ver_never)
next
  assume "w_fits sparse_mat ind W X"
  then show "conj_grad_w update_cg_ver sparse_mat ind W X rho maxiter =
              (if maxiter = 0 then Inr (unvecF (vecF W) (nrows W) (ncols W))
               else Inl (UnboundLocalError ''var''))"
    by (rule conj_grad_w_ver)
next
  assume "x_fits sparse_mat ind W X A Psi d"
  then show "conj_grad_x update_cg_ver sparse_mat ind W X A Psi d lambda0 rho maxiter =
              (if maxiter = 0 then Inr (unvecF (vecF X) (nrows X) (ncols X))
               else Inl (UnboundLocalError ''var''))"
    by (rule conj_grad_x_ver)
qed

lemma sample_fits:
  "w_fits obs3 ind3 one1 obs3" "x_fits obs3 ind3 one1 obs3 one1 psi3 1"
  by (simp_all add: w_fits_def x_fits_def psi_fits_def obs3_def ind3_def one1_def psi3_def)

theorem update_cg_ver_unbound_witness:
  "(0::nat) < 1
   \<and> w_fits obs3 ind3 one1 obs3 \<and> x_fits obs3 ind3 one1 obs3 one1 psi3 1
   \<and> conj_grad_w update_cg_ver obs3 ind3 one1 obs3 (Fin 1) 1 = Inl (UnboundLocalError ''var'')
   \<and> conj_grad_x update_cg_ver obs3 ind3 one1 obs3 one1 psi3 1 (Fin 1) (Fin 1) 1
       = Inl (UnboundLocalError ''var'')
   \<and> (\<forall>W1. conj_grad_w update_cg_ver obs3 ind3 one1 obs3 (Fin 1) 1 \<noteq> Inr W1)"
proof -
  have pos: "(0::nat) < 1"
    by simp
  note inst = update_cg_ver_unbound [of "[]" "[]" "[]" "[]" "Fin 1" 1 obs3 ind3 one1 obs3 "Fin 1"
      one1 psi3 1 "Fin 1"]
  from inst sample_fits(1)
  have a: "conj_grad_w update_cg_ver obs3 ind3 one1 obs3 (Fin 1) 1
           = Inl (UnboundLocalError ''var'')"
    by simp
  from inst sample_fits(2)
  have b: "conj_grad_x update_cg_ver obs3 ind3 one1 obs3 one1 psi3 1 (Fin 1) (Fin 1) 1
           = Inl (UnboundLocalError ''var'')"
    by simp
  from inst [THEN conjunct2, THEN conjunct1, rule_format, OF pos]
  have c: "\<forall>W1. conj_grad_w update_cg_ver obs3 ind3 one1 obs3 (Fin 1) 1 \<noteq> Inr W1"
    by (rule conjunct1)
  from pos sample_fits a b c show ?thesis
    by blast
qed

section \<open>The fit in its own section\<close>

lemma tmf_loop_ver:
  assumes "w_fits sparse_mat ind W X"
  shows "tmf_loop update_cg_ver pinv sparse_mat ind Psi rank d lambda0 rho (Suc n)
           (mat_hat, W, X, A, temp) = Inl (UnboundLocalError ''var'')"
  by (simp add: conj_grad_w_ver [OF assms])

text \<open>
  C1, the code at the failing inputs: \<open>tmf\<close> running with the \<open>update_cg\<close> of its own
  section returns for no input. For \<open>maxiter \<ge> 1\<close> the first inner solve ends in the
  \<open>UnboundLocalError\<close> of \<open>update_cg\<close>, so not one round is completed; for \<open>maxiter = 0\<close>
  the \<open>return\<close> statement reads \<open>mat_hat\<close>, which only a round assigns.
\<close>

theorem tmf_never_returns:
  "tmf update_cg_ver rnd pinv sparse_mat rank d lambda0 rho maxiter =
     (if ncols sparse_mat < d then Inl ValueError
      else if maxiter = 0 then Inl (UnboundLocalError ''mat_hat'')
      else Inl (UnboundLocalError ''var''))"
proof (cases "ncols sparse_mat < d")
  case True
  then show ?thesis
    by (simp add: tmf_def generate_Psi_def)
next
  case False
  then obtain Psi where Psi: "generate_Psi (ncols sparse_mat) d = Inr Psi"
    by (simp add: generate_Psi_def)
  show ?thesis
  proof (cases maxiter)
    case 0
    with False Psi show ?thesis
      by (simp add: tmf_def Let_def)
  next
    case (Suc n)
    have "w_fits sparse_mat
            (mk_mat (nrows sparse_mat) (ncols sparse_mat) (\<lambda>i j. elt sparse_mat i j \<noteq> 0))
            (smul (Fin (1 / 100)) (mk_mat rank (nrows sparse_mat) (rnd 0)))
            (smul (Fin (1 / 100)) (mk_mat rank (ncols sparse_mat) (rnd 1)))"
      by (simp add: w_fits_def)
    from tmf_loop_ver [OF this] Suc False Psi show ?thesis
      by (simp add: tmf_def Let_def del: tmf_loop.simps)
  qed
qed

section \<open>Facts about the temporal operators\<close>

lemma fl_sums [simp]:
  "(0::fl) + 0 = 0" "(0::fl) + 1 = 1" "- (1::fl) + 0 = - 1"
  "- (1::fl) * 1 = - 1" "- (1::fl) * 0 = 0"
  by (simp_all add: zero_fl_def one_fl_def)

lemma fl_distinct [simp]:
  "(1::fl) \<noteq> 0" "- (1::fl) \<noteq> 0" "- (1::fl) \<noteq> 1"
  "(0::fl) \<noteq> 1" "(0::fl) \<noteq> - 1" "(1::fl) \<noteq> - 1"
  by (simp_all add: zero_fl_def one_fl_def)

lemma nrows_season_block [simp]: "nrows (season_block n m) = n"
  by (simp add: season_block_def)

lemma ncols_season_block [simp]: "ncols (season_block n m) = n + m"
  by (simp add: season_block_def)

lemma elt_season_block:
  assumes "i < n" "j < n + m" "0 < m"
  shows "elt (season_block n m) i j = (if j = i + m then 1 else if j = i then - 1 else 0)"
proof -
  have "elt (season_block n m) i j
        = elt (hstack (smul (- 1) (eye n)) (zeros n m)) i j + elt (hstack (zeros n m) (eye n)) i j"
    using assms by (simp add: season_block_def)
  also have "elt (hstack (smul (- 1) (eye n)) (zeros n m)) i j
             = (if j < n then - 1 * (if i = j then 1 else 0) else 0)"
    using assms by (simp add: elt_hstack)
  also have "elt (hstack (zeros n m) (eye n)) i j
             = (if j < m then 0 else if i = j - m then 1 else 0)"
    using assms by (simp add: elt_hstack)
  finally show ?thesis
    using assms by auto
qed

lemma psi_plain_entry:
  assumes "k \<le> d" "i < n" "j < d + n"
  shows "elt (hstack (hstack (zeros n (d - k)) (eye n)) (zeros n k)) i j
         = (if j = i + (d - k) then 1 else 0)"
  using assms by (auto simp: elt_hstack)

lemma psi_plain_entry0:
  assumes "i < n" "j < d + n"
  shows "elt (hstack (zeros n d) (eye n)) i j = (if j = i + d then 1 else 0)"
  using assms by (auto simp: elt_hstack)

lemma psi_season_entry:
  assumes "k \<le> d" "i < n" "j < d + n + m" "0 < m"
  shows "elt (hstack (hstack (zeros n (d - k)) (season_block n m)) (zeros n k)) i j
         = (if j = i + (d - k) + m then 1 else if j = i + (d - k) then - 1 else 0)"
  using assms by (auto simp: elt_hstack elt_season_block)

lemma psi_season_entry0:
  assumes "i < n" "j < d + n + m" "0 < m"
  shows "elt (hstack (zeros n d) (season_block n m)) i j
         = (if j = i + d + m then 1 else if j = i + d then - 1 else 0)"
  using assms by (auto simp: elt_hstack elt_season_block)

lemma filter_upt_eq: "c < n \<Longrightarrow> filter (\<lambda>j. j = c) [0..<n] = [c]"
  by (induction n) auto

lemma filter_upt_none: "filter (\<lambda>j. False) [0..<n] = []"
  by simp

lemma row_count_one:
  assumes "c < ncols M" "\<And>j. j < ncols M \<Longrightarrow> (elt M i j = v) = (j = c)"
  shows "row_count M i v = 1"
proof -
  have "filter (\<lambda>j. elt M i j = v) [0..<ncols M] = filter (\<lambda>j. j = c) [0..<ncols M]"
    by (rule filter_cong [OF refl]) (simp add: assms(2))
  then show ?thesis
    by (simp add: row_count_def filter_upt_eq [OF assms(1)])
qed

lemma row_count_none:
  assumes "\<And>j. j < ncols M \<Longrightarrow> elt M i j \<noteq> v"
  shows "row_count M i v = 0"
proof -
  have "filter (\<lambda>j. elt M i j = v) [0..<ncols M] = filter (\<lambda>j. False) [0..<ncols M]"
    by (rule filter_cong [OF refl]) (simp add: assms)
  then show ?thesis
    by (simp add: row_count_def)
qed

lemma generate_Psi_nth:
  assumes "d \<le> T" "k \<le> d"
  shows "\<exists>Psi. generate_Psi T d = Inr Psi \<and> length Psi = d + 1
           \<and> nrows (Psi ! k) = T - d \<and> ncols (Psi ! k) = T
           \<and> (\<forall>i < T - d. \<forall>j < T. elt (Psi ! k) i j = (if j = i + (d - k) then 1 else 0))"
proof -
  define P where "P = (\<lambda>k. if k = 0 then hstack (zeros (T - d) d) (eye (T - d))
             else hstack (hstack (zeros (T - d) (d - k)) (eye (T - d))) (zeros (T - d) k))"
  have gen: "generate_Psi T d = Inr (map P [0..<d + 1])"
    using assms(1) by (simp add: generate_Psi_def P_def)
  have nth: "map P [0..<d + 1] ! k = P k"
    using assms(2) by (simp del: upt_Suc)
  have shape: "nrows (P k) = T - d" "ncols (P k) = T"
    using assms by (simp_all add: P_def)
  have entry: "elt (P k) i j = (if j = i + (d - k) then 1 else 0)" if "i < T - d" "j < T" for i j
  proof (cases "k = 0")
    case True
    then show ?thesis
      using that assms psi_plain_entry0 [of i "T - d" j d] by (simp add: P_def)
  next
    case False
    then show ?thesis
      using that assms psi_plain_entry [of k d i "T - d" j] by (simp add: P_def)
  qed
  show ?thesis
    using gen nth shape entry by (intro exI [of _ "map P [0..<d + 1]"]) (simp del: upt_Suc)
qed

lemma generate_Psi_season_nth:
  assumes "d + m \<le> T" "k \<le> d" "0 < m"
  shows "\<exists>Psi. generate_Psi_season T d m = Inr Psi \<and> length Psi = d + 1
           \<and> nrows (Psi ! k) = T - d - m \<and> ncols (Psi ! k) = T
           \<and> (\<forall>i < T - d - m. \<forall>j < T. elt (Psi ! k) i j
                  = (if j = i + (d - k) + m then 1 else if j = i + (d - k) then - 1 else 0))"
proof -
  define n where "n = T - d - m"
  define P where "P = (\<lambda>k. if k = 0 then hstack (zeros n d) (season_block n m)
             else hstack (hstack (zeros n (d - k)) (season_block n m)) (zeros n k))"
  have gen: "generate_Psi_season T d m = Inr (map P [0..<d + 1])"
    using assms(1) by (simp add: generate_Psi_season_def P_def n_def)
  have nth: "map P [0..<d + 1] ! k = P k"
    using assms(2) by (simp del: upt_Suc)
  have T: "T = d + n + m"
    using assms(1) by (simp add: n_def)
  have shape: "nrows (P k) = n" "ncols (P k) = T"
    using assms by (simp_all add: P_def T)
  have entry: "elt (P k) i j = (if j = i + (d - k) + m then 1 else if j = i + (d - k) then - 1 else 0)"
    if "i < n" "j < T" for i j
  proof (cases "k = 0")
    case True
    then show ?thesis
      using that assms psi_season_entry0 [of i n j d m] by (simp add: P_def T)
  next
    case False
    then show ?thesis
      using that assms psi_season_entry [of k d i n j m] by (simp add: P_def T)
  qed
  show ?thesis
    using gen nth shape entry
    by (intro exI [of _ "map P [0..<d + 1]"]) (simp del: upt_Suc add: n_def)
qed

text \<open>
  C4: for \<open>T > d + m\<close> and \<open>d \<ge> 1\<close> the generator returns \<open>d + 1\<close> operators. Without a
  season each is a \<open>(T - d) \<times> T\<close> array of zeros and ones whose row \<open>i\<close> has its single one in
  column \<open>i + d - k\<close>, so \<open>Psi_0\<close> is the identity on the last \<open>T - d\<close> columns. With a
  season \<open>m > 0\<close> each is a \<open>(T - d - m) \<times> T\<close> array whose row \<open>i\<close> has its single \<open>+1\<close> in
  column \<open>i + d - k + m\<close>, its single \<open>-1\<close> in the column \<open>m\<close> places before it, and zeros
  elsewhere.
\<close>

theorem generate_Psi_structure:
  assumes "1 \<le> d" "d + m < T"
  shows "(\<exists>Psi. generate_Psi T d = Inr Psi \<and> length Psi = d + 1
            \<and> (\<forall>k \<le> d. nrows (Psi ! k) = T - d \<and> ncols (Psi ! k) = T
                  \<and> (\<forall>i < T - d.
                        (\<forall>j < T. elt (Psi ! k) i j = (if j = i + (d - k) then 1 else 0))
                        \<and> row_count (Psi ! k) i 1 = 1)))
       \<and> (0 < m \<longrightarrow>
            (\<exists>Psi. generate_Psi_season T d m = Inr Psi \<and> length Psi = d + 1
              \<and> (\<forall>k \<le> d. nrows (Psi ! k) = T - d - m \<and> ncols (Psi ! k) = T
                    \<and> (\<forall>i < T - d - m.
                          (\<forall>j < T. elt (Psi ! k) i j
                               = (if j = i + (d - k) + m then 1
                                  else if j = i + (d - k) then - 1 else 0))
                          \<and> row_count (Psi ! k) i 1 = 1
                          \<and> row_count (Psi ! k) i (- 1) = 1))))"
proof (intro conjI impI)
  have dT: "d \<le> T" using assms by simp
  from generate_Psi_nth [OF dT, of 0]
  obtain Psi where gen: "generate_Psi T d = Inr Psi" and len: "length Psi = d + 1"
    by auto
  have each: "nrows (Psi ! k) = T - d \<and> ncols (Psi ! k) = T
              \<and> (\<forall>i < T - d.
                    (\<forall>j < T. elt (Psi ! k) i j = (if j = i + (d - k) then 1 else 0))
                    \<and> row_count (Psi ! k) i 1 = 1)" if k: "k \<le> d" for k
  proof -
    from generate_Psi_nth [OF dT k] gen
    have shape: "nrows (Psi ! k) = T - d" "ncols (Psi ! k) = T"
      and entry: "\<And>i j. i < T - d \<Longrightarrow> j < T
                    \<Longrightarrow> elt (Psi ! k) i j = (if j = i + (d - k) then 1 else 0)"
      by auto
    have "row_count (Psi ! k) i 1 = 1" if i: "i < T - d" for i
      by (rule row_count_one [of "i + (d - k)"]) (use i k shape entry in auto)
    with shape entry show ?thesis by simp
  qed
  show "\<exists>Psi. generate_Psi T d = Inr Psi \<and> length Psi = d + 1
            \<and> (\<forall>k \<le> d. nrows (Psi ! k) = T - d \<and> ncols (Psi ! k) = T
                  \<and> (\<forall>i < T - d.
                        (\<forall>j < T. elt (Psi ! k) i j = (if j = i + (d - k) then 1 else 0))
                        \<and> row_count (Psi ! k) i 1 = 1))"
    using gen len each by blast
next
  assume m: "0 < m"
  have dT: "d + m \<le> T" using assms by simp
  from generate_Psi_season_nth [OF dT _ m, of 0]
  obtain Psi where gen: "generate_Psi_season T d m = Inr Psi" and len: "length Psi = d + 1"
    by auto
  have each: "nrows (Psi ! k) = T - d - m \<and> ncols (Psi ! k) = T
              \<and> (\<forall>i < T - d - m.
                    (\<forall>j < T. elt (Psi ! k) i j
                         = (if j = i + (d - k) + m then 1 else if j = i + (d - k) then - 1 else 0))
                    \<and> row_count (Psi ! k) i 1 = 1
                    \<and> row_count (Psi ! k) i (- 1) = 1)" if k: "k \<le> d" for k
  proof -
    from generate_Psi_season_nth [OF dT k m] gen
    have shape: "nrows (Psi ! k) = T - d - m" "ncols (Psi ! k) = T"
      and entry: "\<And>i j. i < T - d - m \<Longrightarrow> j < T
                    \<Longrightarrow> elt (Psi ! k) i j
                        = (if j = i + (d - k) + m then 1 else if j = i + (d - k) then - 1 else 0)"
      by auto
    have plus: "row_count (Psi ! k) i 1 = 1" if i: "i < T - d - m" for i
      by (rule row_count_one [of "i + (d - k) + m"]) (use i k m shape entry in auto)
    have minus: "row_count (Psi ! k) i (- 1) = 1" if i: "i < T - d - m" for i
      by (rule row_count_one [of "i + (d - k)"]) (use i k m shape entry in auto)
    from shape entry plus minus show ?thesis by simp
  qed
  show "\<exists>Psi. generate_Psi_season T d m = Inr Psi \<and> length Psi = d + 1
          \<and> (\<forall>k \<le> d. nrows (Psi ! k) = T - d - m \<and> ncols (Psi ! k) = T
                \<and> (\<forall>i < T - d - m.
                      (\<forall>j < T. elt (Psi ! k) i j
                           = (if j = i + (d - k) + m then 1
                              else if j = i + (d - k) then - 1 else 0))
                      \<and> row_count (Psi ! k) i 1 = 1
                      \<and> row_count (Psi ! k) i (- 1) = 1))"
    using gen len each by blast
qed

theorem generate_Psi_structure_witness:
  "(1::nat) \<le> 1 \<and> (1::nat) + 1 < 4 \<and> (0::nat) < 1
   \<and> (\<exists>Psi. generate_Psi 4 1 = Inr Psi \<and> length Psi = 2
          \<and> nrows (Psi ! 0) = 3 \<and> ncols (Psi ! 0) = 4 \<and> row_count (Psi ! 0) 2 1 = 1)
   \<and> (\<exists>Psi. generate_Psi_season 4 1 1 = Inr Psi \<and> length Psi = 2
          \<and> nrows (Psi ! 1) = 2 \<and> ncols (Psi ! 1) = 4
          \<and> row_count (Psi ! 1) 0 1 = 1 \<and> row_count (Psi ! 1) 0 (- 1) = 1)"
proof -
  have h: "(1::nat) \<le> 1" "(1::nat) + 1 < 4" "(0::nat) < 1"
    by simp_all
  note inst = generate_Psi_structure [OF h(1) h(2)]
  from inst obtain Psi where a: "generate_Psi 4 1 = Inr Psi" "length Psi = 1 + 1"
    and a': "\<forall>k \<le> 1. nrows (Psi ! k) = 4 - 1 \<and> ncols (Psi ! k) = 4
                  \<and> (\<forall>i < 4 - 1.
                        (\<forall>j < 4. elt (Psi ! k) i j = (if j = i + (1 - k) then 1 else 0))
                        \<and> row_count (Psi ! k) i 1 = 1)"
    by blast
  from inst h(3) obtain Phi where b: "generate_Psi_season 4 1 1 = Inr Phi" "length Phi = 1 + 1"
    and b': "\<forall>k \<le> 1. nrows (Phi ! k) = 4 - 1 - 1 \<and> ncols (Phi ! k) = 4
                    \<and> (\<forall>i < 4 - 1 - 1.
                          (\<forall>j < 4. elt (Phi ! k) i j
                               = (if j = i + (1 - k) + 1 then 1
                                  else if j = i + (1 - k) then - 1 else 0))
                          \<and> row_count (Phi ! k) i 1 = 1
                          \<and> row_count (Phi ! k) i (- 1) = 1)"
    by blast
  from a' have a0: "nrows (Psi ! 0) = 3" "ncols (Psi ! 0) = 4" "row_count (Psi ! 0) 2 1 = 1"
    by simp_all
  from b' have b1: "nrows (Phi ! 1) = 2" "ncols (Phi ! 1) = 4"
    "row_count (Phi ! 1) 0 1 = 1" "row_count (Phi ! 1) 0 (- 1) = 1"
    by simp_all
  from a a0 have "\<exists>Psi. generate_Psi 4 1 = Inr Psi \<and> length Psi = 2
          \<and> nrows (Psi ! 0) = 3 \<and> ncols (Psi ! 0) = 4 \<and> row_count (Psi ! 0) 2 1 = 1"
    by simp
  moreover from b b1 have "\<exists>Psi. generate_Psi_season 4 1 1 = Inr Psi \<and> length Psi = 2
          \<and> nrows (Psi ! 1) = 2 \<and> ncols (Psi ! 1) = 4
          \<and> row_count (Psi ! 1) 0 1 = 1 \<and> row_count (Psi ! 1) 0 (- 1) = 1"
    by simp
  ultimately show ?thesis
    using h by blast
qed

text \<open>
  The operators without a season come from \<open>generate_Psi\<close>. The seasonal generator called
  with \<open>season = 0\<close> adds the identity to its negation in the same columns, so every operator
  it returns is zero.
\<close>

lemma generate_Psi_season_zero_season:
  "generate_Psi_season 3 1 0
     = Inr [\<lparr>nrows = 2, ncols = 3, rows = [[Fin 0, Fin 0, Fin 0], [Fin 0, Fin 0, Fin 0]]\<rparr>,
            \<lparr>nrows = 2, ncols = 3, rows = [[Fin 0, Fin 0, Fin 0], [Fin 0, Fin 0, Fin 0]]\<rparr>]"
  by code_simp

lemma generate_Psi_shape:
  assumes "generate_Psi T d = Inr Psi" "k \<le> d"
  shows "length Psi = d + 1 \<and> nrows (Psi ! k) = T - d \<and> ncols (Psi ! k) = T"
proof -
  have dT: "d \<le> T"
    using assms(1) by (simp add: generate_Psi_def split: if_splits)
  from generate_Psi_nth [OF dT assms(2)] assms(1) show ?thesis
    by auto
qed

lemma generate_Psi_season_shape:
  assumes "generate_Psi_season T d m = Inr Psi" "k \<le> d"
  shows "length Psi = d + 1 \<and> nrows (Psi ! k) = T - d - m \<and> ncols (Psi ! k) = T"
proof -
  have dT: "d + m \<le> T"
    using assms(1) by (simp add: generate_Psi_season_def split: if_splits)
  define P where "P = (\<lambda>k. if k = 0 then hstack (zeros (T - d - m) d) (season_block (T - d - m) m)
             else hstack (hstack (zeros (T - d - m) (d - k)) (season_block (T - d - m) m))
                    (zeros (T - d - m) k))"
  have gen: "Psi = map P [0..<d + 1]"
    using assms(1) dT by (simp add: generate_Psi_season_def P_def)
  have nth: "map P [0..<d + 1] ! k = P k"
    using assms(2) by (simp del: upt_Suc)
  have "nrows (P k) = T - d - m" "ncols (P k) = T"
    using assms(2) dT by (simp_all add: P_def)
  with gen nth show ?thesis
    by (simp del: upt_Suc)
qed

lemma generate_Psi_fits:
  assumes "generate_Psi T d = Inr Psi"
  shows "psi_fits Psi d (T - d) T"
proof -
  have "k < length Psi \<Longrightarrow> nrows (Psi ! k) = T - d \<and> ncols (Psi ! k) = T" for k
    using generate_Psi_shape [OF assms, of k] generate_Psi_shape [OF assms, of 0] by simp
  moreover have "length Psi = d + 1"
    using generate_Psi_shape [OF assms, of 0] by simp
  ultimately show ?thesis
    by (simp add: psi_fits_def list_all_length)
qed

lemma generate_Psi_season_fits:
  assumes "generate_Psi_season T d m = Inr Psi"
  shows "psi_fits Psi d (T - d - m) T"
proof -
  have "k < length Psi \<Longrightarrow> nrows (Psi ! k) = T - d - m \<and> ncols (Psi ! k) = T" for k
    using generate_Psi_season_shape [OF assms, of k] generate_Psi_season_shape [OF assms, of 0]
    by simp
  moreover have "length Psi = d + 1"
    using generate_Psi_season_shape [OF assms, of 0] by simp
  ultimately show ?thesis
    by (simp add: psi_fits_def list_all_length)
qed

section \<open>Facts about \<open>var4cast\<close>\<close>

lemma hstack_no_columns:
  assumes "wf_mat X"
  shows "hstack X (zeros (nrows X) 0) = X"
proof -
  have "mk_mat (nrows X) (ncols X + 0)
          (\<lambda>i j. if j < ncols X then elt X i j else elt (zeros (nrows X) 0) i (j - ncols X))
        = mk_mat (nrows X) (ncols X + 0) (elt X)"
    by (rule mk_mat_cong) simp
  then have "hstack X (zeros (nrows X) 0) = mk_mat (nrows X) (ncols X) (elt X)"
    by (simp add: hstack_def)
  then show ?thesis
    by (simp add: mk_mat_elt [OF assms])
qed

lemma last_cols_all:
  assumes "wf_mat M"
  shows "last_cols M 0 = M"
  by (simp add: last_cols_def slice_cols_def mk_mat_elt [OF assms])

lemma col_cong: "nrows M = nrows N \<Longrightarrow> (\<And>i. i < nrows M \<Longrightarrow> elt M i j = elt N i j) \<Longrightarrow> col M j = col N j"
  by (simp add: col_def)

lemma col_set_col_other:
  "j < ncols M \<Longrightarrow> j \<noteq> c \<Longrightarrow> col (set_col M c v) j = col M j"
  by (simp add: col_def set_col_def)

lemma col_set_col_same:
  "c < ncols M \<Longrightarrow> length v = nrows M \<Longrightarrow> col (set_col M c v) c = v"
  by (rule nth_equalityI) (simp_all add: col_def set_col_def)

lemma ebind_assoc: "ebind (ebind m f) g = ebind m (\<lambda>x. ebind (f x) g)"
  by (cases m) simp_all

lemma gather_cols_in_range:
  "\<forall>c \<in> set cs. 0 \<le> c \<and> c < int (ncols M)
    \<Longrightarrow> gather_cols M cs = Inr (concat (map (\<lambda>c. col M (nat c)) cs))"
  by (induction cs) (simp_all add: py_index_def)

lemma gather_lags:
  assumes "d \<le> c" "c \<le> ncols M"
  shows "gather_cols M (lags (int c) d) = Inr (concat (map (\<lambda>k. col M (c - k)) [1..<d + 1]))"
proof -
  have "\<forall>x \<in> set (lags (int c) d). 0 \<le> x \<and> x < int (ncols M)"
    using assms by (auto simp: lags_def)
  then have "gather_cols M (lags (int c) d)
             = Inr (concat (map (\<lambda>x. col M (nat x)) (lags (int c) d)))"
    by (rule gather_cols_in_range)
  also have "map (\<lambda>x. col M (nat x)) (lags (int c) d) = map (\<lambda>k. col M (c - k)) [1..<d + 1]"
    using assms by (simp add: lags_def o_def nat_diff_distrib')
  finally show ?thesis .
qed

lemma length_gathered:
  "length (concat (map (\<lambda>k. col H (f k)) ks)) = length ks * nrows H"
  by (induction ks) simp_all

lemma var4cast_loop_append:
  "var4cast_loop A d dim2 (ts @ us) H
     = ebind (var4cast_loop A d dim2 ts H) (var4cast_loop A d dim2 us)"
proof (induction ts arbitrary: H)
  case Nil
  then show ?case by simp
next
  case (Cons t ts)
  have "var4cast_loop A d dim2 (ts @ us)
        = (\<lambda>H. ebind (var4cast_loop A d dim2 ts H) (var4cast_loop A d dim2 us))"
    by (rule ext) (rule Cons.IH)
  then show ?case
    by (simp add: ebind_assoc)
qed

lemma forecast_inv_start:
  "forecast_inv X A d delta 0 (hstack X (zeros (nrows X) delta))"
  by (simp add: forecast_inv_def hstack_def col_def)

lemma forecast_inv_step:
  assumes inv: "forecast_inv X A d delta n H"
    and n: "n < delta" and d: "d \<le> ncols X" and A: "nrows A = nrows X" "ncols A = d * nrows X"
  shows "\<exists>H'. var4cast_loop A d (ncols X) [n] H = Inr H' \<and> forecast_inv X A d delta (Suc n) H'"
proof -
  define v where "v = concat (map (\<lambda>k. col H (ncols X + n - k)) [1..<d + 1])"
  define H' where "H' = set_col H (ncols X + n) (mvprod A v)"
  have shape: "nrows H = nrows X" "ncols H = ncols X + delta"
    and old: "\<And>j. j < ncols X \<Longrightarrow> col H j = col X j"
    and filled: "\<And>t. t < n \<Longrightarrow> col H (ncols X + t)
                 = mvprod A (concat (map (\<lambda>k. col H (ncols X + t - k)) [1..<d + 1]))"
    using inv by (auto simp: forecast_inv_def)
  have g: "gather_cols H (lags (int (ncols X + n)) d) = Inr v"
    unfolding v_def by (rule gather_lags) (use d n shape in auto)
  have "length v = d * nrows H"
    unfolding v_def by (simp add: length_gathered del: upt_Suc)
  then have m: "matvec A v = Inr (mvprod A v)"
    by (intro matvec_fits) (simp add: A shape)
  have p: "assign_col H (ncols X + n) (mvprod A v) = Inr H'"
    unfolding H'_def by (rule assign_col_fits) (simp add: A shape)
  have run: "var4cast_loop A d (ncols X) [n] H = Inr H'"
    using g m p by simp
  have keep: "col H' j = col H j" if "j < ncols X + n" for j
    unfolding H'_def by (rule col_set_col_other) (use that n shape in auto)
  have new: "col H' (ncols X + n) = mvprod A v"
    unfolding H'_def by (rule col_set_col_same) (use n shape A in auto)
  have lag: "map (\<lambda>k. col H' (ncols X + t - k)) [1..<d + 1]
             = map (\<lambda>k. col H (ncols X + t - k)) [1..<d + 1]" if "t \<le> n" for t
    by (rule map_cong [OF refl], rule keep) (use that d in auto)
  have "forecast_inv X A d delta (Suc n) H'"
    unfolding forecast_inv_def
  proof (intro conjI allI impI)
    show "nrows H' = nrows X" "ncols H' = ncols X + delta"
      by (simp_all add: H'_def shape)
  next
    fix j assume "j < ncols X"
    then show "col H' j = col X j"
      by (simp add: keep old)
  next
    fix t assume "t < Suc n"
    show "col H' (ncols X + t)
          = mvprod A (concat (map (\<lambda>k. col H' (ncols X + t - k)) [1..<d + 1]))"
    proof (cases "t = n")
      case True
      then show ?thesis
        by (simp only: new lag [of n, OF order_refl] v_def)
    next
      case False
      with \<open>t < Suc n\<close> have t: "t < n" by simp
      then have "col H' (ncols X + t) = col H (ncols X + t)"
        by (simp add: keep)
      with t show ?thesis
        by (simp only: filled [OF t] lag [of t, OF less_imp_le])
    qed
  qed
  with run show ?thesis by blast
qed

lemma forecast_inv_loop:
  assumes d: "d \<le> ncols X" and A: "nrows A = nrows X" "ncols A = d * nrows X"
  shows "n \<le> delta \<Longrightarrow>
         \<exists>H. var4cast_loop A d (ncols X) [0..<n] (hstack X (zeros (nrows X) delta)) = Inr H
              \<and> forecast_inv X A d delta n H"
proof (induction n)
  case 0
  then show ?case by (simp add: forecast_inv_start)
next
  case (Suc n)
  then obtain H where H: "var4cast_loop A d (ncols X) [0..<n] (hstack X (zeros (nrows X) delta)) = Inr H"
    and inv: "forecast_inv X A d delta n H"
    by auto
  from forecast_inv_step [OF inv _ d A] Suc.prems
  obtain H' where H': "var4cast_loop A d (ncols X) [n] H = Inr H'"
      "forecast_inv X A d delta (Suc n) H'"
    by auto
  have "[0..<Suc n] = [0..<n] @ [n]"
    by simp
  then have "var4cast_loop A d (ncols X) [0..<Suc n] (hstack X (zeros (nrows X) delta))
             = var4cast_loop A d (ncols X) [n] H"
    by (simp only: var4cast_loop_append H ebind_Inr)
  with H' show ?case
    by simp
qed

lemma var4cast_no_horizon:
  assumes "wf_mat X"
  shows "var4cast X A d 0 = Inr X"
  by (simp add: var4cast_def Let_def hstack_no_columns [OF assms] last_cols_all [OF assms])

lemma ncols_cols_upto: "0 \<le> k \<Longrightarrow> ncols (cols_upto M k) = min (nat k) (ncols M)"
  by (simp add: cols_upto_def py_stop_def)

lemma nrows_cols_upto [simp]: "nrows (cols_upto M k) = nrows M"
  by (simp add: cols_upto_def)

lemma wf_cols_upto [simp]: "wf_mat (cols_upto M k)"
  by (simp add: cols_upto_def)

lemma ncols_before_season: "0 < season \<Longrightarrow> ncols (cols_upto M (- int season)) = ncols M - season"
  by (simp add: cols_upto_def py_stop_def)

lemma season_diff_fits:
  assumes "0 < season"
  shows "np_sub (slice_cols X season (ncols X)) (cols_upto X (- int season))
         = Inr (msub (slice_cols X season (ncols X)) (cols_upto X (- int season)))"
  by (rule np_sub_fits) (use assms in \<open>simp_all add: ncols_before_season\<close>)

lemma var4cast_season_no_horizon:
  assumes "wf_mat X" "0 < season"
  shows "var4cast_season X A d 0 season = Inr X"
  by (simp add: var4cast_season_def Let_def season_diff_fits [OF assms(2)]
      hstack_no_columns [OF assms(1)])

text \<open>
  C9: with the horizon \<open>delta = 0\<close> the forecast returns the fitted \<open>X\<close> itself, in the
  \<open>var4cast\<close> without a season and, for every season \<open>m > 0\<close>, in the seasonal one.
\<close>

theorem var4cast_zero_horizon:
  assumes "wf_mat X"
  shows "var4cast X A d 0 = Inr X
         \<and> (0 < season \<longrightarrow> var4cast_season X A d 0 season = Inr X)"
  using assms by (simp add: var4cast_no_horizon var4cast_season_no_horizon)

theorem var4cast_zero_horizon_witness:
  "wf_mat \<lparr>nrows = 1, ncols = 2, rows = [[Fin 1, Fin 2]]\<rparr>
   \<and> var4cast \<lparr>nrows = 1, ncols = 2, rows = [[Fin 1, Fin 2]]\<rparr>
         \<lparr>nrows = 1, ncols = 1, rows = [[Fin 3]]\<rparr> 1 0
       = Inr \<lparr>nrows = 1, ncols = 2, rows = [[Fin 1, Fin 2]]\<rparr>
   \<and> (0::nat) < 1
   \<and> var4cast_season \<lparr>nrows = 1, ncols = 2, rows = [[Fin 1, Fin 2]]\<rparr>
         \<lparr>nrows = 1, ncols = 1, rows = [[Fin 3]]\<rparr> 1 0 1
       = Inr \<lparr>nrows = 1, ncols = 2, rows = [[Fin 1, Fin 2]]\<rparr>"
proof -
  have wf: "wf_mat \<lparr>nrows = 1, ncols = 2, rows = [[Fin 1, Fin 2]]\<rparr>"
    by (simp add: wf_mat_def)
  show ?thesis
    using wf var4cast_zero_horizon [OF wf, of "\<lparr>nrows = 1, ncols = 1, rows = [[Fin 3]]\<rparr>" 1 1]
    by simp
qed

text \<open>
  C3, as stated, fails: for a horizon of two steps on an \<open>X\<close> with two columns the claim
  has \<open>var4cast\<close> return the four columns of the extended array, and it returns the two
  forecast columns.
\<close>

theorem var4cast_output_counterexample:
  "var4cast \<lparr>nrows = 1, ncols = 2, rows = [[Fin 1, Fin 2]]\<rparr>
      \<lparr>nrows = 1, ncols = 1, rows = [[Fin 3]]\<rparr> 1 2
     = Inr \<lparr>nrows = 1, ncols = 2, rows = [[Fin 6, Fin 18]]\<rparr>
   \<and> var4cast \<lparr>nrows = 1, ncols = 2, rows = [[Fin 1, Fin 2]]\<rparr>
      \<lparr>nrows = 1, ncols = 1, rows = [[Fin 3]]\<rparr> 1 2
     \<noteq> Inr \<lparr>nrows = 1, ncols = 4, rows = [[Fin 1, Fin 2, Fin 6, Fin 18]]\<rparr>"
  by code_simp

text \<open>
  A coefficient array whose width is not \<open>d \<cdot> R\<close> stops the forecast in the first round:
  the product of \<open>A\<close> with the \<open>d \<cdot> R\<close> gathered entries raises \<open>ValueError\<close>.
\<close>

lemma var4cast_wrong_width:
  "var4cast \<lparr>nrows = 1, ncols = 2, rows = [[Fin 1, Fin 2]]\<rparr>
      \<lparr>nrows = 1, ncols = 1, rows = [[Fin 3]]\<rparr> 2 1 = Inl ValueError"
  by code_simp

lemma col_last_cols:
  assumes "0 < delta" "delta \<le> ncols H" "t < delta"
  shows "col (last_cols H delta) t = col H (ncols H - delta + t)"
  using assms by (simp add: last_cols_def slice_cols_def col_def)

text \<open>
  C3, amended: for an \<open>X\<close> with \<open>R\<close> rows, an \<open>A\<close> of shape \<open>R \<times> d R\<close>, \<open>d \<le> T'\<close> and a
  horizon \<open>delta \<ge> 1\<close>, the array \<open>X_hat\<close> is built as the claim says, and what \<open>var4cast\<close>
  returns is its last \<open>delta\<close> columns alone, an \<open>R \<times> delta\<close> array: forecast column \<open>t\<close>
  is \<open>A\<close> applied to the lags \<open>1, \<dots>, d\<close> one after the other, where lag \<open>k\<close> is forecast
  column \<open>t - k\<close> if there is one and column \<open>T' + t - k\<close> of \<open>X\<close> otherwise.
\<close>

theorem var4cast_forecast_columns:
  assumes "nrows A = nrows X" "ncols A = d * nrows X" "d \<le> ncols X" "1 \<le> delta"
  shows "\<exists>X_hat Y.
           var4cast_loop A d (ncols X) [0..<delta] (hstack X (zeros (nrows X) delta)) = Inr X_hat
         \<and> nrows X_hat = nrows X \<and> ncols X_hat = ncols X + delta
         \<and> (\<forall>j < ncols X. col X_hat j = col X j)
         \<and> (\<forall>t < delta. matvec A (concat (map (\<lambda>k. col X_hat (ncols X + t - k)) [1..<d + 1]))
                = Inr (col X_hat (ncols X + t)))
         \<and> var4cast X A d delta = Inr Y
         \<and> nrows Y = nrows X \<and> ncols Y = delta
         \<and> (\<forall>t < delta. col Y t = col X_hat (ncols X + t))
         \<and> (\<forall>t < delta. matvec A (concat (map (\<lambda>k. if k \<le> t then col Y (t - k)
                                              else col X (ncols X + t - k)) [1..<d + 1]))
                = Inr (col Y t))"
proof -
  from forecast_inv_loop [OF assms(3) assms(1) assms(2), of delta delta]
  obtain H where run: "var4cast_loop A d (ncols X) [0..<delta] (hstack X (zeros (nrows X) delta)) = Inr H"
    and inv: "forecast_inv X A d delta delta H"
    by auto
  define Y where "Y = last_cols H delta"
  have shape: "nrows H = nrows X" "ncols H = ncols X + delta"
    and old: "\<And>j. j < ncols X \<Longrightarrow> col H j = col X j"
    and filled: "\<And>t. t < delta \<Longrightarrow> col H (ncols X + t)
                 = mvprod A (concat (map (\<lambda>k. col H (ncols X + t - k)) [1..<d + 1]))"
    using inv by (auto simp: forecast_inv_def)
  have out: "var4cast X A d delta = Inr Y"
    by (simp add: var4cast_def Let_def run Y_def)
  have Y_shape: "nrows Y = nrows X" "ncols Y = delta"
    using assms(4) by (simp_all add: Y_def last_cols_def slice_cols_def shape)
  have Y_col: "col Y t = col H (ncols X + t)" if "t < delta" for t
    unfolding Y_def using col_last_cols [of delta H t] that assms(4) by (simp add: shape)
  have lag: "col H (ncols X + t - k) = (if k \<le> t then col Y (t - k) else col X (ncols X + t - k))"
    if "t < delta" "k \<in> set [1..<d + 1]" for t k
  proof (cases "k \<le> t")
    case True
    then have "col Y (t - k) = col H (ncols X + (t - k))"
      using that by (intro Y_col) simp
    with True show ?thesis by simp
  next
    case False
    then have "ncols X + t - k < ncols X"
      using that assms(3) by auto
    with False show ?thesis by (simp add: old)
  qed
  have width: "ncols A = length (concat (map (\<lambda>k. col H (f k)) [1..<d + 1]))" for f
    using assms(2) by (simp add: length_gathered shape del: upt_Suc)
  have H_rec: "matvec A (concat (map (\<lambda>k. col H (ncols X + t - k)) [1..<d + 1]))
               = Inr (col H (ncols X + t))" if t: "t < delta" for t
    by (simp only: matvec_fits [OF width] filled [OF t])
  have Y_rec: "matvec A (concat (map (\<lambda>k. if k \<le> t then col Y (t - k)
                                              else col X (ncols X + t - k)) [1..<d + 1]))
               = Inr (col Y t)"
    if t: "t < delta" for t
  proof -
    have "map (\<lambda>k. col H (ncols X + t - k)) [1..<d + 1]
          = map (\<lambda>k. if k \<le> t then col Y (t - k) else col X (ncols X + t - k)) [1..<d + 1]"
      by (rule map_cong [OF refl]) (rule lag [OF t])
    with H_rec [OF t] show ?thesis
      by (simp only: Y_col [OF t])
  qed
  show ?thesis
    using run shape old H_rec out Y_shape Y_col Y_rec by blast
qed

theorem var4cast_forecast_columns_witness:
  "nrows \<lparr>nrows = 1, ncols = 1, rows = [[Fin 3]]\<rparr>
     = nrows \<lparr>nrows = 1, ncols = 2, rows = [[Fin 1, Fin 2]]\<rparr>
   \<and> ncols \<lparr>nrows = 1, ncols = 1, rows = [[Fin 3]]\<rparr>
     = 1 * nrows \<lparr>nrows = 1, ncols = 2, rows = [[Fin 1, Fin 2]]\<rparr>
   \<and> (1::nat) \<le> ncols \<lparr>nrows = 1, ncols = 2, rows = [[Fin 1, Fin 2]]\<rparr>
   \<and> (1::nat) \<le> 2
   \<and> (\<exists>Y. var4cast \<lparr>nrows = 1, ncols = 2, rows = [[Fin 1, Fin 2]]\<rparr>
              \<lparr>nrows = 1, ncols = 1, rows = [[Fin 3]]\<rparr> 1 2 = Inr Y
            \<and> nrows Y = 1 \<and> ncols Y = 2)"
proof -
  have h: "nrows \<lparr>nrows = 1, ncols = 1, rows = [[Fin 3]]\<rparr>
             = nrows \<lparr>nrows = 1, ncols = 2, rows = [[Fin 1, Fin 2]]\<rparr>"
    "ncols \<lparr>nrows = 1, ncols = 1, rows = [[Fin 3]]\<rparr>
       = 1 * nrows \<lparr>nrows = 1, ncols = 2, rows = [[Fin 1, Fin 2]]\<rparr>"
    "(1::nat) \<le> ncols \<lparr>nrows = 1, ncols = 2, rows = [[Fin 1, Fin 2]]\<rparr>"
    "(1::nat) \<le> 2"
    by simp_all
  from var4cast_forecast_columns [OF h]
  obtain Y where "var4cast \<lparr>nrows = 1, ncols = 2, rows = [[Fin 1, Fin 2]]\<rparr>
              \<lparr>nrows = 1, ncols = 1, rows = [[Fin 3]]\<rparr> 1 2 = Inr Y"
    "nrows Y = nrows \<lparr>nrows = 1, ncols = 2, rows = [[Fin 1, Fin 2]]\<rparr>" "ncols Y = 2"
    by blast
  with h show ?thesis
    by simp
qed

section \<open>The second \<open>update_cg\<close> on arrays that fit\<close>

lemma update_cg_fits:
  assumes "length r = length var" "length q = length var" "length Aq = length var"
  shows "update_cg var r q Aq rold =
     Inr (vadd var (vsmul (rold / dot q Aq) q),
          vsub r (vsmul (rold / dot q Aq) Aq),
          vadd (vsub r (vsmul (rold / dot q Aq) Aq))
            (vsmul (dot (vsub r (vsmul (rold / dot q Aq) Aq))
                      (vsub r (vsmul (rold / dot q Aq) Aq)) / rold) q),
          dot (vsub r (vsmul (rold / dot q Aq) Aq)) (vsub r (vsmul (rold / dot q Aq) Aq)))"
  using assms by (simp add: update_cg_def Let_def inner_fits np_add1_fits np_sub1_fits)

lemma update_cg_lengths:
  assumes "length r = length var" "length q = length var" "length Aq = length var"
  shows "\<exists>var' r' q' rnew. update_cg var r q Aq rold = Inr (var', r', q', rnew)
           \<and> length var' = length var \<and> length r' = length var \<and> length q' = length var"
  using assms by (simp add: update_cg_fits)

lemma cg_loop_w_returns:
  assumes X: "nrows X = rank" and ind: "nrows ind = dim1" "ncols ind = ncols X"
  shows "length w = rank * dim1 \<Longrightarrow> length r = rank * dim1 \<Longrightarrow> length q = rank * dim1
    \<Longrightarrow> \<exists>w' r' q' rold'. cg_loop_w update_cg ind X rho rank dim1 n (w, r, q, rold)
                             = Inr (w', r', q', rold')
            \<and> length w' = rank * dim1 \<and> length r' = rank * dim1 \<and> length q' = rank * dim1"
proof (induction n arbitrary: w r q rold)
  case 0
  then show ?case by simp
next
  case (Suc n)
  let ?Q = "unvecF q rank dim1"
  let ?L = "madd (mprod X (mT (mul_ind (mprod (mT ?Q) X) ind))) (smul rho ?Q)"
  have q: "reshapeF q rank dim1 = Inr ?Q"
    by (rule reshapeF_fits) (rule Suc.prems(3))
  have l: "ell_w ind ?Q X rho = Inr ?L"
    by (rule ell_w_fits) (use X ind in simp_all)
  have len: "length (vecF ?L) = length w"
    using X Suc.prems(1) by (simp add: mult.commute)
  from update_cg_lengths [of r w q "vecF ?L" rold] len Suc.prems
  obtain w1 r1 q1 rold1 where u: "update_cg w r q (vecF ?L) rold = Inr (w1, r1, q1, rold1)"
    and len1: "length w1 = rank * dim1" "length r1 = rank * dim1" "length q1 = rank * dim1"
    by auto
  have step: "cg_loop_w update_cg ind X rho rank dim1 (Suc n) (w, r, q, rold)
              = cg_loop_w update_cg ind X rho rank dim1 n (w1, r1, q1, rold1)"
    by (simp only: cg_loop_w.simps q l u ebind_Inr)
  from Suc.IH [OF len1] show ?case
    unfolding step .
qed

lemma cg_loop_x_returns:
  assumes W: "nrows W = rank" and ind: "nrows ind = ncols W" "ncols ind = dim2"
    and A: "nrows A = rank" "ncols A = d * rank" and Psi: "psi_fits Psi d c dim2"
  shows "length x = rank * dim2 \<Longrightarrow> length r = rank * dim2 \<Longrightarrow> length q = rank * dim2
    \<Longrightarrow> \<exists>x' r' q' rold'. cg_loop_x update_cg ind W A Psi d lambda0 rho rank dim2 n (x, r, q, rold)
                             = Inr (x', r', q', rold')
            \<and> length x' = rank * dim2 \<and> length r' = rank * dim2 \<and> length q' = rank * dim2"
proof (induction n arbitrary: x r q rold)
  case 0
  then show ?case by simp
next
  case (Suc n)
  let ?Q = "unvecF q rank dim2"
  have q: "reshapeF q rank dim2 = Inr ?Q"
    by (rule reshapeF_fits) (rule Suc.prems(3))
  have "\<exists>L. ell_x ind W ?Q A Psi d lambda0 rho = Inr L \<and> nrows L = nrows ?Q \<and> ncols L = ncols ?Q"
    by (rule ell_x_shape [where n = c]) (use W ind A Psi in simp_all)
  then obtain L where l: "ell_x ind W ?Q A Psi d lambda0 rho = Inr L"
    and L: "nrows L = rank" "ncols L = dim2"
    by auto
  have len: "length (vecF L) = length x"
    using L Suc.prems(1) by (simp add: mult.commute)
  from update_cg_lengths [of r x q "vecF L" rold] len Suc.prems
  obtain x1 r1 q1 rold1 where u: "update_cg x r q (vecF L) rold = Inr (x1, r1, q1, rold1)"
    and len1: "length x1 = rank * dim2" "length r1 = rank * dim2" "length q1 = rank * dim2"
    by auto
  have step: "cg_loop_x update_cg ind W A Psi d lambda0 rho rank dim2 (Suc n) (x, r, q, rold)
              = cg_loop_x update_cg ind W A Psi d lambda0 rho rank dim2 n (x1, r1, q1, rold1)"
    by (simp only: cg_loop_x.simps q l u ebind_Inr)
  from Suc.IH [OF len1] show ?case
    unfolding step .
qed

lemma conj_grad_w_returns:
  assumes "w_fits sparse_mat ind W X"
  shows "\<exists>W'. conj_grad_w update_cg sparse_mat ind W X rho n = Inr W'
              \<and> nrows W' = nrows W \<and> ncols W' = ncols W \<and> wf_mat W'"
proof -
  from cg_start_w_fits [OF assms]
  obtain r where start: "cg_start_w sparse_mat ind W X rho = Inr (vecF W, r, r, dot r r)"
    and r: "length r = nrows W * ncols W"
    by blast
  from assms have s: "nrows X = nrows W" "nrows ind = ncols W" "ncols ind = ncols X"
    by (simp_all add: w_fits_def)
  have "\<exists>w' r' q' rold'. cg_loop_w update_cg ind X rho (nrows W) (ncols W) n
            (vecF W, r, r, dot r r) = Inr (w', r', q', rold')
          \<and> length w' = nrows W * ncols W \<and> length r' = nrows W * ncols W
          \<and> length q' = nrows W * ncols W"
    by (rule cg_loop_w_returns) (use s r in \<open>simp_all add: mult.commute\<close>)
  then obtain w' r' q' rold' where
    loop: "cg_loop_w update_cg ind X rho (nrows W) (ncols W) n (vecF W, r, r, dot r r)
           = Inr (w', r', q', rold')"
    and w': "length w' = nrows W * ncols W"
    by blast
  have "conj_grad_w update_cg sparse_mat ind W X rho n = Inr (unvecF w' (nrows W) (ncols W))"
    by (simp add: conj_grad_w_def Let_def start loop reshapeF_fits [OF w'])
  then show ?thesis
    by simp
qed

lemma conj_grad_x_returns:
  assumes "x_fits sparse_mat ind W X A Psi d"
  shows "\<exists>X'. conj_grad_x update_cg sparse_mat ind W X A Psi d lambda0 rho n = Inr X'
              \<and> nrows X' = nrows X \<and> ncols X' = ncols X \<and> wf_mat X'"
proof -
  from cg_start_x_fits [OF assms]
  obtain r where start: "cg_start_x sparse_mat ind W X A Psi d lambda0 rho
                         = Inr (vecF X, r, r, dot r r)"
    and r: "length r = nrows X * ncols X"
    by blast
  from assms have s: "nrows X = nrows W" "nrows ind = ncols W" "ncols ind = ncols X"
    "nrows A = nrows X" "ncols A = d * nrows X" "psi_fits Psi d (nrows (hd Psi)) (ncols X)"
    by (simp_all add: x_fits_def w_fits_def)
  have "\<exists>x' r' q' rold'. cg_loop_x update_cg ind W A Psi d lambda0 rho (nrows X) (ncols X) n
            (vecF X, r, r, dot r r) = Inr (x', r', q', rold')
          \<and> length x' = nrows X * ncols X \<and> length r' = nrows X * ncols X
          \<and> length q' = nrows X * ncols X"
    by (rule cg_loop_x_returns [where c = "nrows (hd Psi)"])
      (use s r in \<open>simp_all add: mult.commute\<close>)
  then obtain x' r' q' rold' where
    loop: "cg_loop_x update_cg ind W A Psi d lambda0 rho (nrows X) (ncols X) n
             (vecF X, r, r, dot r r) = Inr (x', r', q', rold')"
    and x': "length x' = nrows X * ncols X"
    by blast
  have "conj_grad_x update_cg sparse_mat ind W X A Psi d lambda0 rho n
        = Inr (unvecF x' (nrows X) (ncols X))"
    by (simp add: conj_grad_x_def Let_def start loop reshapeF_fits [OF x'])
  then show ?thesis
    by simp
qed

section \<open>Facts about the stack of lagged factors\<close>








section \<open>Facts about the fit\<close>




section \<open>The coefficient update is the closed form\<close>





section \<open>A fit on arrays that fit\<close>

lemma psi_fits_hd:
  assumes "psi_fits Psi d n T"
  shows "nrows (hd Psi) = n" "hd Psi = Psi ! 0"
  using assms by (cases Psi, simp_all add: psi_fits_def)+

lemma fit_round_runs:
  assumes fits: "fit_fits sparse_mat ind Psi rank d (mat_hat, W, X, A, temp)"
    and pinv: "pinv_shape pinv"
  shows "\<exists>W' X' Z XP.
           conj_grad_w update_cg sparse_mat ind W X rho 5 = Inr W'
         \<and> conj_grad_x update_cg sparse_mat ind W' X A Psi d lambda0 rho 5 = Inr X'
         \<and> stack_loop X' Psi rank [1..<d + 1] temp = Inr Z
         \<and> list_get Psi 0 = Inr (Psi ! 0)
         \<and> matmul X' (mT (Psi ! 0)) = Inr XP
         \<and> (\<forall>P. pinv Z = Inr P \<longrightarrow>
               (\<exists>A' mh. matmul XP P = Inr A' \<and> matmul (mT W') X' = Inr mh
                  \<and> nrows mh = nrows sparse_mat \<and> ncols mh = ncols sparse_mat
                  \<and> fit_fits sparse_mat ind Psi rank d (Some mh, W', X', A', Z)))"
proof -
  from fits have W: "nrows W = rank" and xf: "x_fits sparse_mat ind W X A Psi d"
    and temp: "nrows temp = d * rank" "ncols temp = nrows (hd Psi)"
    by (simp_all add: fit_fits_def)
  from xf have wf: "w_fits sparse_mat ind W X" and A: "nrows A = nrows X" "ncols A = d * nrows X"
    and Psi: "psi_fits Psi d (nrows (hd Psi)) (ncols X)"
    by (simp_all add: x_fits_def)
  from wf have s: "nrows X = nrows W" "nrows sparse_mat = ncols W" "ncols sparse_mat = ncols X"
    "nrows ind = ncols W" "ncols ind = ncols X"
    by (simp_all add: w_fits_def)
  note nth = psi_fits_nth [OF Psi]
  from conj_grad_w_returns [OF wf]
  obtain W' where cw: "conj_grad_w update_cg sparse_mat ind W X rho 5 = Inr W'"
    and W': "nrows W' = nrows W" "ncols W' = ncols W"
    by blast
  have xf': "x_fits sparse_mat ind W' X A Psi d"
    using xf W' by (simp add: x_fits_def w_fits_def)
  from conj_grad_x_returns [OF xf']
  obtain X' where cx: "conj_grad_x update_cg sparse_mat ind W' X A Psi d lambda0 rho 5 = Inr X'"
    and X': "nrows X' = nrows X" "ncols X' = ncols X"
    by blast
  define Z where "Z = foldl (\<lambda>temp k. set_rows temp ((k - 1) * rank) (k * rank)
                         (mprod X' (mT (Psi ! k)))) temp [1..<d + 1]"
  have stack: "stack_loop X' Psi rank [1..<d + 1] temp = Inr Z"
    unfolding Z_def by (rule stack_loop_fits [where d = d]) (use nth X' s W temp in auto)
  have Z: "nrows Z = d * rank" "ncols Z = nrows (hd Psi)"
    by (simp_all add: Z_def temp del: upt_Suc)
  have g: "list_get Psi 0 = Inr (Psi ! 0)"
    using nth [of 0] by (simp add: list_get_fits)
  have P0: "nrows (Psi ! 0) = nrows (hd Psi)" "ncols (Psi ! 0) = ncols X"
    using nth [of 0] by simp_all
  let ?XP = "mprod X' (mT (Psi ! 0))"
  have m: "matmul X' (mT (Psi ! 0)) = Inr ?XP"
    by (rule matmul_fits) (use P0 X' in simp)
  have after: "\<exists>A' mh. matmul ?XP P = Inr A' \<and> matmul (mT W') X' = Inr mh
                  \<and> nrows mh = nrows sparse_mat \<and> ncols mh = ncols sparse_mat
                  \<and> fit_fits sparse_mat ind Psi rank d (Some mh, W', X', A', Z)"
    if P: "pinv Z = Inr P" for P
  proof -
    from pinv P have Pshape: "nrows P = ncols Z" "ncols P = nrows Z"
      by (simp_all add: pinv_shape_def)
    have a: "matmul ?XP P = Inr (mprod ?XP P)"
      by (rule matmul_fits) (simp add: Pshape Z P0)
    have h: "matmul (mT W') X' = Inr (mprod (mT W') X')"
      by (rule matmul_fits) (simp add: W' X' s)
    have "fit_fits sparse_mat ind Psi rank d (Some (mprod (mT W') X'), W', X', mprod ?XP P, Z)"
      using W W' X' s Psi Pshape Z
      by (simp add: fit_fits_def x_fits_def w_fits_def)
    with a h show ?thesis
      using W' X' s by simp
  qed
  from cw cx stack g m after show ?thesis
    by blast
qed

lemma tmf_loop_runs:
  assumes pinv: "pinv_shape pinv"
  shows "fit_fits sparse_mat ind Psi rank d st
    \<Longrightarrow> (\<exists>st'. tmf_loop update_cg pinv sparse_mat ind Psi rank d lambda0 rho n st = Inr st'
               \<and> fit_fits sparse_mat ind Psi rank d st'
               \<and> (0 < n \<or> fst st \<noteq> None \<longrightarrow> fst st' \<noteq> None))
        \<or> (\<exists>M e. pinv M = Inl e
               \<and> tmf_loop update_cg pinv sparse_mat ind Psi rank d lambda0 rho n st = Inl e)"
proof (induction n arbitrary: st)
  case 0
  then show ?case by simp
next
  case (Suc n)
  obtain mat_hat W X A temp where st: "st = (mat_hat, W, X, A, temp)"
    using prod_cases5 by blast
  from fit_round_runs [OF Suc.prems [unfolded st] pinv, of rho lambda0]
  obtain W' X' Z XP where
    cw: "conj_grad_w update_cg sparse_mat ind W X rho 5 = Inr W'"
    and cx: "conj_grad_x update_cg sparse_mat ind W' X A Psi d lambda0 rho 5 = Inr X'"
    and stack: "stack_loop X' Psi rank [1..<d + 1] temp = Inr Z"
    and g: "list_get Psi 0 = Inr (Psi ! 0)"
    and m: "matmul X' (mT (Psi ! 0)) = Inr XP"
    and after: "\<And>P. pinv Z = Inr P \<Longrightarrow>
               \<exists>A' mh. matmul XP P = Inr A' \<and> matmul (mT W') X' = Inr mh
                  \<and> nrows mh = nrows sparse_mat \<and> ncols mh = ncols sparse_mat
                  \<and> fit_fits sparse_mat ind Psi rank d (Some mh, W', X', A', Z)"
    by blast
  show ?case
  proof (cases "pinv Z")
    case (Inl e)
    have "tmf_loop update_cg pinv sparse_mat ind Psi rank d lambda0 rho (Suc n) st = Inl e"
      unfolding st by (simp only: tmf_loop.simps cw cx stack g m Inl ebind_Inr ebind_Inl)
    with Inl show ?thesis
      by blast
  next
    case (Inr P)
    from after [OF Inr] obtain A' mh where a: "matmul XP P = Inr A'"
      and h: "matmul (mT W') X' = Inr mh"
      and fits': "fit_fits sparse_mat ind Psi rank d (Some mh, W', X', A', Z)"
      by blast
    have step: "tmf_loop update_cg pinv sparse_mat ind Psi rank d lambda0 rho (Suc n) st
                = tmf_loop update_cg pinv sparse_mat ind Psi rank d lambda0 rho n
                    (Some mh, W', X', A', Z)"
      unfolding st by (simp only: tmf_loop.simps cw cx stack g m Inr a h ebind_Inr)
    from Suc.IH [OF fits'] show ?thesis
      unfolding step by auto
  qed
qed

lemma notmf_loop_runs:
  assumes pinv: "pinv_shape pinv"
    and pos: "list_all (\<lambda>p. fst p < nrows sparse_mat \<and> snd p < ncols sparse_mat) pos_test"
  shows "fit_fits sparse_mat ind Psi rank d st
    \<Longrightarrow> (\<exists>st'. notmf_loop pinv sparse_mat ind Psi pos_test rank d lambda0 rho its st = Inr st'
               \<and> fit_fits sparse_mat ind Psi rank d st'
               \<and> (its \<noteq> [] \<or> fst st \<noteq> None \<longrightarrow> fst st' \<noteq> None))
        \<or> (\<exists>M e. pinv M = Inl e
               \<and> notmf_loop pinv sparse_mat ind Psi pos_test rank d lambda0 rho its st = Inl e)"
proof (induction its arbitrary: st)
  case Nil
  then show ?case by simp
next
  case (Cons it its)
  obtain mat_hat W X A temp where st: "st = (mat_hat, W, X, A, temp)"
    using prod_cases5 by blast
  from fit_round_runs [OF Cons.prems [unfolded st] pinv, of rho lambda0]
  obtain W' X' Z XP where
    cw: "conj_grad_w update_cg sparse_mat ind W X rho 5 = Inr W'"
    and cx: "conj_grad_x update_cg sparse_mat ind W' X A Psi d lambda0 rho 5 = Inr X'"
    and stack: "stack_loop X' Psi rank [1..<d + 1] temp = Inr Z"
    and g: "list_get Psi 0 = Inr (Psi ! 0)"
    and m: "matmul X' (mT (Psi ! 0)) = Inr XP"
    and after: "\<And>P. pinv Z = Inr P \<Longrightarrow>
               \<exists>A' mh. matmul XP P = Inr A' \<and> matmul (mT W') X' = Inr mh
                  \<and> nrows mh = nrows sparse_mat \<and> ncols mh = ncols sparse_mat
                  \<and> fit_fits sparse_mat ind Psi rank d (Some mh, W', X', A', Z)"
    by blast
  show ?case
  proof (cases "pinv Z")
    case (Inl e)
    have "notmf_loop pinv sparse_mat ind Psi pos_test rank d lambda0 rho (it # its) st = Inl e"
      unfolding st by (simp only: notmf_loop.simps cw cx stack g m Inl ebind_Inr ebind_Inl)
    with Inl show ?thesis
      by blast
  next
    case (Inr P)
    from after [OF Inr] obtain A' mh where a: "matmul XP P = Inr A'"
      and h: "matmul (mT W') X' = Inr mh"
      and mh: "nrows mh = nrows sparse_mat" "ncols mh = ncols sparse_mat"
      and fits': "fit_fits sparse_mat ind Psi rank d (Some mh, W', X', A', Z)"
      by blast
    have "\<exists>v. take_at mh pos_test = Inr v"
      using pos by (simp add: take_at_def mh)
    then obtain v where
      t: "(if (it + 1) mod 100 = 0 then take_at mh pos_test else Inr []) = Inr v"
      by (cases "(it + 1) mod 100 = 0") auto
    have step: "notmf_loop pinv sparse_mat ind Psi pos_test rank d lambda0 rho (it # its) st
                = notmf_loop pinv sparse_mat ind Psi pos_test rank d lambda0 rho its
                    (Some mh, W', X', A', Z)"
      unfolding st by (simp only: notmf_loop.simps cw cx stack g m Inr a h t ebind_Inr)
    from Cons.IH [OF fits'] show ?thesis
      unfolding step by auto
  qed
qed

lemma where_true_in_range:
  "list_all (\<lambda>p. fst p < nrows M \<and> snd p < ncols M) (where_true M)"
  by (auto simp: where_true_def list_all_iff)

lemma np_and_fits:
  assumes "nrows A = nrows B" "ncols A = ncols B"
  shows "\<exists>test. np_and p q A B = Inr test \<and> nrows test = nrows B \<and> ncols test = ncols B"
  using assms by (simp add: np_and_def)

lemma fill_nan_shape [simp]:
  "nrows (fill_nan M) = nrows M" "ncols (fill_nan M) = ncols M" "wf_mat (fill_nan M)"
  by (simp_all add: fill_nan_def)

lemma fit_start_fits:
  assumes Psi: "psi_fits Psi d c (ncols sparse_mat)"
    and ind: "nrows ind = nrows sparse_mat" "ncols ind = ncols sparse_mat"
  shows "fit_fits sparse_mat ind Psi rank d
           (None, smul s (mk_mat rank (nrows sparse_mat) f),
            smul s (mk_mat rank (ncols sparse_mat) g),
            smul s (mk_mat rank (d * rank) h), zeros (d * rank) c)"
  using Psi ind psi_fits_hd(1) [OF Psi]
  by (simp add: fit_fits_def x_fits_def w_fits_def)

lemma fit_fits_shapes:
  assumes "fit_fits sparse_mat ind Psi rank d (mat_hat, W, X, A, temp)"
  shows "nrows W = rank" "ncols W = nrows sparse_mat" "nrows X = rank"
    "ncols X = ncols sparse_mat" "nrows A = rank" "ncols A = d * rank"
  using assms by (simp_all add: fit_fits_def x_fits_def w_fits_def)

lemma tmf_runs:
  assumes "d \<le> ncols sparse_mat" "1 \<le> maxiter" "pinv_shape pinv"
  shows "(\<exists>mat_hat W X A. tmf update_cg rnd pinv sparse_mat rank d lambda0 rho maxiter
            = Inr (mat_hat, W, X, A))
       \<or> (\<exists>M e. pinv M = Inl e
            \<and> tmf update_cg rnd pinv sparse_mat rank d lambda0 rho maxiter = Inl e)"
proof -
  obtain Psi where Psi: "generate_Psi (ncols sparse_mat) d = Inr Psi"
    using assms(1) by (simp add: generate_Psi_def)
  let ?ind = "mk_mat (nrows sparse_mat) (ncols sparse_mat) (\<lambda>i j. elt sparse_mat i j \<noteq> 0)"
  let ?st = "(None :: fl mat option, smul (Fin (1 / 100)) (mk_mat rank (nrows sparse_mat) (rnd 0)),
              smul (Fin (1 / 100)) (mk_mat rank (ncols sparse_mat) (rnd 1)),
              smul (Fin (1 / 100)) (mk_mat rank (d * rank) (rnd 2)),
              zeros (d * rank) (ncols sparse_mat - d))"
  have fits: "fit_fits sparse_mat ?ind Psi rank d ?st"
    by (rule fit_start_fits [OF generate_Psi_fits [OF Psi]]) simp_all
  from tmf_loop_runs [OF assms(3) fits, of lambda0 rho maxiter]
  show ?thesis
  proof
    assume "\<exists>st'. tmf_loop update_cg pinv sparse_mat ?ind Psi rank d lambda0 rho maxiter ?st
                    = Inr st'
               \<and> fit_fits sparse_mat ?ind Psi rank d st'
               \<and> (0 < maxiter \<or> fst ?st \<noteq> None \<longrightarrow> fst st' \<noteq> None)"
    then obtain st' where
      run: "tmf_loop update_cg pinv sparse_mat ?ind Psi rank d lambda0 rho maxiter ?st = Inr st'"
      and some: "fst st' \<noteq> None"
      using assms(2) by auto
    obtain mh W X A temp where st': "st' = (mh, W, X, A, temp)"
      using prod_cases5 by blast
    with some obtain m where m: "mh = Some m"
      by auto
    have "tmf update_cg rnd pinv sparse_mat rank d lambda0 rho maxiter = Inr (m, W, X, A)"
      unfolding tmf_def Let_def Psi ebind_Inr run st' prod.case m option.case ..
    then show ?thesis
      by blast
  next
    assume "\<exists>M e. pinv M = Inl e
               \<and> tmf_loop update_cg pinv sparse_mat ?ind Psi rank d lambda0 rho maxiter ?st
                   = Inl e"
    then obtain M e where M: "pinv M = Inl e"
      and run: "tmf_loop update_cg pinv sparse_mat ?ind Psi rank d lambda0 rho maxiter ?st
                = Inl e"
      by blast
    have "tmf update_cg rnd pinv sparse_mat rank d lambda0 rho maxiter = Inl e"
      unfolding tmf_def Let_def Psi ebind_Inr run ebind_Inl ..
    with M show ?thesis
      by blast
  qed
qed

lemma notmf_start:
  assumes "nrows dense_mat = nrows sparse_mat" "ncols dense_mat = ncols sparse_mat"
  shows "\<exists>ind pos_test sm dense_test.
           (if \<not> has_nan sparse_mat
            then ebind (np_and (\<lambda>a. a \<noteq> 0) (\<lambda>b. b = 0) dense_mat sparse_mat) (\<lambda>test.
                 Inr (mk_mat (nrows sparse_mat) (ncols sparse_mat) (\<lambda>i j. elt sparse_mat i j \<noteq> 0),
                      where_true test, sparse_mat))
            else ebind (np_and (\<lambda>a. a \<noteq> 0) isnan dense_mat sparse_mat) (\<lambda>test.
                 Inr (mk_mat (nrows sparse_mat) (ncols sparse_mat)
                        (\<lambda>i j. \<not> isnan (elt sparse_mat i j)),
                      where_true test, fill_nan sparse_mat)))
           = Inr (ind, pos_test, sm)
         \<and> take_at dense_mat pos_test = Inr dense_test
         \<and> nrows ind = nrows sparse_mat \<and> ncols ind = ncols sparse_mat
         \<and> nrows sm = nrows sparse_mat \<and> ncols sm = ncols sparse_mat
         \<and> list_all (\<lambda>p. fst p < nrows sparse_mat \<and> snd p < ncols sparse_mat) pos_test"
proof -
  have pos: "list_all (\<lambda>p. fst p < nrows sparse_mat \<and> snd p < ncols sparse_mat) (where_true test)
             \<and> (\<exists>v. take_at dense_mat (where_true test) = Inr v)"
    if "nrows test = nrows sparse_mat" "ncols test = ncols sparse_mat" for test :: "bool mat"
    using where_true_in_range [of test] that assms by (simp add: take_at_def)
  show ?thesis
  proof (cases "has_nan sparse_mat")
    case False
    from np_and_fits [OF assms, of "\<lambda>a. a \<noteq> 0" "\<lambda>b. b = 0"]
    obtain test where t: "np_and (\<lambda>a. a \<noteq> 0) (\<lambda>b. b = 0) dense_mat sparse_mat = Inr test"
      and shape: "nrows test = nrows sparse_mat" "ncols test = ncols sparse_mat"
      by blast
    from pos [OF shape] False t show ?thesis
      by auto
  next
    case True
    from np_and_fits [OF assms, of "\<lambda>a. a \<noteq> 0" isnan]
    obtain test where t: "np_and (\<lambda>a. a \<noteq> 0) isnan dense_mat sparse_mat = Inr test"
      and shape: "nrows test = nrows sparse_mat" "ncols test = ncols sparse_mat"
      by blast
    from pos [OF shape] True t show ?thesis
      by auto
  qed
qed

lemma notmf_runs:
  assumes dense: "nrows dense_mat = nrows sparse_mat" "ncols dense_mat = ncols sparse_mat"
    and window: "d + season \<le> ncols sparse_mat" and maxiter: "1 \<le> maxiter"
    and pinv: "pinv_shape pinv"
  shows "(\<exists>mat_hat W X A.
            notmf rnd pinv dense_mat sparse_mat rank d lambda0 rho season maxiter
              = Inr (mat_hat, W, X, A)
            \<and> nrows W = rank \<and> ncols W = nrows sparse_mat
            \<and> nrows X = rank \<and> ncols X = ncols sparse_mat
            \<and> nrows A = rank \<and> ncols A = d * rank)
       \<or> (\<exists>M e. pinv M = Inl e
            \<and> notmf rnd pinv dense_mat sparse_mat rank d lambda0 rho season maxiter = Inl e)"
proof -
  obtain Psi where Psi: "generate_Psi_season (ncols sparse_mat) d season = Inr Psi"
    using window by (simp add: generate_Psi_season_def)
  from notmf_start [OF dense]
  obtain ind pos_test sm dense_test where
    start: "(if \<not> has_nan sparse_mat
            then ebind (np_and (\<lambda>a. a \<noteq> 0) (\<lambda>b. b = 0) dense_mat sparse_mat) (\<lambda>test.
                 Inr (mk_mat (nrows sparse_mat) (ncols sparse_mat) (\<lambda>i j. elt sparse_mat i j \<noteq> 0),
                      where_true test, sparse_mat))
            else ebind (np_and (\<lambda>a. a \<noteq> 0) isnan dense_mat sparse_mat) (\<lambda>test.
                 Inr (mk_mat (nrows sparse_mat) (ncols sparse_mat)
                        (\<lambda>i j. \<not> isnan (elt sparse_mat i j)),
                      where_true test, fill_nan sparse_mat)))
           = Inr (ind, pos_test, sm)"
    and dt: "take_at dense_mat pos_test = Inr dense_test"
    and ind: "nrows ind = nrows sparse_mat" "ncols ind = ncols sparse_mat"
    and sm: "nrows sm = nrows sparse_mat" "ncols sm = ncols sparse_mat"
    and pos: "list_all (\<lambda>p. fst p < nrows sparse_mat \<and> snd p < ncols sparse_mat) pos_test"
    by blast
  let ?st = "(None :: fl mat option, smul (Fin (1 / 100)) (mk_mat rank (nrows sparse_mat) (rnd 0)),
              smul (Fin (1 / 100)) (mk_mat rank (ncols sparse_mat) (rnd 1)),
              smul (Fin (1 / 100)) (mk_mat rank (d * rank) (rnd 2)),
              zeros (d * rank) (ncols sparse_mat - d - season))"
  have "fit_fits sm ind Psi rank d
          (None, smul (Fin (1 / 100)) (mk_mat rank (nrows sm) (rnd 0)),
           smul (Fin (1 / 100)) (mk_mat rank (ncols sm) (rnd 1)),
           smul (Fin (1 / 100)) (mk_mat rank (d * rank) (rnd 2)),
           zeros (d * rank) (ncols sparse_mat - d - season))"
    by (rule fit_start_fits) (use generate_Psi_season_fits [OF Psi] ind sm in simp_all)
  then have fits: "fit_fits sm ind Psi rank d ?st"
    by (simp add: sm)
  have pos': "list_all (\<lambda>p. fst p < nrows sm \<and> snd p < ncols sm) pos_test"
    using pos by (simp add: sm)
  from notmf_loop_runs [OF pinv pos' fits, of lambda0 rho "[0..<maxiter]"]
  show ?thesis
  proof
    assume "\<exists>st'. notmf_loop pinv sm ind Psi pos_test rank d lambda0 rho [0..<maxiter] ?st
                    = Inr st'
               \<and> fit_fits sm ind Psi rank d st'
               \<and> ([0..<maxiter] \<noteq> [] \<or> fst ?st \<noteq> None \<longrightarrow> fst st' \<noteq> None)"
    then obtain st' where
      run: "notmf_loop pinv sm ind Psi pos_test rank d lambda0 rho [0..<maxiter] ?st = Inr st'"
      and fits': "fit_fits sm ind Psi rank d st'"
      and some: "fst st' \<noteq> None"
      using maxiter by auto
    obtain mh W X A temp where st': "st' = (mh, W, X, A, temp)"
      using prod_cases5 by blast
    with some obtain m where m: "mh = Some m"
      by auto
    have "notmf rnd pinv dense_mat sparse_mat rank d lambda0 rho season maxiter
          = Inr (m, W, X, A)"
      unfolding notmf_def Let_def start ebind_Inr prod.case dt Psi run st' m option.case ..
    with fit_fits_shapes [OF fits' [unfolded st']] sm show ?thesis
      by simp
  next
    assume "\<exists>M e. pinv M = Inl e
               \<and> notmf_loop pinv sm ind Psi pos_test rank d lambda0 rho [0..<maxiter] ?st
                   = Inl e"
    then obtain M e where M: "pinv M = Inl e"
      and run: "notmf_loop pinv sm ind Psi pos_test rank d lambda0 rho [0..<maxiter] ?st
                = Inl e"
      by blast
    have "notmf rnd pinv dense_mat sparse_mat rank d lambda0 rho season maxiter = Inl e"
      unfolding notmf_def Let_def start ebind_Inr prod.case dt Psi run ebind_Inl ..
    with M show ?thesis
      by blast
  qed
qed

lemma notmf_dic_runs:
  assumes W: "nrows X = nrows W" "ncols W = nrows obs" and X: "ncols X = ncols obs"
    and A: "nrows A = nrows X" "ncols A = d * nrows X"
    and window: "d + season \<le> ncols obs" and pinv: "pinv_shape pinv"
  shows "(\<exists>X' A'. notmf_dic pinv obs W X A d lambda0 rho season = Inr (X', A')
            \<and> nrows X' = nrows X \<and> ncols X' = ncols X
            \<and> nrows A' = nrows X \<and> ncols A' = d * nrows X)
       \<or> (\<exists>M e. pinv M = Inl e \<and> notmf_dic pinv obs W X A d lambda0 rho season = Inl e)"
proof -
  obtain Psi where Psi: "generate_Psi_season (ncols obs) d season = Inr Psi"
    using window by (simp add: generate_Psi_season_def)
  note pf = generate_Psi_season_fits [OF Psi]
  note nth = psi_fits_nth [OF pf]
  define ind where "ind = (if \<not> has_nan obs
       then mk_mat (nrows obs) (ncols obs) (\<lambda>i j. elt obs i j \<noteq> 0)
       else mk_mat (nrows obs) (ncols obs) (\<lambda>i j. \<not> isnan (elt obs i j)))"
  define ob where "ob = (if \<not> has_nan obs then obs else fill_nan obs)"
  have shapes: "nrows ind = nrows obs" "ncols ind = ncols obs"
    "nrows ob = nrows obs" "ncols ob = ncols obs"
    by (simp_all add: ind_def ob_def)
  have "x_fits ob ind W X A Psi d"
    using W X A shapes pf psi_fits_hd(1) [OF pf] by (simp add: x_fits_def w_fits_def)
  from conj_grad_x_returns [OF this]
  obtain X' where cx: "conj_grad_x update_cg ob ind W X A Psi d lambda0 rho 5 = Inr X'"
    and X': "nrows X' = nrows X" "ncols X' = ncols X"
    by blast
  define Z where "Z = foldl (\<lambda>temp k. set_rows temp ((k - 1) * nrows X) (k * nrows X)
                         (mprod X' (mT (Psi ! k))))
                       (zeros (d * nrows X) (ncols obs - d - season)) [1..<d + 1]"
  have stack: "stack_loop X' Psi (nrows X) [1..<d + 1] (zeros (d * nrows X) (ncols obs - d - season))
               = Inr Z"
    unfolding Z_def by (rule stack_loop_fits [where d = d]) (use nth X' X in auto)
  have Z: "nrows Z = d * nrows X" "ncols Z = ncols obs - d - season"
    by (simp_all add: Z_def del: upt_Suc)
  have g: "list_get Psi 0 = Inr (Psi ! 0)"
    using nth [of 0] by (simp add: list_get_fits)
  let ?XP = "mprod X' (mT (Psi ! 0))"
  have m: "matmul X' (mT (Psi ! 0)) = Inr ?XP"
    by (rule matmul_fits) (use nth [of 0] X' X in simp)
  show ?thesis
  proof (cases "pinv Z")
    case (Inl e)
    have "notmf_dic pinv obs W X A d lambda0 rho season = Inl e"
      unfolding notmf_dic_def Let_def ind_def [symmetric] ob_def [symmetric]
      by (simp only: Psi cx stack g m Inl ebind_Inr ebind_Inl)
    with Inl show ?thesis
      by blast
  next
    case (Inr P)
    from pinv Inr have Pshape: "nrows P = ncols Z" "ncols P = nrows Z"
      by (simp_all add: pinv_shape_def)
    have a: "matmul ?XP P = Inr (mprod ?XP P)"
      by (rule matmul_fits) (use nth [of 0] Pshape Z in simp)
    have "notmf_dic pinv obs W X A d lambda0 rho season = Inr (X', mprod ?XP P)"
      unfolding notmf_dic_def Let_def ind_def [symmetric] ob_def [symmetric]
      by (simp only: Psi cx stack g m Inr a ebind_Inr)
    then show ?thesis
      using X' Pshape Z by simp
  qed
qed


lemma pinv_demo_shape: "pinv_shape pinv_demo"
  by (auto simp: pinv_shape_def pinv_demo_def)





section \<open>No check of the configuration\<close>

text \<open>\<open>notmf\<close> with \<open>maxiter = 0\<close> ends like \<open>tmf\<close>: no round has assigned \<open>mat_hat\<close>.\<close>

lemma notmf_no_rounds:
  assumes "nrows dense_mat = nrows sparse_mat" "ncols dense_mat = ncols sparse_mat"
  shows "notmf rnd pinv dense_mat sparse_mat rank d lambda0 rho season 0 =
     (if ncols sparse_mat < d + season then Inl ValueError
      else Inl (UnboundLocalError ''mat_hat''))"
proof -
  from notmf_start [OF assms]
  obtain ind pos_test sm dense_test where
    start: "(if \<not> has_nan sparse_mat
            then ebind (np_and (\<lambda>a. a \<noteq> 0) (\<lambda>b. b = 0) dense_mat sparse_mat) (\<lambda>test.
                 Inr (mk_mat (nrows sparse_mat) (ncols sparse_mat) (\<lambda>i j. elt sparse_mat i j \<noteq> 0),
                      where_true test, sparse_mat))
            else ebind (np_and (\<lambda>a. a \<noteq> 0) isnan dense_mat sparse_mat) (\<lambda>test.
                 Inr (mk_mat (nrows sparse_mat) (ncols sparse_mat)
                        (\<lambda>i j. \<not> isnan (elt sparse_mat i j)),
                      where_true test, fill_nan sparse_mat)))
           = Inr (ind, pos_test, sm)"
    and dt: "take_at dense_mat pos_test = Inr dense_test"
    by blast
  show ?thesis
    unfolding notmf_def Let_def start ebind_Inr prod.case dt
    by (simp add: generate_Psi_season_def)
qed

lemma notmf_short_window:
  assumes "nrows dense_mat = nrows sparse_mat" "ncols dense_mat = ncols sparse_mat"
    and "ncols sparse_mat < d + season"
  shows "notmf rnd pinv dense_mat sparse_mat rank d lambda0 rho season maxiter = Inl ValueError"
proof -
  from notmf_start [OF assms(1,2)]
  obtain ind pos_test sm dense_test where
    start: "(if \<not> has_nan sparse_mat
            then ebind (np_and (\<lambda>a. a \<noteq> 0) (\<lambda>b. b = 0) dense_mat sparse_mat) (\<lambda>test.
                 Inr (mk_mat (nrows sparse_mat) (ncols sparse_mat) (\<lambda>i j. elt sparse_mat i j \<noteq> 0),
                      where_true test, sparse_mat))
            else ebind (np_and (\<lambda>a. a \<noteq> 0) isnan dense_mat sparse_mat) (\<lambda>test.
                 Inr (mk_mat (nrows sparse_mat) (ncols sparse_mat)
                        (\<lambda>i j. \<not> isnan (elt sparse_mat i j)),
                      where_true test, fill_nan sparse_mat)))
           = Inr (ind, pos_test, sm)"
    and dt: "take_at dense_mat pos_test = Inr dense_test"
    by blast
  show ?thesis
    unfolding notmf_def Let_def start ebind_Inr prod.case dt
    using assms(3) by (simp add: generate_Psi_season_def)
qed

text \<open>
  C7, as stated, fails: with the rank \<open>R = 0\<close> the fit is not stopped. It runs its round
  on arrays without rows and returns them.
\<close>

theorem notmf_rank_zero_counterexample:
  "notmf rnd_demo pinv_demo obs3 obs3 0 1 (Fin 1) (Fin 1) 1 1
   = Inr (\<lparr>nrows = 1, ncols = 3, rows = [[Fin 0, Fin 0, Fin 0]]\<rparr>,
          \<lparr>nrows = 0, ncols = 1, rows = []\<rparr>,
          \<lparr>nrows = 0, ncols = 3, rows = []\<rparr>,
          \<lparr>nrows = 0, ncols = 0, rows = []\<rparr>)"
  by code_simp

text \<open>
  C7, amended: a fit checks nothing of its configuration. Let \<open>dense_mat\<close> have the shape of
  \<open>sparse_mat\<close>, and let \<open>pinv\<close> return an \<open>n \<times> m\<close> array for an \<open>m \<times> n\<close> one. For every
  rank, order and season with \<open>d + m \<le> T\<close>, which includes \<open>R = 0\<close>, \<open>d = 0\<close>, \<open>m = 0\<close> and a
  window of exactly \<open>d + m\<close> steps, and every \<open>maxiter \<ge> 1\<close>, \<open>notmf\<close> runs its rounds: it
  returns, or it ends in an error that \<open>np.linalg.pinv\<close> raised. The same holds for \<open>tmf\<close>
  running with the second \<open>update_cg\<close> and for the refit \<open>notmf_dic\<close> of a rolling step.
  Only a window shorter than \<open>d + m\<close> stops \<open>notmf\<close> before the first round, with the
  \<open>ValueError\<close> numpy raises for a negative dimension while the operators are generated.
\<close>

theorem notmf_no_validation:
  "(nrows dense_mat = nrows sparse_mat \<and> ncols dense_mat = ncols sparse_mat
      \<and> d + season \<le> ncols sparse_mat \<and> 1 \<le> maxiter \<and> pinv_shape pinv
      \<longrightarrow> (\<exists>mat_hat W X A.
             notmf rnd pinv dense_mat sparse_mat rank d lambda0 rho season maxiter
               = Inr (mat_hat, W, X, A))
          \<or> (\<exists>M e. pinv M = Inl e
                \<and> notmf rnd pinv dense_mat sparse_mat rank d lambda0 rho season maxiter = Inl e))
   \<and> (nrows dense_mat = nrows sparse_mat \<and> ncols dense_mat = ncols sparse_mat
      \<and> ncols sparse_mat < d + season
      \<longrightarrow> notmf rnd pinv dense_mat sparse_mat rank d lambda0 rho season maxiter = Inl ValueError)
   \<and> (d \<le> ncols sparse_mat \<and> 1 \<le> maxiter \<and> pinv_shape pinv
      \<longrightarrow> (\<exists>mat_hat W X A.
             tmf update_cg rnd pinv sparse_mat rank d lambda0 rho maxiter = Inr (mat_hat, W, X, A))
          \<or> (\<exists>M e. pinv M = Inl e
                \<and> tmf update_cg rnd pinv sparse_mat rank d lambda0 rho maxiter = Inl e))
   \<and> (nrows X0 = nrows W0 \<and> ncols W0 = nrows sparse_mat \<and> ncols X0 = ncols sparse_mat
      \<and> nrows A0 = nrows X0 \<and> ncols A0 = d * nrows X0
      \<and> d + season \<le> ncols sparse_mat \<and> pinv_shape pinv
      \<longrightarrow> (\<exists>X A. notmf_dic pinv sparse_mat W0 X0 A0 d lambda0 rho season = Inr (X, A))
          \<or> (\<exists>M e. pinv M = Inl e
                \<and> notmf_dic pinv sparse_mat W0 X0 A0 d lambda0 rho season = Inl e))"
proof (intro conjI impI)
  assume "nrows dense_mat = nrows sparse_mat \<and> ncols dense_mat = ncols sparse_mat
      \<and> d + season \<le> ncols sparse_mat \<and> 1 \<le> maxiter \<and> pinv_shape pinv"
  then have h: "nrows dense_mat = nrows sparse_mat" "ncols dense_mat = ncols sparse_mat"
    "d + season \<le> ncols sparse_mat" "1 \<le> maxiter" "pinv_shape pinv"
    by simp_all
  from notmf_runs [OF h, of rnd rank lambda0 rho]
  show "(\<exists>mat_hat W X A.
             notmf rnd pinv dense_mat sparse_mat rank d lambda0 rho season maxiter
               = Inr (mat_hat, W, X, A))
          \<or> (\<exists>M e. pinv M = Inl e
                \<and> notmf rnd pinv dense_mat sparse_mat rank d lambda0 rho season maxiter = Inl e)"
    by blast
next
  assume "nrows dense_mat = nrows sparse_mat \<and> ncols dense_mat = ncols sparse_mat
      \<and> ncols sparse_mat < d + season"
  then show "notmf rnd pinv dense_mat sparse_mat rank d lambda0 rho season maxiter
             = Inl ValueError"
    by (simp add: notmf_short_window)
next
  assume "d \<le> ncols sparse_mat \<and> 1 \<le> maxiter \<and> pinv_shape pinv"
  then have h: "d \<le> ncols sparse_mat" "1 \<le> maxiter" "pinv_shape pinv"
    by simp_all
  from tmf_runs [OF h]
  show "(\<exists>mat_hat W X A.
             tmf update_cg rnd pinv sparse_mat rank d lambda0 rho maxiter = Inr (mat_hat, W, X, A))
          \<or> (\<exists>M e. pinv M = Inl e
                \<and> tmf update_cg rnd pinv sparse_mat rank d lambda0 rho maxiter = Inl e)" .
next
  assume "nrows X0 = nrows W0 \<and> ncols W0 = nrows sparse_mat \<and> ncols X0 = ncols sparse_mat
      \<and> nrows A0 = nrows X0 \<and> ncols A0 = d * nrows X0
      \<and> d + season \<le> ncols sparse_mat \<and> pinv_shape pinv"
  then have h: "nrows X0 = nrows W0" "ncols W0 = nrows sparse_mat" "ncols X0 = ncols sparse_mat"
    "nrows A0 = nrows X0" "ncols A0 = d * nrows X0" "d + season \<le> ncols sparse_mat"
    "pinv_shape pinv"
    by simp_all
  from notmf_dic_runs [OF h, of lambda0 rho]
  show "(\<exists>X A. notmf_dic pinv sparse_mat W0 X0 A0 d lambda0 rho season = Inr (X, A))
          \<or> (\<exists>M e. pinv M = Inl e
                \<and> notmf_dic pinv sparse_mat W0 X0 A0 d lambda0 rho season = Inl e)"
    by blast
qed

theorem notmf_no_validation_witness:
  "nrows one1 = nrows one1 \<and> ncols one1 = ncols one1
   \<and> (0::nat) + 1 \<le> ncols one1 \<and> (1::nat) \<le> 1 \<and> pinv_shape pinv_demo
   \<and> (\<exists>mat_hat W X A.
         notmf rnd_demo pinv_demo one1 one1 0 0 (Fin 1) (Fin 1) 1 1 = Inr (mat_hat, W, X, A))
   \<and> ncols one1 < (1::nat) + 1
   \<and> notmf rnd_demo pinv_demo one1 one1 1 1 (Fin 1) (Fin 1) 1 1 = Inl ValueError
   \<and> (0::nat) \<le> ncols one1
   \<and> (\<exists>mat_hat W X A.
         tmf update_cg rnd_demo pinv_demo one1 0 0 (Fin 1) (Fin 1) 1 = Inr (mat_hat, W, X, A))
   \<and> ncols one1 = 0 * nrows one1 + 1
   \<and> (\<exists>X A. notmf_dic pinv_demo one1 one1 one1 (zeros 1 0) 0 (Fin 1) (Fin 1) 1 = Inr (X, A))"
proof -
  have h: "nrows one1 = nrows one1 \<and> ncols one1 = ncols one1
      \<and> (0::nat) + 1 \<le> ncols one1 \<and> (1::nat) \<le> 1 \<and> pinv_shape pinv_demo"
    using pinv_demo_shape by (simp add: one1_def)
  have g: "nrows one1 = nrows one1 \<and> ncols one1 = ncols one1 \<and> ncols one1 < (1::nat) + 1"
    by (simp add: one1_def)
  have t: "(0::nat) \<le> ncols one1 \<and> (1::nat) \<le> 1 \<and> pinv_shape pinv_demo"
    using pinv_demo_shape by simp
  have k: "nrows one1 = nrows one1 \<and> ncols one1 = nrows one1 \<and> ncols one1 = ncols one1
      \<and> nrows (zeros 1 0) = nrows one1 \<and> ncols (zeros 1 0) = 0 * nrows one1
      \<and> 0 + 1 \<le> ncols one1 \<and> pinv_shape pinv_demo"
    using pinv_demo_shape by (simp add: one1_def)
  have never: "pinv_demo M \<noteq> Inl e" for M e
    by (simp add: pinv_demo_def)
  from notmf_no_validation [THEN conjunct1, rule_format, OF h] never
  have a: "\<exists>mat_hat W X A. notmf rnd_demo pinv_demo one1 one1 0 0 (Fin 1) (Fin 1) 1 1
             = Inr (mat_hat, W, X, A)"
    by blast
  from notmf_no_validation [THEN conjunct2, THEN conjunct1, rule_format, OF g]
  have b: "notmf rnd_demo pinv_demo one1 one1 1 1 (Fin 1) (Fin 1) 1 1 = Inl ValueError" .
  from notmf_no_validation [THEN conjunct2, THEN conjunct2, THEN conjunct1, rule_format, OF t]
    never
  have c: "\<exists>mat_hat W X A. tmf update_cg rnd_demo pinv_demo one1 0 0 (Fin 1) (Fin 1) 1
             = Inr (mat_hat, W, X, A)"
    by blast
  from notmf_no_validation [THEN conjunct2, THEN conjunct2, THEN conjunct2, rule_format, OF k]
    never
  have e: "\<exists>X A. notmf_dic pinv_demo one1 one1 one1 (zeros 1 0) 0 (Fin 1) (Fin 1) 1 = Inr (X, A)"
    by blast
  have "ncols one1 = 0 * nrows one1 + 1"
    by (simp add: one1_def)
  with h g a b c e show ?thesis
    by simp
qed

section \<open>No check of the denominator\<close>

lemma is_finite_simps [simp]:
  "is_finite (Fin a)" "\<not> is_finite NaN" "\<not> is_finite PInf" "\<not> is_finite NInf"
  by (simp_all add: is_finite_def)

lemma not_finite_inf_of_sign [simp]: "\<not> is_finite (inf_of_sign s)"
  by (simp add: inf_of_sign_def)

lemma not_finite_times: "\<not> is_finite a \<Longrightarrow> \<not> is_finite (a * b)"
  by (cases a; cases b) simp_all

lemma not_finite_plus: "\<not> is_finite b \<Longrightarrow> \<not> is_finite (a + b)"
  by (cases a; cases b) simp_all

lemma not_finite_plus_left: "\<not> is_finite a \<Longrightarrow> \<not> is_finite (a + b)"
  by (cases a; cases b) simp_all

lemma not_finite_div_zero: "\<not> is_finite (a / 0)"
  by (cases a) (simp_all add: divide_fl_def zero_fl_def)

lemma set_bcast1: "x \<in> set (bcast1 v n) \<Longrightarrow> x \<in> set v"
  by (cases v) (auto simp: bcast1_def split: if_splits)

lemma np_add1_left:
  assumes "np_add1 u v = Inr y" "\<forall>x \<in> set u. \<not> is_finite x"
  shows "\<forall>x \<in> set y. \<not> is_finite x"
proof
  fix x assume x: "x \<in> set y"
  from assms(1) obtain n where y: "y = vadd (bcast1 u n) (bcast1 v n)"
    by (auto simp: np_add1_def ebind_eq_Inr)
  from x obtain a b where "x = a + b" "a \<in> set (bcast1 u n)"
    unfolding y vadd_def by (auto simp: set_zip)
  with assms(2) set_bcast1 [of a u n] show "\<not> is_finite x"
    by (simp add: not_finite_plus_left)
qed

lemma np_add1_right:
  assumes "np_add1 u v = Inr y" "\<forall>x \<in> set v. \<not> is_finite x"
  shows "\<forall>x \<in> set y. \<not> is_finite x"
proof
  fix x assume x: "x \<in> set y"
  from assms(1) obtain n where y: "y = vadd (bcast1 u n) (bcast1 v n)"
    by (auto simp: np_add1_def ebind_eq_Inr)
  from x obtain a b where "x = a + b" "b \<in> set (bcast1 v n)"
    unfolding y vadd_def by (auto simp: set_zip)
  with assms(2) set_bcast1 [of b v n] show "\<not> is_finite x"
    by (simp add: not_finite_plus)
qed

lemma update_cg_zero_denominator:
  assumes "inner q Aq = Inr 0" "update_cg var r q Aq rold = Inr (var', r', q', rnew)"
  shows "\<forall>x \<in> set var'. \<not> is_finite x"
proof -
  from assms have step: "np_add1 var (vsmul (rold / 0) q) = Inr var'"
    by (auto simp: update_cg_def Let_def ebind_eq_Inr)
  have "\<forall>x \<in> set (vsmul (rold / 0) q). \<not> is_finite x"
    by (auto simp: vsmul_def not_finite_times not_finite_div_zero)
  with step show ?thesis
    by (rule np_add1_right)
qed

lemma update_cg_keeps_nonfinite:
  assumes "update_cg var r q Aq rold = Inr (var', r', q', rnew)" "\<forall>x \<in> set var. \<not> is_finite x"
  shows "\<forall>x \<in> set var'. \<not> is_finite x"
proof -
  from assms(1) obtain alpha where "np_add1 var (vsmul alpha q) = Inr var'"
    by (auto simp: update_cg_def Let_def ebind_eq_Inr)
  then show ?thesis
    using assms(2) by (rule np_add1_left)
qed

lemma cg_loop_w_keeps_nonfinite:
  "cg_loop_w update_cg ind X rho rank dim1 n (w, r, q, rold) = Inr (w', r', q', rold')
    \<Longrightarrow> \<forall>x \<in> set w. \<not> is_finite x \<Longrightarrow> \<forall>x \<in> set w'. \<not> is_finite x"
proof (induction n arbitrary: w r q rold)
  case 0
  then show ?case by simp
next
  case (Suc n)
  from Suc.prems(1) obtain Aq w1 r1 q1 rold1 where
    u: "update_cg w r q Aq rold = Inr (w1, r1, q1, rold1)"
    and rest: "cg_loop_w update_cg ind X rho rank dim1 n (w1, r1, q1, rold1)
               = Inr (w', r', q', rold')"
    by (auto simp: ebind_eq_Inr)
  from Suc.IH [OF rest update_cg_keeps_nonfinite [OF u Suc.prems(2)]] show ?case .
qed

lemma cg_loop_x_keeps_nonfinite:
  "cg_loop_x update_cg ind W A Psi d lambda0 rho rank dim2 n (x, r, q, rold)
     = Inr (x', r', q', rold')
    \<Longrightarrow> \<forall>v \<in> set x. \<not> is_finite v \<Longrightarrow> \<forall>v \<in> set x'. \<not> is_finite v"
proof (induction n arbitrary: x r q rold)
  case 0
  then show ?case by simp
next
  case (Suc n)
  from Suc.prems(1) obtain Aq x1 r1 q1 rold1 where
    u: "update_cg x r q Aq rold = Inr (x1, r1, q1, rold1)"
    and rest: "cg_loop_x update_cg ind W A Psi d lambda0 rho rank dim2 n (x1, r1, q1, rold1)
               = Inr (x', r', q', rold')"
    by (auto simp: ebind_eq_Inr)
  from Suc.IH [OF rest update_cg_keeps_nonfinite [OF u Suc.prems(2)]] show ?case .
qed

lemma cg_loop_w_add:
  "cg_loop_w upd ind X rho rank dim1 (m + n) s
     = ebind (cg_loop_w upd ind X rho rank dim1 m s) (cg_loop_w upd ind X rho rank dim1 n)"
proof (induction m arbitrary: s)
  case 0
  then show ?case by simp
next
  case (Suc m)
  obtain w r q rold where s: "s = (w, r, q, rold)"
    using prod_cases4 by blast
  have "cg_loop_w upd ind X rho rank dim1 (m + n)
        = (\<lambda>s. ebind (cg_loop_w upd ind X rho rank dim1 m s) (cg_loop_w upd ind X rho rank dim1 n))"
    by (rule ext) (rule Suc.IH)
  then show ?case
    unfolding s by (simp add: ebind_assoc)
qed

lemma cg_loop_x_add:
  "cg_loop_x upd ind W A Psi d lambda0 rho rank dim2 (m + n) s
     = ebind (cg_loop_x upd ind W A Psi d lambda0 rho rank dim2 m s)
         (cg_loop_x upd ind W A Psi d lambda0 rho rank dim2 n)"
proof (induction m arbitrary: s)
  case 0
  then show ?case by simp
next
  case (Suc m)
  obtain x r q rold where s: "s = (x, r, q, rold)"
    using prod_cases4 by blast
  have "cg_loop_x upd ind W A Psi d lambda0 rho rank dim2 (m + n)
        = (\<lambda>s. ebind (cg_loop_x upd ind W A Psi d lambda0 rho rank dim2 m s)
                 (cg_loop_x upd ind W A Psi d lambda0 rho rank dim2 n))"
    by (rule ext) (rule Suc.IH)
  then show ?case
    unfolding s by (simp add: ebind_assoc)
qed

lemma elt_unvecF_mem:
  assumes "length v = r * c" "i < r" "j < c"
  shows "elt (unvecF v r c) i j \<in> set v"
proof -
  have "j * r + i < (j + 1) * r"
    using assms(2) by simp
  also have "\<dots> \<le> c * r"
    using assms(3) by (intro mult_le_mono1) simp
  finally have "j * r + i < length v"
    using assms(1) by (simp add: mult.commute)
  then show ?thesis
    using assms(2,3) by (simp add: unvecF_def)
qed

lemma conj_grad_w_zero_denominator:
  assumes fits: "w_fits sparse_mat ind W X" and k: "k < maxiter"
    and start: "cg_start_w sparse_mat ind W X rho = Inr s0"
    and before: "cg_loop_w update_cg ind X rho (nrows W) (ncols W) k s0 = Inr (w, r, q, rold)"
    and Q: "reshapeF q (nrows W) (ncols W) = Inr Q"
    and L: "ell_w ind Q X rho = Inr L"
    and zero: "inner q (vecF L) = Inr 0"
  shows "\<exists>W'. conj_grad_w update_cg sparse_mat ind W X rho maxiter = Inr W'
              \<and> (\<forall>i < nrows W. \<forall>j < ncols W. \<not> is_finite (elt W' i j))"
proof -
  from conj_grad_w_returns [OF fits]
  obtain W' where run: "conj_grad_w update_cg sparse_mat ind W X rho maxiter = Inr W'"
    by blast
  from run start obtain wF rF qF roldF where
    loop: "cg_loop_w update_cg ind X rho (nrows W) (ncols W) maxiter s0 = Inr (wF, rF, qF, roldF)"
    and W': "reshapeF wF (nrows W) (ncols W) = Inr W'"
    by (auto simp: conj_grad_w_def Let_def ebind_eq_Inr)
  obtain m where m: "maxiter = k + (1 + m)"
    using k by (metis Suc_eq_plus1_left less_iff_Suc_add add.commute add.left_commute)
  from loop obtain s1 where
    one: "cg_loop_w update_cg ind X rho (nrows W) (ncols W) 1 (w, r, q, rold) = Inr s1"
    and rest: "cg_loop_w update_cg ind X rho (nrows W) (ncols W) m s1 = Inr (wF, rF, qF, roldF)"
    unfolding m cg_loop_w_add before ebind_Inr by (auto simp: ebind_eq_Inr)
  obtain w1 r1 q1 rold1 where s1: "s1 = (w1, r1, q1, rold1)"
    using prod_cases4 by blast
  from one have u: "update_cg w r q (vecF L) rold = Inr (w1, r1, q1, rold1)"
    by (simp add: Q L s1 ebind_eq_Inr)
  have "\<forall>x \<in> set w1. \<not> is_finite x"
    by (rule update_cg_zero_denominator [OF zero u])
  with rest have bad: "\<forall>x \<in> set wF. \<not> is_finite x"
    unfolding s1 by (rule cg_loop_w_keeps_nonfinite)
  from W' have len: "length wF = nrows W * ncols W" and W'_def: "W' = unvecF wF (nrows W) (ncols W)"
    by (simp_all add: reshapeF_Inr)
  have "\<not> is_finite (elt W' i j)" if "i < nrows W" "j < ncols W" for i j
    using elt_unvecF_mem [OF len that] bad unfolding W'_def by blast
  with run show ?thesis
    by blast
qed

lemma conj_grad_x_zero_denominator:
  assumes fits: "x_fits sparse_mat ind W X A Psi d" and k: "k < maxiter"
    and start: "cg_start_x sparse_mat ind W X A Psi d lambda0 rho = Inr s0"
    and before: "cg_loop_x update_cg ind W A Psi d lambda0 rho (nrows X) (ncols X) k s0
                 = Inr (x, r, q, rold)"
    and Q: "reshapeF q (nrows X) (ncols X) = Inr Q"
    and L: "ell_x ind W Q A Psi d lambda0 rho = Inr L"
    and zero: "inner q (vecF L) = Inr 0"
  shows "\<exists>X'. conj_grad_x update_cg sparse_mat ind W X A Psi d lambda0 rho maxiter = Inr X'
              \<and> (\<forall>i < nrows X. \<forall>j < ncols X. \<not> is_finite (elt X' i j))"
proof -
  from conj_grad_x_returns [OF fits]
  obtain X' where run: "conj_grad_x update_cg sparse_mat ind W X A Psi d lambda0 rho maxiter
                        = Inr X'"
    by blast
  from run start obtain xF rF qF roldF where
    loop: "cg_loop_x update_cg ind W A Psi d lambda0 rho (nrows X) (ncols X) maxiter s0
           = Inr (xF, rF, qF, roldF)"
    and X': "reshapeF xF (nrows X) (ncols X) = Inr X'"
    by (auto simp: conj_grad_x_def Let_def ebind_eq_Inr)
  obtain m where m: "maxiter = k + (1 + m)"
    using k by (metis Suc_eq_plus1_left less_iff_Suc_add add.commute add.left_commute)
  from loop obtain s1 where
    one: "cg_loop_x update_cg ind W A Psi d lambda0 rho (nrows X) (ncols X) 1 (x, r, q, rold)
          = Inr s1"
    and rest: "cg_loop_x update_cg ind W A Psi d lambda0 rho (nrows X) (ncols X) m s1
               = Inr (xF, rF, qF, roldF)"
    unfolding m cg_loop_x_add before ebind_Inr by (auto simp: ebind_eq_Inr)
  obtain x1 r1 q1 rold1 where s1: "s1 = (x1, r1, q1, rold1)"
    using prod_cases4 by blast
  from one have u: "update_cg x r q (vecF L) rold = Inr (x1, r1, q1, rold1)"
    by (simp add: Q L s1 ebind_eq_Inr)
  have "\<forall>v \<in> set x1. \<not> is_finite v"
    by (rule update_cg_zero_denominator [OF zero u])
  with rest have bad: "\<forall>v \<in> set xF. \<not> is_finite v"
    unfolding s1 by (rule cg_loop_x_keeps_nonfinite)
  from X' have len: "length xF = nrows X * ncols X" and X'_def: "X' = unvecF xF (nrows X) (ncols X)"
    by (simp_all add: reshapeF_Inr)
  have "\<not> is_finite (elt X' i j)" if "i < nrows X" "j < ncols X" for i j
    using elt_unvecF_mem [OF len that] bad unfolding X'_def by blast
  with run show ?thesis
    by blast
qed

lemma ebind_eq_Inl: "ebind m f = Inl e \<longleftrightarrow> m = Inl e \<or> (\<exists>x. m = Inr x \<and> f x = Inl e)"
  by (cases m) simp_all

lemma bdim_error: "bdim a b = Inl e \<Longrightarrow> e = ValueError"
  by (simp add: bdim_def split: if_splits)

lemma shape_errors:
  "matmul A B = Inl e \<Longrightarrow> e = ValueError"
  "inner u v = Inl e \<Longrightarrow> e = ValueError"
  "np_add A B = Inl e \<Longrightarrow> e = ValueError"
  "np_sub A B = Inl e \<Longrightarrow> e = ValueError"
  "np_mul_ind A ind = Inl e \<Longrightarrow> e = ValueError"
  "np_add1 u v = Inl e \<Longrightarrow> e = ValueError"
  "np_sub1 u v = Inl e \<Longrightarrow> e = ValueError"
  "iadd A B = Inl e \<Longrightarrow> e = ValueError"
  "assign_rows A a b B = Inl e \<Longrightarrow> e = ValueError"
  "reshapeF u r c = Inl e \<Longrightarrow> e = ValueError"
  by (auto simp: matmul_def inner_def np_add_def np_sub_def np_mul_ind_def np_add1_def
      np_sub1_def iadd_def assign_rows_def reshapeF_def Let_def ebind_eq_Inl
      dest: bdim_error split: if_splits)

lemma list_get_error: "list_get xs k = Inl e \<Longrightarrow> e = IndexError"
  by (simp add: list_get_def split: if_splits)

lemma update_cg_error: "update_cg var r q Aq rold = Inl e \<Longrightarrow> e = ValueError"
  by (auto simp: update_cg_def Let_def ebind_eq_Inl dest: shape_errors)

lemma ell_w_error: "ell_w ind W X rho = Inl e \<Longrightarrow> e = ValueError"
  by (auto simp: ell_w_def ebind_eq_Inl dest: shape_errors)

lemma cg_start_w_error: "cg_start_w sparse_mat ind W X rho = Inl e \<Longrightarrow> e = ValueError"
  by (auto simp: cg_start_w_def Let_def ebind_eq_Inl dest: shape_errors ell_w_error)

lemma cg_loop_w_error:
  "cg_loop_w update_cg ind X rho rank dim1 n s = Inl e \<Longrightarrow> e = ValueError"
proof (induction n arbitrary: s)
  case 0
  then show ?case by simp
next
  case (Suc n)
  obtain w r q rold where s: "s = (w, r, q, rold)"
    using prod_cases4 by blast
  from Suc.prems show ?case
    unfolding s
    by (auto simp: ebind_eq_Inl dest: shape_errors ell_w_error update_cg_error Suc.IH)
qed

lemma conj_grad_w_error:
  "conj_grad_w update_cg sparse_mat ind W X rho maxiter = Inl e \<Longrightarrow> e = ValueError"
  by (auto simp: conj_grad_w_def Let_def ebind_eq_Inl
      dest: shape_errors cg_start_w_error cg_loop_w_error)

lemma stack_loop_error:
  "stack_loop X Psi rank ks temp = Inl e \<Longrightarrow> e = ValueError \<or> e = IndexError"
proof (induction ks arbitrary: temp)
  case Nil
  then show ?case by simp
next
  case (Cons k ks)
  from Cons.prems show ?case
    by (auto simp: ebind_eq_Inl dest: shape_errors list_get_error Cons.IH)
qed

lemma lag_loop_error:
  "lag_loop A Psi rank temp1 ks temp2 = Inl e \<Longrightarrow> e = ValueError \<or> e = IndexError"
proof (induction ks arbitrary: temp2)
  case Nil
  then show ?case by simp
next
  case (Cons k ks)
  from Cons.prems show ?case
    by (auto simp: ebind_eq_Inl dest: shape_errors list_get_error Cons.IH)
qed

lemma ell_x_error:
  "ell_x ind W X A Psi d lambda0 rho = Inl e \<Longrightarrow> e = ValueError \<or> e = IndexError"
  by (auto simp: ell_x_def Let_def ebind_eq_Inl
      dest: shape_errors list_get_error stack_loop_error lag_loop_error)

lemma cg_start_x_error:
  "cg_start_x sparse_mat ind W X A Psi d lambda0 rho = Inl e
    \<Longrightarrow> e = ValueError \<or> e = IndexError"
  by (auto simp: cg_start_x_def Let_def ebind_eq_Inl dest: shape_errors ell_x_error)

lemma cg_loop_x_error:
  "cg_loop_x update_cg ind W A Psi d lambda0 rho rank dim2 n s = Inl e
    \<Longrightarrow> e = ValueError \<or> e = IndexError"
proof (induction n arbitrary: s)
  case 0
  then show ?case by simp
next
  case (Suc n)
  obtain x r q rold where s: "s = (x, r, q, rold)"
    using prod_cases4 by blast
  from Suc.prems show ?case
    unfolding s
    by (auto simp: ebind_eq_Inl dest: shape_errors ell_x_error update_cg_error Suc.IH)
qed

lemma conj_grad_x_error:
  "conj_grad_x update_cg sparse_mat ind W X A Psi d lambda0 rho maxiter = Inl e
    \<Longrightarrow> e = ValueError \<or> e = IndexError"
  by (auto simp: conj_grad_x_def Let_def ebind_eq_Inl
      dest: shape_errors cg_start_x_error cg_loop_x_error)

text \<open>
  A run in which the denominator is zero. One observed entry \<open>2\<close>, \<open>X = 1\<close>, \<open>rho = 1\<close> and
  the start \<open>W = 0\<close>: the lines before the loop of \<open>conj_grad_w\<close> give the residual and the
  direction \<open>2\<close>, the first round finds the solution \<open>W = 1\<close> and leaves the residual and the
  direction at zero. In the second round \<open>q \<cdot> L(q)\<close> is zero, \<open>alpha\<close> is \<open>0 / 0\<close>, and the
  solver goes on: after its five rounds it returns NaN and raises nothing. All the numbers
  before the division are small integers and halves, which float64 holds exactly.
\<close>

lemma zero_denominator_w:
  "cg_start_w two1 true1 zero1 one1 (Fin 1) = Inr ([Fin 0], [Fin 2], [Fin 2], Fin 4)"
  "cg_loop_w update_cg true1 one1 (Fin 1) (nrows zero1) (ncols zero1) 1
     ([Fin 0], [Fin 2], [Fin 2], Fin 4) = Inr ([Fin 1], [Fin 0], [Fin 0], Fin 0)"
  "reshapeF [Fin 0] (nrows zero1) (ncols zero1) = Inr zero1"
  "ell_w true1 zero1 one1 (Fin 1) = Inr zero1"
  "inner [Fin 0] (vecF zero1) = Inr 0"
  by code_simp+

lemma zero_denominator_x:
  "cg_start_x two1 true1 one1 zero1 no_lags [one1] 0 (Fin 1) (Fin 0)
     = Inr ([Fin 0], [Fin 2], [Fin 2], Fin 4)"
  "cg_loop_x update_cg true1 one1 no_lags [one1] 0 (Fin 1) (Fin 0) (nrows zero1) (ncols zero1) 1
     ([Fin 0], [Fin 2], [Fin 2], Fin 4) = Inr ([Fin 1], [Fin 0], [Fin 0], Fin 0)"
  "reshapeF [Fin 0] (nrows zero1) (ncols zero1) = Inr zero1"
  "ell_x true1 one1 zero1 no_lags [one1] 0 (Fin 1) (Fin 0) = Inr zero1"
  by code_simp+

lemma zero_denominator_fits:
  "w_fits two1 true1 zero1 one1" "x_fits two1 true1 one1 zero1 no_lags [one1] 0"
  by (simp_all add: w_fits_def x_fits_def psi_fits_def two1_def true1_def zero1_def one1_def
      no_lags_def)

text \<open>
  C6, as stated, fails: the solver returns \<open>NaN\<close> in the factor and raises nothing.
\<close>

theorem conj_grad_nan_counterexample:
  "conj_grad_w update_cg two1 true1 zero1 one1 (Fin 1) 5
     = Inr \<lparr>nrows = 1, ncols = 1, rows = [[NaN]]\<rparr>
   \<and> conj_grad_x update_cg two1 true1 one1 zero1 no_lags [one1] 0 (Fin 1) (Fin 0) 5
     = Inr \<lparr>nrows = 1, ncols = 1, rows = [[NaN]]\<rparr>"
  by code_simp

text \<open>
  C6, amended. \<open>conj_grad_w\<close> and \<open>conj_grad_x\<close> with the second \<open>update_cg\<close> never test the
  denominator \<open>q \<cdot> L(q)\<close>. On operands whose shapes fit they return for every number of
  rounds, and on any operands the only exceptions are those of numpy's shape checks
  (\<open>ValueError\<close>, and \<open>IndexError\<close> for a list \<open>Psi\<close> that is too short): no exception
  reports a failure of the solver. If the denominator of some round \<open>k < maxiter\<close> is zero,
  the solver still returns, and every entry of the factor it returns is NaN or an infinity.
\<close>

theorem conj_grad_no_failure:
  "(w_fits sparse_mat ind W X \<longrightarrow>
      (\<exists>W'. conj_grad_w update_cg sparse_mat ind W X rho maxiter = Inr W'
            \<and> nrows W' = nrows W \<and> ncols W' = ncols W))
   \<and> (x_fits sparse_mat ind W X A Psi d \<longrightarrow>
      (\<exists>X'. conj_grad_x update_cg sparse_mat ind W X A Psi d lambda0 rho maxiter = Inr X'
            \<and> nrows X' = nrows X \<and> ncols X' = ncols X))
   \<and> (conj_grad_w update_cg sparse_mat ind W X rho maxiter = Inl e \<longrightarrow> e = ValueError)
   \<and> (conj_grad_x update_cg sparse_mat ind W X A Psi d lambda0 rho maxiter = Inl e
        \<longrightarrow> e = ValueError \<or> e = IndexError)
   \<and> (w_fits sparse_mat ind W X \<and> k < maxiter
        \<and> cg_start_w sparse_mat ind W X rho = Inr s0
        \<and> cg_loop_w update_cg ind X rho (nrows W) (ncols W) k s0 = Inr (w, r, q, rold)
        \<and> reshapeF q (nrows W) (ncols W) = Inr Q
        \<and> ell_w ind Q X rho = Inr L
        \<and> inner q (vecF L) = Inr 0
      \<longrightarrow> (\<exists>W'. conj_grad_w update_cg sparse_mat ind W X rho maxiter = Inr W'
                \<and> (\<forall>i < nrows W. \<forall>j < ncols W. \<not> is_finite (elt W' i j))))
   \<and> (x_fits sparse_mat ind W X A Psi d \<and> k < maxiter
        \<and> cg_start_x sparse_mat ind W X A Psi d lambda0 rho = Inr t0
        \<and> cg_loop_x update_cg ind W A Psi d lambda0 rho (nrows X) (ncols X) k t0
            = Inr (x, r', q', rold')
        \<and> reshapeF q' (nrows X) (ncols X) = Inr Q'
        \<and> ell_x ind W Q' A Psi d lambda0 rho = Inr L'
        \<and> inner q' (vecF L') = Inr 0
      \<longrightarrow> (\<exists>X'. conj_grad_x update_cg sparse_mat ind W X A Psi d lambda0 rho maxiter = Inr X'
                \<and> (\<forall>i < nrows X. \<forall>j < ncols X. \<not> is_finite (elt X' i j))))"
proof (intro conjI impI)
  assume "w_fits sparse_mat ind W X"
  then show "\<exists>W'. conj_grad_w update_cg sparse_mat ind W X rho maxiter = Inr W'
                  \<and> nrows W' = nrows W \<and> ncols W' = ncols W"
    using conj_grad_w_returns [of sparse_mat ind W X rho maxiter] by blast
next
  assume "x_fits sparse_mat ind W X A Psi d"
  then show "\<exists>X'. conj_grad_x update_cg sparse_mat ind W X A Psi d lambda0 rho maxiter = Inr X'
                  \<and> nrows X' = nrows X \<and> ncols X' = ncols X"
    using conj_grad_x_returns [of sparse_mat ind W X A Psi d lambda0 rho maxiter] by blast
next
  assume "conj_grad_w update_cg sparse_mat ind W X rho maxiter = Inl e"
  then show "e = ValueError"
    by (rule conj_grad_w_error)
next
  assume "conj_grad_x update_cg sparse_mat ind W X A Psi d lambda0 rho maxiter = Inl e"
  then show "e = ValueError \<or> e = IndexError"
    by (rule conj_grad_x_error)
next
  assume "w_fits sparse_mat ind W X \<and> k < maxiter
        \<and> cg_start_w sparse_mat ind W X rho = Inr s0
        \<and> cg_loop_w update_cg ind X rho (nrows W) (ncols W) k s0 = Inr (w, r, q, rold)
        \<and> reshapeF q (nrows W) (ncols W) = Inr Q
        \<and> ell_w ind Q X rho = Inr L
        \<and> inner q (vecF L) = Inr 0"
  then show "\<exists>W'. conj_grad_w update_cg sparse_mat ind W X rho maxiter = Inr W'
                  \<and> (\<forall>i < nrows W. \<forall>j < ncols W. \<not> is_finite (elt W' i j))"
    using conj_grad_w_zero_denominator [of sparse_mat ind W X k maxiter rho s0 w r q rold Q L]
    by blast
next
  assume "x_fits sparse_mat ind W X A Psi d \<and> k < maxiter
        \<and> cg_start_x sparse_mat ind W X A Psi d lambda0 rho = Inr t0
        \<and> cg_loop_x update_cg ind W A Psi d lambda0 rho (nrows X) (ncols X) k t0
            = Inr (x, r', q', rold')
        \<and> reshapeF q' (nrows X) (ncols X) = Inr Q'
        \<and> ell_x ind W Q' A Psi d lambda0 rho = Inr L'
        \<and> inner q' (vecF L') = Inr 0"
  then show "\<exists>X'. conj_grad_x update_cg sparse_mat ind W X A Psi d lambda0 rho maxiter = Inr X'
                  \<and> (\<forall>i < nrows X. \<forall>j < ncols X. \<not> is_finite (elt X' i j))"
    using conj_grad_x_zero_denominator [of sparse_mat ind W X A Psi d k maxiter lambda0 rho t0
        x r' q' rold' Q' L']
    by blast
qed

theorem conj_grad_no_failure_witness:
  "w_fits two1 true1 zero1 one1 \<and> (1::nat) < 5
   \<and> cg_start_w two1 true1 zero1 one1 (Fin 1) = Inr ([Fin 0], [Fin 2], [Fin 2], Fin 4)
   \<and> cg_loop_w update_cg true1 one1 (Fin 1) (nrows zero1) (ncols zero1) 1
       ([Fin 0], [Fin 2], [Fin 2], Fin 4) = Inr ([Fin 1], [Fin 0], [Fin 0], Fin 0)
   \<and> reshapeF [Fin 0] (nrows zero1) (ncols zero1) = Inr zero1
   \<and> ell_w true1 zero1 one1 (Fin 1) = Inr zero1
   \<and> inner [Fin 0] (vecF zero1) = Inr 0
   \<and> (\<exists>W'. conj_grad_w update_cg two1 true1 zero1 one1 (Fin 1) 5 = Inr W'
           \<and> (\<forall>i < nrows zero1. \<forall>j < ncols zero1. \<not> is_finite (elt W' i j)))
   \<and> x_fits two1 true1 one1 zero1 no_lags [one1] 0
   \<and> cg_start_x two1 true1 one1 zero1 no_lags [one1] 0 (Fin 1) (Fin 0)
       = Inr ([Fin 0], [Fin 2], [Fin 2], Fin 4)
   \<and> cg_loop_x update_cg true1 one1 no_lags [one1] 0 (Fin 1) (Fin 0) (nrows zero1)
       (ncols zero1) 1 ([Fin 0], [Fin 2], [Fin 2], Fin 4)
       = Inr ([Fin 1], [Fin 0], [Fin 0], Fin 0)
   \<and> ell_x true1 one1 zero1 no_lags [one1] 0 (Fin 1) (Fin 0) = Inr zero1
   \<and> (\<exists>X'. conj_grad_x update_cg two1 true1 one1 zero1 no_lags [one1] 0 (Fin 1) (Fin 0) 5
             = Inr X'
           \<and> (\<forall>i < nrows zero1. \<forall>j < ncols zero1. \<not> is_finite (elt X' i j)))
   \<and> (\<exists>W'. conj_grad_w update_cg two1 true1 zero1 one1 (Fin 1) 5 = Inr W'
           \<and> nrows W' = nrows zero1 \<and> ncols W' = ncols zero1)
   \<and> (\<exists>X'. conj_grad_x update_cg two1 true1 one1 zero1 no_lags [one1] 0 (Fin 1) (Fin 0) 5
             = Inr X'
           \<and> nrows X' = nrows zero1 \<and> ncols X' = ncols zero1)
   \<and> conj_grad_w update_cg two1 true1 one1 obs3 (Fin 1) 5 = Inl ValueError"
proof -
  have k: "(1::nat) < 5"
    by simp
  have bad: "conj_grad_w update_cg two1 true1 one1 obs3 (Fin 1) 5 = Inl ValueError"
    by code_simp
  note w = conj_grad_no_failure [of two1 true1 zero1 one1 "Fin 1" 5 one1 "[one1]" 0 "Fin 0"
      ValueError 1 "([Fin 0], [Fin 2], [Fin 2], Fin 4)" "[Fin 1]" "[Fin 0]" "[Fin 0]" "Fin 0"
      zero1 zero1]
  note x = conj_grad_no_failure [of two1 true1 one1 zero1 "Fin 0" 5 no_lags "[one1]" 0 "Fin 1"
      ValueError 1 _ _ _ _ _ _ _ "([Fin 0], [Fin 2], [Fin 2], Fin 4)" "[Fin 1]" "[Fin 0]"
      "[Fin 0]" "Fin 0" zero1 zero1]
  from w zero_denominator_fits(1)
  have a: "\<exists>W'. conj_grad_w update_cg two1 true1 zero1 one1 (Fin 1) 5 = Inr W'
                \<and> nrows W' = nrows zero1 \<and> ncols W' = ncols zero1"
    by blast
  from w zero_denominator_fits(1) k zero_denominator_w
  have b: "\<exists>W'. conj_grad_w update_cg two1 true1 zero1 one1 (Fin 1) 5 = Inr W'
                \<and> (\<forall>i < nrows zero1. \<forall>j < ncols zero1. \<not> is_finite (elt W' i j))"
    by blast
  from x zero_denominator_fits(2)
  have c: "\<exists>X'. conj_grad_x update_cg two1 true1 one1 zero1 no_lags [one1] 0 (Fin 1) (Fin 0) 5
                  = Inr X'
                \<and> nrows X' = nrows zero1 \<and> ncols X' = ncols zero1"
    by blast
  from x zero_denominator_fits(2) k zero_denominator_x zero_denominator_w(5)
  have d: "\<exists>X'. conj_grad_x update_cg two1 true1 one1 zero1 no_lags [one1] 0 (Fin 1) (Fin 0) 5
                  = Inr X'
                \<and> (\<forall>i < nrows zero1. \<forall>j < ncols zero1. \<not> is_finite (elt X' i j))"
    by blast
  from zero_denominator_fits k zero_denominator_w zero_denominator_x a b c d bad
  show ?thesis
    by blast
qed

end
